theory Spec2Isabelle
  imports Main
begin

section \<open>The suite engine of \<^verbatim>\<open>internal/suite.go\<close>\<close>

text \<open>
  A shallow embedding of \<^verbatim>\<open>vendor/github.com/onsi/ginkgo/v2/internal/suite.go\<close>.
  Go structs are records, Go enumerations are datatypes, and the collaborators that the
  suite talks to (reporter, parallel client, interrupt handler, failer, clock, the bodies
  of the nodes) are an environment of answers, \<open>env\<close>. Every call that leaves the suite
  is written to the field \<open>trace\<close>, in the order in which the code makes it.
  A function that may not return normally (a blocked \<^verbatim>\<open>select\<close>, a client that
  never answers, a Go panic) has an \<open>option\<close> result, \<open>None\<close> standing for
  "no normal return".

  Embedded are \<^verbatim>\<open>NewSuite\<close>, \<^verbatim>\<open>pushCleanupNode\<close>, \<^verbatim>\<open>CurrentSpecReport\<close>,
  \<^verbatim>\<open>AddReportEntry\<close>, \<^verbatim>\<open>generateProgressReport\<close>, \<^verbatim>\<open>emitProgressReport\<close>,
  \<^verbatim>\<open>isRunningInParallel\<close>, \<^verbatim>\<open>processCurrentSpecReport\<close>, \<^verbatim>\<open>runSpecs\<close>,
  \<^verbatim>\<open>runBeforeSuite\<close>, \<^verbatim>\<open>runAfterSuiteCleanup\<close>, \<^verbatim>\<open>runReportAfterSuite\<close>,
  \<^verbatim>\<open>runSuiteNode\<close>, \<^verbatim>\<open>runReportAfterSuiteNode\<close>, \<^verbatim>\<open>runNode\<close> and
  \<^verbatim>\<open>failureForLeafNodeWithMessage\<close>. The construction of the tree (\<^verbatim>\<open>BuildTree\<close>,
  \<^verbatim>\<open>PushNode\<close>, \<^verbatim>\<open>pushSuiteNode\<close>), \<^verbatim>\<open>Run\<close>, \<^verbatim>\<open>reportEach\<close> and the handling
  of progress signals are outside the properties stated here and are not embedded.
\<close>

subsection \<open>Values of package \<^verbatim>\<open>types\<close>\<close>

text \<open>
  Modelled from the spec: \<^verbatim>\<open>types.SpecState\<close> (package \<^verbatim>\<open>types\<close> is not
  among the sources). The spec lists the states
  \<^verbatim>\<open>Passed, Failed, Panicked, Timedout, Interrupted, Aborted, Skipped, Pending, Invalid(initial)\<close>;
  \<open>SpecStateInvalid\<close> is the zero value of a Go variable of this type.
\<close>

datatype SpecState =
    SpecStateInvalid
  | SpecStatePending
  | SpecStateSkipped
  | SpecStatePassed
  | SpecStateFailed
  | SpecStateAborted
  | SpecStatePanicked
  | SpecStateInterrupted
  | SpecStateTimedout

text \<open>
  Modelled from the spec: \<^verbatim>\<open>types.SpecStateFailureStates\<close>,
  "Interrupted/Aborted/Failed/Panicked/Timedout are collectively failure states".
\<close>

definition SpecStateFailureStates :: "SpecState list" where
  "SpecStateFailureStates =
     [SpecStateFailed, SpecStateTimedout, SpecStateAborted, SpecStatePanicked, SpecStateInterrupted]"

text \<open>
  Modelled from the spec: \<^verbatim>\<open>SpecState.Is(mask)\<close>, the test whether a state is one
  of the states of a mask. The zero state belongs to no mask.
\<close>

definition SpecState_Is :: "SpecState \<Rightarrow> SpecState list \<Rightarrow> bool" where
  "SpecState_Is st m = (st \<noteq> SpecStateInvalid \<and> List.member m st)"

text \<open>
  Modelled from the spec: \<^verbatim>\<open>types.NodeType\<close>, with the node types that the source
  and the spec name. \<open>NodeTypeInvalid\<close> is the zero value.
\<close>

datatype NodeType =
    NodeTypeInvalid
  | NodeTypeContainer
  | NodeTypeIt
  | NodeTypeBeforeEach
  | NodeTypeAfterEach
  | NodeTypeBeforeAll
  | NodeTypeAfterAll
  | NodeTypeBeforeSuite
  | NodeTypeSynchronizedBeforeSuite
  | NodeTypeAfterSuite
  | NodeTypeSynchronizedAfterSuite
  | NodeTypeReportBeforeEach
  | NodeTypeReportAfterEach
  | NodeTypeReportAfterSuite
  | NodeTypeCleanupInvalid
  | NodeTypeCleanupAfterEach
  | NodeTypeCleanupAfterAll
  | NodeTypeCleanupAfterSuite

definition NodeType_Is :: "NodeType \<Rightarrow> NodeType list \<Rightarrow> bool" where
  "NodeType_Is nt m = (nt \<noteq> NodeTypeInvalid \<and> List.member m nt)"

type_synonym CodeLocation = string

text \<open>
  Go's \<^verbatim>\<open>time.Time\<close> is an instant, here the number of nanoseconds since the zero
  instant (the wall clock and the monotonic reading of a Go time are one number), and
  \<^verbatim>\<open>time.Duration\<close> is a number of nanoseconds in 64 bits. \<^verbatim>\<open>Time.Sub\<close> saturates
  at the largest and the smallest duration.
\<close>

type_synonym Time = int
type_synonym Duration = int

definition maxDuration :: Duration where
  "maxDuration = 2 ^ 63 - 1"

definition minDuration :: Duration where
  "minDuration = - (2 ^ 63)"

definition Time_IsZero :: "Time \<Rightarrow> bool" where
  "Time_IsZero t = (t = 0)"

definition Time_Before :: "Time \<Rightarrow> Time \<Rightarrow> bool" where
  "Time_Before t u = (t < u)"

definition Time_After :: "Time \<Rightarrow> Time \<Rightarrow> bool" where
  "Time_After t u = (t > u)"

definition Time_Add :: "Time \<Rightarrow> Duration \<Rightarrow> Time" where
  "Time_Add t d = t + d"

definition Time_Sub :: "Time \<Rightarrow> Time \<Rightarrow> Duration" where
  "Time_Sub t u =
     (if t - u > maxDuration then maxDuration
      else if t - u < minDuration then minDuration
      else t - u)"

text \<open>
  Modelled from the spec: \<^verbatim>\<open>types.ProgressReport\<close>, "a point-in-time snapshot of
  what a running node is doing". The source reads and writes \<^verbatim>\<open>Message\<close> and clears
  the captured writer output with \<^verbatim>\<open>WithoutCapturedGinkgoWriterOutput\<close>; the other
  fields are what \<^verbatim>\<open>generateProgressReport\<close> hands to \<^verbatim>\<open>NewProgressReport\<close>.
\<close>

record ProgressReport =
  Message :: string
  RunningInParallel :: bool
  CurrentNodeType :: NodeType
  CurrentNodeStartTime :: Time
  CurrentStepText :: string
  CapturedGinkgoWriterOutput :: string
  AdditionalReports :: "string list"
  FullReport :: bool

definition ProgressReport_zero :: ProgressReport where
  "ProgressReport_zero =
     \<lparr>Message = [], RunningInParallel = False, CurrentNodeType = NodeTypeInvalid,
      CurrentNodeStartTime = 0, CurrentStepText = [], CapturedGinkgoWriterOutput = [],
      AdditionalReports = [], FullReport = False\<rparr>"

definition WithoutCapturedGinkgoWriterOutput :: "ProgressReport \<Rightarrow> ProgressReport" where
  "WithoutCapturedGinkgoWriterOutput pr = pr\<lparr>CapturedGinkgoWriterOutput := []\<rparr>"

datatype FailureNodeContext =
    FailureNodeContextInvalid
  | FailureNodeIsLeafNode
  | FailureNodeAtTopLevel
  | FailureNodeInContainer

text \<open>
  Modelled from the spec: \<^verbatim>\<open>types.Failure\<close>, "message, source location, which node
  produced it, whether the node was a leaf/top-level/nested-container, and an optional
  embedded progress report", with the field names that the source uses.
\<close>

record Failure =
  Message :: string
  Location :: CodeLocation
  ForwardedPanic :: string
  FailureNodeContext :: FailureNodeContext
  FailureNodeType :: NodeType
  FailureNodeLocation :: CodeLocation
  FailureNodeContainerIndex :: int
  ProgressReport :: ProgressReport

definition Failure_zero :: Failure where
  "Failure_zero =
     \<lparr>Message = [], Location = [], ForwardedPanic = [],
      FailureNodeContext = FailureNodeContextInvalid, FailureNodeType = NodeTypeInvalid,
      FailureNodeLocation = [], FailureNodeContainerIndex = 0,
      ProgressReport = ProgressReport_zero\<rparr>"

text \<open>
  Modelled from the spec: \<^verbatim>\<open>ReportEntry\<close> (not among the sources). The source reads the
  location of an entry; its name and its value stand for the rest of it.
\<close>

record ReportEntry =
  Name :: string
  Location :: CodeLocation
  Value :: string

definition ReportEntry_zero :: ReportEntry where
  "ReportEntry_zero = \<lparr>Name = [], Location = [], Value = []\<rparr>"

text \<open>
  A Go slice of report entries is a window on a backing array: the address of the array,
  a length and a capacity. The \<^verbatim>\<open>nil\<close> slice has address 0 and no elements. The arrays
  themselves live in the store \<open>heap\<close> below, so that two slices with one address share
  their elements, as in Go.
\<close>

record slice =
  ptr :: nat
  len :: nat
  cap :: nat

definition slice_nil :: slice where
  "slice_nil = \<lparr>ptr = 0, len = 0, cap = 0\<rparr>"

text \<open>
  Modelled from the spec: \<^verbatim>\<open>types.SpecReport\<close>, "state, failure detail, timestamps,
  captured auxiliary output, report entries, progress reports collected during the run",
  with the names of the fields that the source reads and writes.
\<close>

record SpecReport =
  LeafNodeType :: NodeType
  LeafNodeLocation :: CodeLocation
  LeafNodeText :: string
  ParallelProcess :: int
  State :: SpecState
  Failure :: Failure
  StartTime :: Time
  EndTime :: Time
  RunTime :: Duration
  CapturedGinkgoWriterOutput :: string
  CapturedStdOutErr :: string
  ReportEntries :: slice
  ProgressReports :: "ProgressReport list"

definition SpecReport_zero :: SpecReport where
  "SpecReport_zero =
     \<lparr>LeafNodeType = NodeTypeInvalid, LeafNodeLocation = [], LeafNodeText = [],
      ParallelProcess = 0, State = SpecStateInvalid, Failure = Failure_zero,
      StartTime = 0, EndTime = 0, RunTime = 0, CapturedGinkgoWriterOutput = [],
      CapturedStdOutErr = [], ReportEntries = slice_nil, ProgressReports = []\<rparr>"

text \<open>
  Modelled from the spec: \<^verbatim>\<open>types.SuiteConfig\<close>, the fields that the source reads.
\<close>

record SuiteConfig =
  Timeout :: Duration
  GracePeriod :: Duration
  PollProgressAfter :: Duration
  PollProgressInterval :: Duration
  EmitSpecProgress :: bool
  DryRun :: bool
  FailFast :: bool
  FailOnPending :: bool
  ParallelProcess :: int
  ParallelTotal :: int

definition SuiteConfig_zero :: SuiteConfig where
  "SuiteConfig_zero =
     \<lparr>Timeout = 0, GracePeriod = 0, PollProgressAfter = 0, PollProgressInterval = 0,
      EmitSpecProgress = False, DryRun = False, FailFast = False, FailOnPending = False,
      ParallelProcess = 0, ParallelTotal = 0\<rparr>"

text \<open>
  Modelled from the spec: \<^verbatim>\<open>types.Report\<close>, the fields that the source writes. The two
  counts of \<^verbatim>\<open>PreRunStats\<close> are fields of the report itself.
\<close>

record Report =
  SuitePath :: string
  SuiteDescription :: string
  SuiteLabels :: "string list"
  SuiteConfig :: SuiteConfig
  SuiteHasProgrammaticFocus :: bool
  TotalSpecs :: nat
  SpecsThatWillRun :: nat
  StartTime :: Time
  EndTime :: Time
  RunTime :: Duration
  SuiteSucceeded :: bool
  SpecialSuiteFailureReasons :: "string list"
  SpecReports :: "SpecReport list"

definition Report_zero :: Report where
  "Report_zero =
     \<lparr>SuitePath = [], SuiteDescription = [], SuiteLabels = [], SuiteConfig = SuiteConfig_zero,
      SuiteHasProgrammaticFocus = False, TotalSpecs = 0, SpecsThatWillRun = 0,
      StartTime = 0, EndTime = 0, RunTime = 0, SuiteSucceeded = False,
      SpecialSuiteFailureReasons = [], SpecReports = []\<rparr>"

subsection \<open>Nodes, specs and the interrupt status\<close>

text \<open>
  A Go closure cannot be inspected, so the field \<open>Body\<close> of a node records which closure
  the node currently carries: the one it was declared with, or one of the closures that
  \<^verbatim>\<open>runSuiteNode\<close>, \<^verbatim>\<open>runReportAfterSuiteNode\<close> and \<^verbatim>\<open>reportEach\<close> put in its place,
  together with the value that closure captured. What a body does when it runs is an
  answer of the environment.
\<close>

type_synonym bytes = string

datatype Body =
    Body_nil
  | Body_declared
  | Body_SynchronizedBeforeSuiteProc1
  | Body_SynchronizedBeforeSuiteAllProcs bytes
  | Body_SynchronizedAfterSuiteAllProcs
  | Body_SynchronizedAfterSuiteProc1
  | Body_ReportAfterSuite Report
  | Body_ReportEach SpecReport

record Node =
  ID :: nat
  NodeType :: NodeType
  Text :: string
  Body :: Body
  CodeLocation :: CodeLocation
  NestingLevel :: int
  HasContext :: bool
  SynchronizedBeforeSuiteProc1BodyHasContext :: bool
  SynchronizedBeforeSuiteAllProcsBodyHasContext :: bool
  SynchronizedAfterSuiteAllProcsBodyHasContext :: bool
  SynchronizedAfterSuiteProc1BodyHasContext :: bool
  MarkedSerial :: bool
  MarkedSuppressProgressReporting :: bool
  PollProgressAfter :: Duration
  PollProgressInterval :: Duration
  NodeTimeout :: Duration
  GracePeriod :: Duration
  NodeIDWhereCleanupWasGenerated :: nat

definition Node_zero :: Node where
  "Node_zero =
     \<lparr>ID = 0, NodeType = NodeTypeInvalid, Text = [], Body = Body_nil, CodeLocation = [],
      NestingLevel = 0, HasContext = False,
      SynchronizedBeforeSuiteProc1BodyHasContext = False,
      SynchronizedBeforeSuiteAllProcsBodyHasContext = False,
      SynchronizedAfterSuiteAllProcsBodyHasContext = False,
      SynchronizedAfterSuiteProc1BodyHasContext = False,
      MarkedSerial = False, MarkedSuppressProgressReporting = False,
      PollProgressAfter = 0, PollProgressInterval = 0, NodeTimeout = 0, GracePeriod = 0,
      NodeIDWhereCleanupWasGenerated = 0\<rparr>"

text \<open>
  Modelled from the spec: the helpers of \<^verbatim>\<open>Node\<close> and \<^verbatim>\<open>Nodes\<close> that the source
  calls (\<^verbatim>\<open>node.go\<close> is not among the sources). A node is known by its identity, the
  field \<open>ID\<close>, which is zero only in a node that was never declared; \<^verbatim>\<open>WithType\<close> keeps the
  nodes of the given types in their order; \<^verbatim>\<open>FirstNodeWithType\<close> is the first of them
  or the zero node; \<^verbatim>\<open>Reverse\<close> turns the list round (the pending cleanup nodes run
  last-in first-out); \<^verbatim>\<open>WithoutNode\<close> removes a node from the list ("it is first removed
  from the pending cleanup registry").
\<close>

definition Node_IsZero :: "Node \<Rightarrow> bool" where
  "Node_IsZero n = (ID n = 0)"

definition WithType :: "Node list \<Rightarrow> NodeType list \<Rightarrow> Node list" where
  "WithType ns m = filter (\<lambda>n. NodeType_Is (NodeType n) m) ns"

definition FirstNodeWithType :: "Node list \<Rightarrow> NodeType list \<Rightarrow> Node" where
  "FirstNodeWithType ns m = (case WithType ns m of [] \<Rightarrow> Node_zero | n # _ \<Rightarrow> n)"

definition Reverse :: "Node list \<Rightarrow> Node list" where
  "Reverse ns = rev ns"

definition WithoutNode :: "Node list \<Rightarrow> Node \<Rightarrow> Node list" where
  "WithoutNode ns nodeToExclude = filter (\<lambda>n. ID n \<noteq> ID nodeToExclude) ns"

record Spec =
  Nodes :: "Node list"
  Skip :: bool

text \<open>
  Modelled from the spec: \<^verbatim>\<open>Specs.CountWithoutSkip\<close> (\<^verbatim>\<open>spec.go\<close> is not among the
  sources), the number of specs that will run.
\<close>

definition CountWithoutSkip :: "Spec list \<Rightarrow> nat" where
  "CountWithoutSkip specs = length (filter (\<lambda>sp. \<not> Skip sp) specs)"

text \<open>
  Modelled from the spec: the status of the interrupt handler (package
  \<^verbatim>\<open>interrupt_handler\<close> is not among the sources), "level + cause + whether a progress
  report should accompany it", with the three levels of escalation and the level of a
  run that was not interrupted. The fields \<open>Cause\<close>, \<open>ShouldIncludeProgressReport\<close> and
  \<open>Message\<close> hold what the methods \<^verbatim>\<open>Cause.String()\<close>,
  \<^verbatim>\<open>ShouldIncludeProgressReport()\<close> and \<^verbatim>\<open>Message()\<close> answer. The channel of the
  status is the event \<open>InterruptReceived\<close> of the waiting loop.
\<close>

datatype InterruptLevel =
    InterruptLevelUninterrupted
  | InterruptLevelCleanupAndReport
  | InterruptLevelReportOnly
  | InterruptLevelBailOut

record InterruptStatus =
  Level :: InterruptLevel
  Cause :: string
  ShouldIncludeProgressReport :: bool
  Message :: string

definition Interrupted :: "InterruptStatus \<Rightarrow> bool" where
  "Interrupted st = (Level st \<noteq> InterruptLevelUninterrupted)"

subsection \<open>Errors\<close>

text \<open>
  The errors that the source builds from \<^verbatim>\<open>types.GinkgoErrors\<close>, and the errors that
  the parallel client returns. Their texts are answers of the environment.
\<close>

datatype error =
    PushingCleanupNodeDuringTreeConstruction CodeLocation
  | PushingCleanupInReportingNode CodeLocation NodeType
  | PushingCleanupInCleanupNode CodeLocation
  | AddReportEntryNotDuringRunPhase CodeLocation
  | SynchronizedBeforeSuiteFailedOnProc1
  | ClientError string

subsection \<open>The suite\<close>

datatype Phase =
    PhaseBuildTopLevel
  | PhaseBuildTree
  | PhaseRun

text \<open>
  The calls that leave the suite: to the reporter, to the parallel client, to the output
  interceptor, to the timers of the Go runtime, to the group that runs specs, and the
  start of the worker that runs a body.
\<close>

datatype effect =
    Reporter_SuiteWillBegin Report
  | Reporter_WillRun SpecReport
  | Reporter_DidRun SpecReport
  | Reporter_EmitProgressReport ProgressReport
  | Reporter_SuiteDidEnd Report
  | Client_PostSuiteWillBegin Report
  | Client_PostDidRun SpecReport
  | Client_PostAbort
  | Client_PostEmitProgressReport ProgressReport
  | Client_PostSuiteDidEnd Report
  | Client_PostSynchronizedBeforeSuiteCompleted SpecState bytes
  | Client_FetchNextCounter
  | Client_BlockUntilNonprimaryProcsHaveFinished
  | Client_BlockUntilSynchronizedBeforeSuiteData
  | Client_BlockUntilAggregatedNonprimaryProcsReport
  | Interceptor_StartInterceptingOutput
  | Interceptor_StartInterceptingOutputAndForwardTo
  | Interceptor_StopInterceptingAndReturnOutput
  | Deadline_After Duration
  | GracePeriod_After Duration
  | ProgressPoller_NewTimer Duration
  | ProgressPoller_Reset Duration
  | ProgressPoller_Stop
  | Go_Body Node
  | Group_run "Spec list"

record specContext =
  cancelled :: bool

text \<open>
  The struct \<^verbatim>\<open>Suite\<close>. The tree of containers belongs to the construction of the tree and
  is left out; \<open>failer\<close>, \<open>reporter\<close>, \<open>outputInterceptor\<close>, \<open>interruptHandler\<close> and \<open>client\<close>
  are the environment. The writer is \<^verbatim>\<open>nil\<close> (\<open>None\<close>) until \<^verbatim>\<open>Run\<close> installs it, and
  otherwise holds the bytes written so far. The lock \<^verbatim>\<open>selectiveLock\<close> is released by
  every function before it returns or waits, and this model runs one function at a time,
  so the lock has no field.
\<close>

record Suite =
  phase :: Phase
  suiteNodes :: "Node list"
  cleanupNodes :: "Node list"
  writer :: "string option"
  config :: SuiteConfig
  deadline :: Time
  skipAll :: bool
  report :: Report
  currentSpecReport :: SpecReport
  currentNode :: Node
  currentNodeStartTime :: Time
  currentSpecContext :: "specContext option"
  progressStepCursor :: string
  trace :: "effect list"

text \<open>\<^verbatim>\<open>NewSuite\<close>.\<close>

definition NewSuite :: Suite where
  "NewSuite =
     \<lparr>phase = PhaseBuildTopLevel, suiteNodes = [], cleanupNodes = [], writer = None,
      config = SuiteConfig_zero, deadline = 0, skipAll = False, report = Report_zero,
      currentSpecReport = SpecReport_zero, currentNode = Node_zero, currentNodeStartTime = 0,
      currentSpecContext = None, progressStepCursor = [], trace = []\<rparr>"

subsection \<open>The environment\<close>

text \<open>
  What the worker of a body and the timers make the \<^verbatim>\<open>select\<close> of \<^verbatim>\<open>runNode\<close> see:
  the outcome and the failure that the worker drains from the failer and sends on its two
  channels, the expiry of the grace period, the expiry of the deadline, a signal on the
  channel of the interrupt status (with the status that the handler answers next), and a
  tick of the progress poller.
\<close>

datatype event =
    Completion SpecState Failure
  | GracePeriodElapsed
  | DeadlineElapsed
  | InterruptReceived InterruptStatus
  | ProgressPollDue

datatype clock_site =
    Now_runSpecs_StartTime
  | Now_runSpecs_EndTime
  | Now_runSuiteNode_StartTime Node
  | Now_runSuiteNode_EndTime Node
  | Now_runReportAfterSuiteNode_StartTime Node
  | Now_runReportAfterSuiteNode_EndTime Node
  | Now_runNode_currentNodeStartTime Node
  | Now_runNode_now Node

text \<open>
  The answers of the collaborators and of the packages that are not among the sources:
  the node types of three masks of package \<^verbatim>\<open>types\<close>, the texts of node types and
  errors, the status of the interrupt handler where \<^verbatim>\<open>runNode\<close> and \<^verbatim>\<open>runSpecs\<close>
  ask for it, the clock at each call of \<^verbatim>\<open>time.Now\<close>, what the body of a node does
  (the cleanup nodes it registers, the events its run produces, the data that the first
  body of a synchronized before-suite node returns), the progress reporters of the
  context, the output that the interceptor returns (by the number of calls made so far),
  the answers of the parallel client (\<open>None\<close>: the call never returns), the ordering of
  the specs, and the spec reports that a group finishes.
\<close>

record env =
  NodeTypesAllowedDuringReportInterrupt :: "NodeType list"
  NodeTypesAllowedDuringCleanupInterrupt :: "NodeType list"
  NodeTypesForSuiteLevelNodes :: "NodeType list"
  NodeType_String :: "NodeType \<Rightarrow> string"
  error_Error :: "error \<Rightarrow> string"
  Status_runNode :: "Node \<Rightarrow> InterruptStatus"
  Status_runSpecs :: InterruptStatus
  Now :: "clock_site \<Rightarrow> Time"
  body_cleanups :: "Node \<Rightarrow> Node list"
  body_events :: "Node \<Rightarrow> event list"
  body_data :: "Node \<Rightarrow> bytes"
  QueryProgressReporters :: "Node \<Rightarrow> string list"
  StopInterceptingAndReturnOutput :: "nat \<Rightarrow> string"
  FetchNextCounter :: "(error + int) list"
  BlockUntilNonprimaryProcsHaveFinished :: "error option option"
  PostSynchronizedBeforeSuiteCompleted :: "SpecState \<Rightarrow> bytes \<Rightarrow> error option"
  BlockUntilSynchronizedBeforeSuiteData :: "(SpecState \<times> bytes \<times> error option) option"
  BlockUntilAggregatedNonprimaryProcsReport :: "(Report \<times> error option) option"
  OrderSpecs :: "Spec list \<Rightarrow> SuiteConfig \<Rightarrow> nat list list \<times> nat list list"
  HasAnySpecsMarkedPending :: "Spec list \<Rightarrow> bool"
  Report_Add :: "Report \<Rightarrow> Report \<Rightarrow> Report"
  group_reports :: "Suite \<Rightarrow> Spec list \<Rightarrow> SpecReport list option"

subsection \<open>Progress reports\<close>

definition isRunningInParallel :: "Suite \<Rightarrow> bool" where
  "isRunningInParallel s = (ParallelTotal (config s) > 1)"

text \<open>
  \<^verbatim>\<open>generateProgressReport\<close>. The call \<^verbatim>\<open>suite.writer.Bytes()\<close> is not guarded: with no
  writer installed the function panics. An error of \<^verbatim>\<open>NewProgressReport\<close> is printed
  and changes nothing.
\<close>

definition generateProgressReport :: "env \<Rightarrow> bool \<Rightarrow> Suite \<Rightarrow> ProgressReport option" where
  "generateProgressReport e fullReport s =
     (case writer s of
        None \<Rightarrow> None
      | Some written \<Rightarrow>
          Some \<lparr>ProgressReport.Message = [],
                RunningInParallel = isRunningInParallel s,
                CurrentNodeType = NodeType (currentNode s),
                CurrentNodeStartTime = currentNodeStartTime s,
                CurrentStepText = progressStepCursor s,
                CapturedGinkgoWriterOutput =
                  SpecReport.CapturedGinkgoWriterOutput (currentSpecReport s) @ written,
                AdditionalReports =
                  (case currentSpecContext s of
                     None \<Rightarrow> []
                   | Some sc \<Rightarrow> QueryProgressReporters e (currentNode s)),
                FullReport = fullReport\<rparr>)"

text \<open>\<^verbatim>\<open>emitProgressReport\<close>. An error of the client is printed and changes nothing.\<close>

definition emitProgressReport :: "ProgressReport \<Rightarrow> Suite \<Rightarrow> Suite" where
  "emitProgressReport pr s =
     s\<lparr>currentSpecReport := (currentSpecReport s)
          \<lparr>ProgressReports :=
             ProgressReports (currentSpecReport s) @ [WithoutCapturedGinkgoWriterOutput pr]\<rparr>,
       trace := trace s @ Reporter_EmitProgressReport pr
                  # (if isRunningInParallel s then [Client_PostEmitProgressReport pr] else [])\<rparr>"

subsection \<open>Registering cleanup nodes\<close>

text \<open>
  \<^verbatim>\<open>pushCleanupNode\<close>: the error is returned beside the suite, which is changed only
  when the node is accepted.
\<close>

definition pushCleanupNode :: "Node \<Rightarrow> Suite \<Rightarrow> error option \<times> Suite" where
  "pushCleanupNode node s =
     (if phase s \<noteq> PhaseRun \<or> Node_IsZero (currentNode s)
      then (Some (PushingCleanupNodeDuringTreeConstruction (CodeLocation node)), s)
      else
        let accept = (\<lambda>nt.
              (None, s\<lparr>cleanupNodes := cleanupNodes s @
                        [node\<lparr>NodeType := nt,
                              NodeIDWhereCleanupWasGenerated := ID (currentNode s),
                              NestingLevel := NestingLevel (currentNode s)\<rparr>]\<rparr>))
        in case NodeType (currentNode s) of
             NodeTypeBeforeSuite \<Rightarrow> accept NodeTypeCleanupAfterSuite
           | NodeTypeSynchronizedBeforeSuite \<Rightarrow> accept NodeTypeCleanupAfterSuite
           | NodeTypeAfterSuite \<Rightarrow> accept NodeTypeCleanupAfterSuite
           | NodeTypeSynchronizedAfterSuite \<Rightarrow> accept NodeTypeCleanupAfterSuite
           | NodeTypeBeforeAll \<Rightarrow> accept NodeTypeCleanupAfterAll
           | NodeTypeAfterAll \<Rightarrow> accept NodeTypeCleanupAfterAll
           | NodeTypeReportBeforeEach \<Rightarrow>
               (Some (PushingCleanupInReportingNode (CodeLocation node) (NodeType (currentNode s))), s)
           | NodeTypeReportAfterEach \<Rightarrow>
               (Some (PushingCleanupInReportingNode (CodeLocation node) (NodeType (currentNode s))), s)
           | NodeTypeReportAfterSuite \<Rightarrow>
               (Some (PushingCleanupInReportingNode (CodeLocation node) (NodeType (currentNode s))), s)
           | NodeTypeCleanupInvalid \<Rightarrow> (Some (PushingCleanupInCleanupNode (CodeLocation node)), s)
           | NodeTypeCleanupAfterEach \<Rightarrow> (Some (PushingCleanupInCleanupNode (CodeLocation node)), s)
           | NodeTypeCleanupAfterAll \<Rightarrow> (Some (PushingCleanupInCleanupNode (CodeLocation node)), s)
           | NodeTypeCleanupAfterSuite \<Rightarrow> (Some (PushingCleanupInCleanupNode (CodeLocation node)), s)
           | _ \<Rightarrow> accept NodeTypeCleanupAfterEach)"

subsection \<open>Running one node: \<^verbatim>\<open>runNode\<close>\<close>

text \<open>The texts that \<^verbatim>\<open>runNode\<close> writes into failures and progress reports.\<close>

definition message_lateFailure :: string where
  "message_lateFailure =
     ''This spec timed out and reported the following failure after the timeout:\<newline>\<newline>''"

definition message_leaked :: string where
  "message_leaked =
     ''{{bold}}{{orange}}A running node failed to exit in time{{/}}\<newline>Ginkgo is moving on but a node has timed out and failed to exit before its grace period elapsed.  The node has now leaked and is running in the background.\<newline>Here's a current progress report:''"

definition message_timeoutReport :: string where
  "message_timeoutReport =
     ''{{bold}}This is the Progress Report generated when the timeout occurred:{{/}}''"

definition message_interruptReport :: string where
  "message_interruptReport =
     ''{{bold}}This is the Progress Report generated when the interrupt was received:{{/}}''"

definition message_finalInterrupt :: "InterruptStatus \<Rightarrow> string" where
  "message_finalInterrupt st =
     ''{{bold}}{{orange}}'' @ InterruptStatus.Message st
     @ ''{{/}}\<newline>{{bold}}{{red}}Final interrupt received{{/}}; Ginkgo will not run any cleanup or reporting nodes and will terminate as soon as possible.\<newline>Here's a current progress report:''"

definition message_firstInterrupt :: "InterruptStatus \<Rightarrow> string" where
  "message_firstInterrupt st =
     ''{{bold}}{{orange}}'' @ InterruptStatus.Message st
     @ ''{{/}}\<newline>First interrupt received; Ginkgo will run any cleanup and reporting nodes but will skip all remaining specs.  {{bold}}Interrupt again to skip cleanup{{/}}.\<newline>Here's a current progress report:''"

definition message_secondInterrupt :: "InterruptStatus \<Rightarrow> string" where
  "message_secondInterrupt st =
     ''{{bold}}{{orange}}'' @ InterruptStatus.Message st
     @ ''{{/}}\<newline>Second interrupt received; Ginkgo will run any reporting nodes but will skip all remaining specs and cleanup nodes.  {{bold}}Interrupt again to bail immediately{{/}}.\<newline>Here's a current progress report:''"

definition message_polling :: string where
  "message_polling = ''{{bold}}Automatically polling progress:{{/}}''"

text \<open>
  The failure that \<^verbatim>\<open>runNode\<close> prepares before the body starts: it names the node, and
  says whether the node is a leaf, at the top level, or in a container.
\<close>

definition runNode_failure :: "env \<Rightarrow> Node \<Rightarrow> Failure" where
  "runNode_failure e node =
     (let failure = Failure_zero
            \<lparr>FailureNodeType := NodeType node, FailureNodeLocation := CodeLocation node\<rparr>
      in if NodeType_Is (NodeType node) [NodeTypeIt]
            \<or> NodeType_Is (NodeType node) (NodeTypesForSuiteLevelNodes e)
         then failure\<lparr>FailureNodeContext := FailureNodeIsLeafNode\<rparr>
         else if NestingLevel node \<le> 0
         then failure\<lparr>FailureNodeContext := FailureNodeAtTopLevel\<rparr>
         else failure\<lparr>FailureNodeContext := FailureNodeInContainer,
                      FailureNodeContainerIndex := NestingLevel node - 1\<rparr>)"

text \<open>The grace period before the deadline is computed: the node's own, or the suite's.\<close>

definition runNode_gracePeriod :: "SuiteConfig \<Rightarrow> Node \<Rightarrow> Duration" where
  "runNode_gracePeriod cfg node =
     (if GracePeriod node \<ge> 0 then GracePeriod node else SuiteConfig.GracePeriod cfg)"

text \<open>
  The deadline of the node, from the deadline of the suite, the deadline of the spec, the
  time now, the timeout of the node, the grace period and whether the run is interrupted
  already. Each \<open>let\<close> is one assignment to the variable \<^verbatim>\<open>deadline\<close> of the source.
\<close>

definition runNode_deadline ::
  "Time \<Rightarrow> Time \<Rightarrow> Time \<Rightarrow> Duration \<Rightarrow> Duration \<Rightarrow> bool \<Rightarrow> Time" where
  "runNode_deadline suiteDeadline specDeadline now nodeTimeout gracePeriod interrupted =
     (let d = suiteDeadline;
          d = (if Time_IsZero d \<or> (\<not> Time_IsZero specDeadline \<and> Time_Before specDeadline d)
               then specDeadline else d);
          d = (if nodeTimeout > 0 \<and> (Time_IsZero d \<or> Time_Sub d now > nodeTimeout)
               then Time_Add now nodeTimeout else d);
          d = (if (\<not> Time_IsZero d \<and> Time_Before d now) \<or> interrupted
               then (if nodeTimeout > 0 then Time_Add now nodeTimeout
                     else Time_Add now gracePeriod)
               else d)
      in d)"

text \<open>
  The grace period that the waiting loop uses: a node without a context gets none.
\<close>

definition runNode_waitGracePeriod :: "SuiteConfig \<Rightarrow> Node \<Rightarrow> Duration" where
  "runNode_waitGracePeriod cfg node =
     (if \<not> HasContext node then 0 else runNode_gracePeriod cfg node)"

text \<open>
  The variables of \<^verbatim>\<open>runNode\<close> that the waiting loop reads and writes. A channel that
  is \<^verbatim>\<open>nil\<close> is \<open>None\<close>; a channel of a timer holds the duration the timer was started
  with.
\<close>

record loop_vars =
  outcome :: SpecState
  failure :: Failure
  interruptStatus :: InterruptStatus
  deadlineChannel :: "Duration option"
  gracePeriodChannel :: "Duration option"
  emitProgressNow :: "Duration option"

datatype select_result =
    Return SpecState Failure Suite
  | Continue loop_vars Suite
  | Panic

definition sc_cancel :: "Suite \<Rightarrow> Suite" where
  "sc_cancel s =
     (case currentSpecContext s of
        None \<Rightarrow> s
      | Some sc \<Rightarrow> s\<lparr>currentSpecContext := Some (sc\<lparr>cancelled := True\<rparr>)\<rparr>)"

text \<open>The case of the \<^verbatim>\<open>select\<close> that receives the outcome of the body.\<close>

definition select_outcomeC :: "loop_vars \<Rightarrow> SpecState \<Rightarrow> Failure \<Rightarrow> SpecState \<times> Failure" where
  "select_outcomeC v outcomeFromRun failureFromRun =
     (if outcome v = SpecStateInterrupted then (outcome v, failure v)
      else if outcome v = SpecStateTimedout then
        (if outcomeFromRun \<noteq> SpecStatePassed
         then (outcome v,
               (failure v)\<lparr>Failure.Location := Failure.Location failureFromRun,
                           ForwardedPanic := ForwardedPanic failureFromRun,
                           Failure.Message :=
                             message_lateFailure
                             @ Failure.Message failureFromRun\<rparr>)
         else (outcome v, failure v))
      else if SpecState_Is outcomeFromRun [SpecStatePassed] then (outcomeFromRun, Failure_zero)
      else (outcomeFromRun,
            (failure v)\<lparr>Failure.Message := Failure.Message failureFromRun,
                        Failure.Location := Failure.Location failureFromRun,
                        ForwardedPanic := ForwardedPanic failureFromRun\<rparr>))"

text \<open>The case of the \<^verbatim>\<open>select\<close> that fires when the grace period is over.\<close>

definition select_gracePeriodChannel :: "env \<Rightarrow> Node \<Rightarrow> loop_vars \<Rightarrow> Suite \<Rightarrow> select_result" where
  "select_gracePeriodChannel e node v s =
     (if HasContext node \<and> SpecState_Is (outcome v) [SpecStateTimedout] then
        (case generateProgressReport e False s of
           None \<Rightarrow> Panic
         | Some pr \<Rightarrow>
             Return (outcome v) (failure v)
               (emitProgressReport
                  (pr\<lparr>ProgressReport.Message :=
                    message_leaked\<rparr>)
                  s))
      else Return (outcome v) (failure v) s)"

text \<open>The case of the \<^verbatim>\<open>select\<close> that fires at the deadline.\<close>

definition select_deadlineChannel ::
  "env \<Rightarrow> Node \<Rightarrow> Duration \<Rightarrow> loop_vars \<Rightarrow> Suite \<Rightarrow> select_result" where
  "select_deadlineChannel e node gracePeriod v s =
     (case generateProgressReport e False s of
        None \<Rightarrow> Panic
      | Some pr \<Rightarrow>
          Continue
            (v\<lparr>outcome := SpecStateTimedout,
               failure := (failure v)
                 \<lparr>Failure.Message := ''Timedout'',
                  Failure.Location := CodeLocation node,
                  ProgressReport := (WithoutCapturedGinkgoWriterOutput pr)
                    \<lparr>ProgressReport.Message :=
                       message_timeoutReport\<rparr>\<rparr>,
               deadlineChannel := None,
               gracePeriodChannel := Some gracePeriod\<rparr>)
            ((sc_cancel s)\<lparr>trace := trace s @ [GracePeriod_After gracePeriod]\<rparr>))"

text \<open>
  The case of the \<^verbatim>\<open>select\<close> that fires on an interrupt; \<open>st\<close> is the status that the
  handler answers now.
\<close>

definition select_interruptChannel ::
  "env \<Rightarrow> Node \<Rightarrow> Duration \<Rightarrow> InterruptStatus \<Rightarrow> loop_vars \<Rightarrow> Suite \<Rightarrow> select_result" where
  "select_interruptChannel e node gracePeriod st v s =
     (let v1 = v\<lparr>interruptStatus := st, deadlineChannel := None\<rparr> in
      case (if outcome v1 = SpecStateInvalid then
              (let fl = (failure v1)\<lparr>Failure.Message := InterruptStatus.Message st,
                                     Failure.Location := CodeLocation node\<rparr>
               in if ShouldIncludeProgressReport st then
                    (case generateProgressReport e True s of
                       None \<Rightarrow> None
                     | Some pr \<Rightarrow>
                         Some (v1\<lparr>outcome := SpecStateInterrupted,
                                  failure := fl\<lparr>ProgressReport :=
                                    (WithoutCapturedGinkgoWriterOutput pr)
                                      \<lparr>ProgressReport.Message :=
                                         message_interruptReport\<rparr>\<rparr>\<rparr>))
                  else Some (v1\<lparr>outcome := SpecStateInterrupted, failure := fl\<rparr>))
            else Some v1) of
        None \<Rightarrow> Panic
      | Some v2 \<Rightarrow>
         (case (if ShouldIncludeProgressReport st then generateProgressReport e False s
                else Some ProgressReport_zero) of
            None \<Rightarrow> Panic
          | Some pr \<Rightarrow>
             (let s1 = sc_cancel s in
              if Level st = InterruptLevelBailOut then
                Return (outcome v2) (failure v2)
                  (if ShouldIncludeProgressReport st then
                     emitProgressReport
                       (pr\<lparr>ProgressReport.Message :=
                          message_finalInterrupt st\<rparr>)
                       s1
                   else s1)
              else
                (let s2 =
                   (if ShouldIncludeProgressReport st then
                      emitProgressReport
                        (if Level st = InterruptLevelCleanupAndReport then
                           pr\<lparr>ProgressReport.Message :=
                             message_firstInterrupt st\<rparr>
                         else if Level st = InterruptLevelReportOnly then
                           pr\<lparr>ProgressReport.Message :=
                             message_secondInterrupt st\<rparr>
                         else pr)
                        s1
                    else s1)
                 in case gracePeriodChannel v2 of
                      None \<Rightarrow>
                        Continue (v2\<lparr>gracePeriodChannel := Some gracePeriod\<rparr>)
                          (s2\<lparr>trace := trace s2 @ [GracePeriod_After gracePeriod]\<rparr>)
                    | Some d \<Rightarrow> Return (outcome v2) (failure v2) s2))))"

text \<open>The case of the \<^verbatim>\<open>select\<close> that fires on a tick of the progress poller.\<close>

definition select_emitProgressNow ::
  "env \<Rightarrow> Duration \<Rightarrow> loop_vars \<Rightarrow> Suite \<Rightarrow> select_result" where
  "select_emitProgressNow e pollProgressInterval v s =
     (case generateProgressReport e False s of
        None \<Rightarrow> Panic
      | Some pr \<Rightarrow>
          (let s1 = emitProgressReport
                      (pr\<lparr>ProgressReport.Message := message_polling\<rparr>) s
           in if pollProgressInterval > 0
              then Continue v (s1\<lparr>trace := trace s1 @ [ProgressPoller_Reset pollProgressInterval]\<rparr>)
              else Continue v s1))"

text \<open>
  One round of the \<^verbatim>\<open>select\<close>. A case whose channel is \<^verbatim>\<open>nil\<close> is never chosen: an
  event for it leaves the loop waiting as it was.
\<close>

definition runNode_select ::
  "env \<Rightarrow> Node \<Rightarrow> Duration \<Rightarrow> Duration \<Rightarrow> event \<Rightarrow> loop_vars \<Rightarrow> Suite \<Rightarrow> select_result" where
  "runNode_select e node gracePeriod pollProgressInterval ev v s =
     (case ev of
        Completion outcomeFromRun failureFromRun \<Rightarrow>
          Return (fst (select_outcomeC v outcomeFromRun failureFromRun))
                 (snd (select_outcomeC v outcomeFromRun failureFromRun)) s
      | GracePeriodElapsed \<Rightarrow>
          (case gracePeriodChannel v of
             None \<Rightarrow> Continue v s
           | Some d \<Rightarrow> select_gracePeriodChannel e node v s)
      | DeadlineElapsed \<Rightarrow>
          (case deadlineChannel v of
             None \<Rightarrow> Continue v s
           | Some d \<Rightarrow> select_deadlineChannel e node gracePeriod v s)
      | InterruptReceived st \<Rightarrow> select_interruptChannel e node gracePeriod st v s
      | ProgressPollDue \<Rightarrow>
          (case emitProgressNow v of
             None \<Rightarrow> Continue v s
           | Some d \<Rightarrow> select_emitProgressNow e pollProgressInterval v s))"

text \<open>
  The loop \<^verbatim>\<open>for { select { ... } }\<close> over the events that arrive. When no event is left
  the loop is still waiting, and the result is \<open>Continue\<close>.
\<close>

fun runNode_wait ::
  "env \<Rightarrow> Node \<Rightarrow> Duration \<Rightarrow> Duration \<Rightarrow> event list \<Rightarrow> loop_vars \<Rightarrow> Suite \<Rightarrow> select_result" where
  "runNode_wait e node gracePeriod pollProgressInterval [] v s = Continue v s"
| "runNode_wait e node gracePeriod pollProgressInterval (ev # evs) v s =
     (case runNode_select e node gracePeriod pollProgressInterval ev v s of
        Continue v' s' \<Rightarrow> runNode_wait e node gracePeriod pollProgressInterval evs v' s'
      | Return oc fl s' \<Rightarrow> Return oc fl s'
      | Panic \<Rightarrow> Panic)"

text \<open>
  The first statement of \<^verbatim>\<open>runNode\<close>: a cleanup node leaves the list of pending cleanup
  nodes.
\<close>

definition runNode_removeCleanup :: "Node \<Rightarrow> Suite \<Rightarrow> Suite" where
  "runNode_removeCleanup node s =
     (if NodeType_Is (NodeType node)
           [NodeTypeCleanupAfterEach, NodeTypeCleanupAfterAll, NodeTypeCleanupAfterSuite]
      then s\<lparr>cleanupNodes := WithoutNode (cleanupNodes s) node\<rparr>
      else s)"

text \<open>Whether the interrupt level at the head of \<^verbatim>\<open>runNode\<close> forbids the node.\<close>

definition runNode_skipped :: "env \<Rightarrow> InterruptStatus \<Rightarrow> Node \<Rightarrow> bool" where
  "runNode_skipped e st node =
     (if Level st = InterruptLevelBailOut then True
      else if Level st = InterruptLevelReportOnly
              \<and> \<not> NodeType_Is (NodeType node) (NodeTypesAllowedDuringReportInterrupt e) then True
      else if Level st = InterruptLevelCleanupAndReport
              \<and> \<not> NodeType_Is (NodeType node)
                    (NodeTypesAllowedDuringReportInterrupt e
                     @ NodeTypesAllowedDuringCleanupInterrupt e) then True
      else False)"

text \<open>
  The worker that \<^verbatim>\<open>runNode\<close> starts for the body. While it runs the body may register
  cleanup nodes; the errors of these registrations go to the code of the body.
\<close>

definition go_body :: "env \<Rightarrow> Node \<Rightarrow> Suite \<Rightarrow> Suite" where
  "go_body e node s =
     foldl (\<lambda>s' n. snd (pushCleanupNode n s'))
       (s\<lparr>trace := trace s @ [Go_Body node]\<rparr>) (body_cleanups e node)"

text \<open>
  The entry of \<^verbatim>\<open>runNode\<close> after the interrupt level has let the node pass: the
  cursors are set and, when the suite emits the progress of specs, a line goes to the
  writer (a Go panic when no writer is installed).
\<close>

definition runNode_enter :: "env \<Rightarrow> Node \<Rightarrow> string \<Rightarrow> Suite \<Rightarrow> Suite option" where
  "runNode_enter e node text s0 =
     (let s = s0\<lparr>currentNode := node,
                  currentNodeStartTime := Now e (Now_runNode_currentNodeStartTime node),
                  progressStepCursor := []\<rparr>
      in if EmitSpecProgress (config s) \<and> \<not> MarkedSuppressProgressReporting node
         then (case writer s of
                 None \<Rightarrow> None
               | Some written \<Rightarrow>
                   Some (s\<lparr>writer := Some (written
                            @ ''['' @ NodeType_String e (NodeType node) @ ''] ''
                            @ (if text = [] then ''TOP-LEVEL'' else text)
                            @ ''\<newline>  '' @ CodeLocation node @ ''\<newline>'')\<rparr>))
         else Some s)"

definition runNode_pollProgressAfter :: "SuiteConfig \<Rightarrow> Node \<Rightarrow> Duration" where
  "runNode_pollProgressAfter cfg node =
     (if PollProgressAfter node \<ge> 0 then PollProgressAfter node
      else SuiteConfig.PollProgressAfter cfg)"

definition runNode_pollProgressInterval :: "SuiteConfig \<Rightarrow> Node \<Rightarrow> Duration" where
  "runNode_pollProgressInterval cfg node =
     (if PollProgressInterval node \<ge> 0 then PollProgressInterval node
      else SuiteConfig.PollProgressInterval cfg)"

text \<open>
  From the failure that \<^verbatim>\<open>runNode\<close> prepares to the start of the progress poller: the
  deadline, the context, the timer of the deadline, the worker of the body. The result is
  the variables with which the waiting loop starts, and the suite.
\<close>

definition runNode_start ::
  "env \<Rightarrow> Node \<Rightarrow> Time \<Rightarrow> InterruptStatus \<Rightarrow> Suite \<Rightarrow> loop_vars \<times> Suite" where
  "runNode_start e node specDeadline st s0 =
     (let now = Now e (Now_runNode_now node);
          dl = runNode_deadline (deadline s0) specDeadline now (NodeTimeout node)
                 (runNode_gracePeriod (config s0) node) (Interrupted st);
          s = s0\<lparr>currentSpecContext := Some \<lparr>cancelled = False\<rparr>\<rparr>;
          s = (if \<not> Time_IsZero dl
               then s\<lparr>trace := trace s @ [Deadline_After (Time_Sub dl now)]\<rparr> else s);
          s = go_body e node s;
          pollProgressAfter = runNode_pollProgressAfter (config s0) node;
          s = (if pollProgressAfter > 0
               then s\<lparr>trace := trace s @ [ProgressPoller_NewTimer pollProgressAfter]\<rparr>
               else s)
      in (\<lparr>outcome = SpecStateInvalid,
           failure = runNode_failure e node,
           interruptStatus = st,
           deadlineChannel = (if \<not> Time_IsZero dl then Some (Time_Sub dl now) else None),
           gracePeriodChannel = None,
           emitProgressNow = (if pollProgressAfter > 0 then Some pollProgressAfter else None)\<rparr>,
          s))"

text \<open>
  The deferred calls of \<^verbatim>\<open>runNode\<close>, in the order in which they run: the poller is
  stopped, the context is cancelled, the cursors are cleared.
\<close>

definition runNode_exit :: "Node \<Rightarrow> Suite \<Rightarrow> Suite" where
  "runNode_exit node s0 =
     (let s = (if runNode_pollProgressAfter (config s0) node > 0
               then s0\<lparr>trace := trace s0 @ [ProgressPoller_Stop]\<rparr> else s0);
          s = sc_cancel s
      in s\<lparr>currentNode := Node_zero, currentNodeStartTime := 0\<rparr>)"

text \<open>
  \<^verbatim>\<open>runNode\<close>. The result is \<open>None\<close> when the \<^verbatim>\<open>select\<close> waits for ever or a call
  panics.
\<close>

definition runNode ::
  "env \<Rightarrow> Node \<Rightarrow> Time \<Rightarrow> string \<Rightarrow> Suite \<Rightarrow> ((SpecState \<times> Failure) \<times> Suite) option" where
  "runNode e node specDeadline text s0 =
     (let s = runNode_removeCleanup node s0;
          st = Status_runNode e node
      in if runNode_skipped e st node then Some ((SpecStateSkipped, Failure_zero), s)
         else
           case runNode_enter e node text s of
             None \<Rightarrow> None
           | Some s \<Rightarrow>
              (case runNode_wait e node
                      (runNode_waitGracePeriod (config s) node)
                      (runNode_pollProgressInterval (config s) node)
                      (body_events e node)
                      (fst (runNode_start e node specDeadline st s))
                      (snd (runNode_start e node specDeadline st s)) of
                 Return oc fl s \<Rightarrow> Some ((oc, fl), runNode_exit node s)
               | Continue v' s' \<Rightarrow> None
               | Panic \<Rightarrow> None))"

subsection \<open>Finishing a spec report\<close>

text \<open>\<^verbatim>\<open>processCurrentSpecReport\<close>.\<close>

definition processCurrentSpecReport :: "Suite \<Rightarrow> Suite" where
  "processCurrentSpecReport s0 =
     (let s = s0\<lparr>trace := trace s0 @ Reporter_DidRun (currentSpecReport s0)
                    # (if isRunningInParallel s0 then [Client_PostDidRun (currentSpecReport s0)]
                       else [])\<rparr>;
          s = s\<lparr>report := (report s)
                 \<lparr>SpecReports := SpecReports (report s) @ [currentSpecReport s]\<rparr>\<rparr>
      in if SpecState_Is (State (currentSpecReport s)) SpecStateFailureStates then
           (let s = s\<lparr>report := (report s)\<lparr>SuiteSucceeded := False\<rparr>\<rparr>
            in if FailFast (config s) \<or> SpecState_Is (State (currentSpecReport s)) [SpecStateAborted]
               then (let s = s\<lparr>skipAll := True\<rparr>
                     in if isRunningInParallel s then s\<lparr>trace := trace s @ [Client_PostAbort]\<rparr>
                        else s)
               else s)
         else s)"

subsection \<open>Suite nodes\<close>

definition failureForLeafNodeWithMessage :: "Node \<Rightarrow> string \<Rightarrow> Failure" where
  "failureForLeafNodeWithMessage node message =
     Failure_zero\<lparr>Failure.Message := message,
                  Failure.Location := CodeLocation node,
                  FailureNodeContext := FailureNodeIsLeafNode,
                  FailureNodeType := NodeType node,
                  FailureNodeLocation := CodeLocation node\<rparr>"

text \<open>
  The assignment \<^verbatim>\<open>suite.currentSpecReport.State, suite.currentSpecReport.Failure = ...\<close>
  and the calls to the output interceptor and the writer.
\<close>

definition setStateAndFailure :: "SpecState \<times> Failure \<Rightarrow> Suite \<Rightarrow> Suite" where
  "setStateAndFailure r s =
     s\<lparr>currentSpecReport := (currentSpecReport s)\<lparr>State := fst r, Failure := snd r\<rparr>\<rparr>"

definition interceptor_Stop :: "env \<Rightarrow> Suite \<Rightarrow> string \<times> Suite" where
  "interceptor_Stop e s =
     (StopInterceptingAndReturnOutput e (length (trace s)),
      s\<lparr>trace := trace s @ [Interceptor_StopInterceptingAndReturnOutput]\<rparr>)"

definition interceptor_Start :: "Suite \<Rightarrow> Suite" where
  "interceptor_Start s = s\<lparr>trace := trace s @ [Interceptor_StartInterceptingOutput]\<rparr>"

definition interceptor_StartAndForward :: "Suite \<Rightarrow> Suite" where
  "interceptor_StartAndForward s =
     s\<lparr>trace := trace s @ [Interceptor_StartInterceptingOutputAndForwardTo]\<rparr>"

definition appendCapturedStdOutErr :: "string \<times> Suite \<Rightarrow> Suite" where
  "appendCapturedStdOutErr r =
     (snd r)\<lparr>currentSpecReport := (currentSpecReport (snd r))
        \<lparr>CapturedStdOutErr := CapturedStdOutErr (currentSpecReport (snd r)) @ fst r\<rparr>\<rparr>"

definition writer_Truncate :: "Suite \<Rightarrow> Suite option" where
  "writer_Truncate s = (case writer s of None \<Rightarrow> None | Some written \<Rightarrow> Some (s\<lparr>writer := Some []\<rparr>))"

text \<open>
  \<^verbatim>\<open>runNode\<close> followed by the assignment of its two results to the current spec report,
  as \<^verbatim>\<open>runSuiteNode\<close> does it in most of its cases.
\<close>

definition runNode_record :: "env \<Rightarrow> Node \<Rightarrow> Suite \<Rightarrow> Suite option" where
  "runNode_record e node s =
     (case runNode e node 0 [] s of
        None \<Rightarrow> None
      | Some (r, s') \<Rightarrow> Some (setStateAndFailure r s'))"

text \<open>
  The call \<^verbatim>\<open>client.BlockUntilNonprimaryProcsHaveFinished()\<close>: the error it returns and
  the suite with the call in its trace, or \<open>None\<close> when the call never returns.
\<close>

definition client_BlockUntilNonprimaryProcsHaveFinished ::
  "env \<Rightarrow> Suite \<Rightarrow> (error option \<times> Suite) option" where
  "client_BlockUntilNonprimaryProcsHaveFinished e s =
     (case BlockUntilNonprimaryProcsHaveFinished e of
        None \<Rightarrow> None
      | Some err \<Rightarrow>
          Some (err, s\<lparr>trace := trace s @ [Client_BlockUntilNonprimaryProcsHaveFinished]\<rparr>))"

text \<open>
  The cases of the \<^verbatim>\<open>switch\<close> of \<^verbatim>\<open>runSuiteNode\<close>. Each returns the variable \<^verbatim>\<open>err\<close>
  and the suite.
\<close>

definition runSuiteNode_CleanupAfterSuite ::
  "env \<Rightarrow> Node \<Rightarrow> Suite \<Rightarrow> (error option \<times> Suite) option" where
  "runSuiteNode_CleanupAfterSuite e node s =
     (case (if ParallelTotal (config s) > 1 \<and> SuiteConfig.ParallelProcess (config s) = 1
            then client_BlockUntilNonprimaryProcsHaveFinished e s
            else Some (None, s)) of
        None \<Rightarrow> None
      | Some (None, s1) \<Rightarrow> map_option (Pair None) (runNode_record e node s1)
      | Some (Some err, s1) \<Rightarrow> Some (Some err, s1))"

text \<open>
  The first half of the case of a synchronized before-suite node, on process 1 and on the
  other processes: the result is \<^verbatim>\<open>data\<close>, \<^verbatim>\<open>runAllProcs\<close>, \<^verbatim>\<open>err\<close> and the suite.
\<close>

definition runSuiteNode_SynchronizedBeforeSuite_proc1 ::
  "env \<Rightarrow> Node \<Rightarrow> Suite \<Rightarrow> (bytes \<times> bool \<times> error option \<times> Suite) option" where
  "runSuiteNode_SynchronizedBeforeSuite_proc1 e node s =
     (let s = (if ParallelTotal (config s) > 1
               then interceptor_StartAndForward (snd (interceptor_Stop e s)) else s);
          node1 = node\<lparr>Body := Body_SynchronizedBeforeSuiteProc1,
                       HasContext := SynchronizedBeforeSuiteProc1BodyHasContext node\<rparr>
      in case runNode_record e node1 s of
           None \<Rightarrow> None
         | Some s \<Rightarrow>
            (let passed = SpecState_Is (State (currentSpecReport s)) [SpecStatePassed];
                 data = (if passed then body_data e node1 else []) in
             if ParallelTotal (config s) > 1 then
               (let s = interceptor_Start (appendCapturedStdOutErr (interceptor_Stop e s));
                    posted = (if passed then (SpecStatePassed, data)
                              else (State (currentSpecReport s), []));
                    err = PostSynchronizedBeforeSuiteCompleted e (fst posted) (snd posted);
                    s = s\<lparr>trace := trace s @
                           [Client_PostSynchronizedBeforeSuiteCompleted (fst posted) (snd posted)]\<rparr>
                in Some (data, passed \<and> err = None, err, s))
             else Some (data, passed, None, s)))"

definition runSuiteNode_SynchronizedBeforeSuite_otherProcs ::
  "env \<Rightarrow> Suite \<Rightarrow> (bytes \<times> bool \<times> error option \<times> Suite) option" where
  "runSuiteNode_SynchronizedBeforeSuite_otherProcs e s =
     (case BlockUntilSynchronizedBeforeSuiteData e of
        None \<Rightarrow> None
      | Some (proc1State, data, err) \<Rightarrow>
         (let s = s\<lparr>trace := trace s @ [Client_BlockUntilSynchronizedBeforeSuiteData]\<rparr> in
          case proc1State of
            SpecStatePassed \<Rightarrow> Some (data, True, err, s)
          | SpecStateFailed \<Rightarrow> Some (data, False, Some SynchronizedBeforeSuiteFailedOnProc1, s)
          | SpecStatePanicked \<Rightarrow> Some (data, False, Some SynchronizedBeforeSuiteFailedOnProc1, s)
          | SpecStateTimedout \<Rightarrow> Some (data, False, Some SynchronizedBeforeSuiteFailedOnProc1, s)
          | SpecStateInterrupted \<Rightarrow>
              Some (data, False, err,
                    s\<lparr>currentSpecReport := (currentSpecReport s)\<lparr>State := proc1State\<rparr>\<rparr>)
          | SpecStateAborted \<Rightarrow>
              Some (data, False, err,
                    s\<lparr>currentSpecReport := (currentSpecReport s)\<lparr>State := proc1State\<rparr>\<rparr>)
          | SpecStateSkipped \<Rightarrow>
              Some (data, False, err,
                    s\<lparr>currentSpecReport := (currentSpecReport s)\<lparr>State := proc1State\<rparr>\<rparr>)
          | _ \<Rightarrow> Some (data, False, err, s)))"

definition runSuiteNode_SynchronizedBeforeSuite ::
  "env \<Rightarrow> Node \<Rightarrow> Suite \<Rightarrow> (error option \<times> Suite) option" where
  "runSuiteNode_SynchronizedBeforeSuite e node s =
     (case (if SuiteConfig.ParallelProcess (config s) = 1
            then runSuiteNode_SynchronizedBeforeSuite_proc1 e node s
            else runSuiteNode_SynchronizedBeforeSuite_otherProcs e s) of
        None \<Rightarrow> None
      | Some (data, runAllProcs, err, s) \<Rightarrow>
          if runAllProcs then
            map_option (Pair err)
              (runNode_record e
                 (node\<lparr>Body := Body_SynchronizedBeforeSuiteAllProcs data,
                       HasContext := SynchronizedBeforeSuiteAllProcsBodyHasContext node\<rparr>) s)
          else Some (err, s))"

definition runSuiteNode_SynchronizedAfterSuite ::
  "env \<Rightarrow> Node \<Rightarrow> Suite \<Rightarrow> (error option \<times> Suite) option" where
  "runSuiteNode_SynchronizedAfterSuite e node s =
     (let node1 = node\<lparr>Body := Body_SynchronizedAfterSuiteAllProcs,
                       HasContext := SynchronizedAfterSuiteAllProcsBodyHasContext node\<rparr>
      in case runNode_record e node1 s of
           None \<Rightarrow> None
         | Some s \<Rightarrow>
            if SuiteConfig.ParallelProcess (config s) = 1 then
              (case (if ParallelTotal (config s) > 1
                     then client_BlockUntilNonprimaryProcsHaveFinished e s
                     else Some (None, s)) of
                 None \<Rightarrow> None
               | Some (Some err, s) \<Rightarrow> Some (Some err, s)
               | Some (None, s) \<Rightarrow>
                  (let s = (if ParallelTotal (config s) > 1
                            then interceptor_StartAndForward
                                   (appendCapturedStdOutErr (interceptor_Stop e s))
                            else s);
                       node2 = node1\<lparr>Body := Body_SynchronizedAfterSuiteProc1,
                                     HasContext := SynchronizedAfterSuiteProc1BodyHasContext node\<rparr>
                   in case runNode e node2 0 [] s of
                        None \<Rightarrow> None
                      | Some (r, s) \<Rightarrow>
                          if SpecState_Is (State (currentSpecReport s)) [SpecStatePassed]
                          then Some (None, setStateAndFailure r s)
                          else Some (None, s)))
            else Some (None, s))"

text \<open>
  \<^verbatim>\<open>runSuiteNode\<close> in four parts: what it does before the \<^verbatim>\<open>switch\<close> (a Go panic
  when no writer is installed), the \<^verbatim>\<open>switch\<close> on the type of the node, what it does
  after the \<^verbatim>\<open>switch\<close> with the variable \<^verbatim>\<open>err\<close>, and the function itself.
\<close>

definition runSuiteNode_begin :: "env \<Rightarrow> Node \<Rightarrow> Suite \<Rightarrow> Suite option" where
  "runSuiteNode_begin e node s0 =
     (case writer_Truncate s0 of
        None \<Rightarrow> None
      | Some s \<Rightarrow>
          (let s = interceptor_Start s
           in Some (s\<lparr>currentSpecReport := (currentSpecReport s)
                       \<lparr>SpecReport.StartTime := Now e (Now_runSuiteNode_StartTime node)\<rparr>\<rparr>)))"

definition runSuiteNode_switch ::
  "env \<Rightarrow> Node \<Rightarrow> Suite \<Rightarrow> (error option \<times> Suite) option" where
  "runSuiteNode_switch e node s =
     (case NodeType node of
        NodeTypeBeforeSuite \<Rightarrow> map_option (Pair None) (runNode_record e node s)
      | NodeTypeAfterSuite \<Rightarrow> map_option (Pair None) (runNode_record e node s)
      | NodeTypeCleanupAfterSuite \<Rightarrow> runSuiteNode_CleanupAfterSuite e node s
      | NodeTypeSynchronizedBeforeSuite \<Rightarrow> runSuiteNode_SynchronizedBeforeSuite e node s
      | NodeTypeSynchronizedAfterSuite \<Rightarrow> runSuiteNode_SynchronizedAfterSuite e node s
      | _ \<Rightarrow> Some (None, s))"

definition runSuiteNode_finish :: "env \<Rightarrow> Node \<Rightarrow> error option \<Rightarrow> Suite \<Rightarrow> Suite option" where
  "runSuiteNode_finish e node err s0 =
     (let s = (case err of
                 None \<Rightarrow> s0
               | Some er \<Rightarrow>
                   if \<not> SpecState_Is (State (currentSpecReport s0)) SpecStateFailureStates
                   then setStateAndFailure
                          (SpecStateFailed,
                           failureForLeafNodeWithMessage node (error_Error e er)) s0
                   else s0);
          endTime = Now e (Now_runSuiteNode_EndTime node)
      in case writer s of
           None \<Rightarrow> None
         | Some written \<Rightarrow>
             Some (appendCapturedStdOutErr
                     (interceptor_Stop e
                        (s\<lparr>currentSpecReport := (currentSpecReport s)
                             \<lparr>SpecReport.EndTime := endTime,
                              SpecReport.RunTime :=
                                Time_Sub endTime (SpecReport.StartTime (currentSpecReport s)),
                              SpecReport.CapturedGinkgoWriterOutput := written\<rparr>\<rparr>))))"

definition runSuiteNode :: "env \<Rightarrow> Node \<Rightarrow> Suite \<Rightarrow> Suite option" where
  "runSuiteNode e node s =
     (if DryRun (config s) then
        Some (s\<lparr>currentSpecReport := (currentSpecReport s)\<lparr>State := SpecStatePassed\<rparr>\<rparr>)
      else
        case runSuiteNode_begin e node s of
          None \<Rightarrow> None
        | Some s1 \<Rightarrow>
           (case runSuiteNode_switch e node s1 of
              None \<Rightarrow> None
            | Some (err, s2) \<Rightarrow> runSuiteNode_finish e node err s2))"

text \<open>
  The spec report that \<^verbatim>\<open>runBeforeSuite\<close>, \<^verbatim>\<open>runAfterSuiteCleanup\<close> and
  \<^verbatim>\<open>runReportAfterSuite\<close> make current before they run a suite node, and the call
  \<^verbatim>\<open>reporter.WillRun\<close> that follows.
\<close>

definition willRunSuiteNode :: "Node \<Rightarrow> string \<Rightarrow> Suite \<Rightarrow> Suite" where
  "willRunSuiteNode node text s =
     (let s = s\<lparr>currentSpecReport := SpecReport_zero
                   \<lparr>LeafNodeType := NodeType node,
                    LeafNodeLocation := CodeLocation node,
                    LeafNodeText := text,
                    SpecReport.ParallelProcess := SuiteConfig.ParallelProcess (config s)\<rparr>\<rparr>
      in s\<lparr>trace := trace s @ [Reporter_WillRun (currentSpecReport s)]\<rparr>)"

text \<open>\<^verbatim>\<open>runBeforeSuite\<close>.\<close>

definition runBeforeSuite :: "env \<Rightarrow> nat \<Rightarrow> Suite \<Rightarrow> Suite option" where
  "runBeforeSuite e numSpecsThatWillBeRun s =
     (let beforeSuiteNode = FirstNodeWithType (suiteNodes s)
            [NodeTypeBeforeSuite, NodeTypeSynchronizedBeforeSuite]
      in if \<not> Node_IsZero beforeSuiteNode \<and> numSpecsThatWillBeRun > 0 then
           (case runSuiteNode e beforeSuiteNode (willRunSuiteNode beforeSuiteNode [] s) of
              None \<Rightarrow> None
            | Some s \<Rightarrow>
                Some (processCurrentSpecReport
                  (if SpecState_Is (State (currentSpecReport s)) [SpecStateSkipped]
                   then s\<lparr>report := (report s)
                            \<lparr>SpecialSuiteFailureReasons :=
                               SpecialSuiteFailureReasons (report s)
                               @ [''Suite skipped in BeforeSuite'']\<rparr>,
                          skipAll := True\<rparr>
                   else s)))
         else Some s)"

text \<open>
  The loop of \<^verbatim>\<open>runAfterSuiteCleanup\<close> over the cleanup nodes that were pending when the
  loop began.
\<close>

fun runAfterSuiteCleanup_loop :: "env \<Rightarrow> Node list \<Rightarrow> Suite \<Rightarrow> Suite option" where
  "runAfterSuiteCleanup_loop e [] s = Some s"
| "runAfterSuiteCleanup_loop e (cleanupNode # rest) s =
     (case runSuiteNode e cleanupNode (willRunSuiteNode cleanupNode [] s) of
        None \<Rightarrow> None
      | Some s' \<Rightarrow> runAfterSuiteCleanup_loop e rest (processCurrentSpecReport s'))"

text \<open>
  \<^verbatim>\<open>runAfterSuiteCleanup\<close>: first the after-suite node, then the cleanup nodes that are
  pending once the after-suite node has run, last registered first.
\<close>

definition runAfterSuiteCleanup_afterSuite :: "env \<Rightarrow> nat \<Rightarrow> Suite \<Rightarrow> Suite option" where
  "runAfterSuiteCleanup_afterSuite e numSpecsThatWillBeRun s =
     (let afterSuiteNode = FirstNodeWithType (suiteNodes s)
            [NodeTypeAfterSuite, NodeTypeSynchronizedAfterSuite]
      in if \<not> Node_IsZero afterSuiteNode \<and> numSpecsThatWillBeRun > 0
         then map_option processCurrentSpecReport
                (runSuiteNode e afterSuiteNode (willRunSuiteNode afterSuiteNode [] s))
         else Some s)"

definition runAfterSuiteCleanup :: "env \<Rightarrow> nat \<Rightarrow> Suite \<Rightarrow> Suite option" where
  "runAfterSuiteCleanup e numSpecsThatWillBeRun s0 =
     (case runAfterSuiteCleanup_afterSuite e numSpecsThatWillBeRun s0 of
        None \<Rightarrow> None
      | Some s \<Rightarrow>
          runAfterSuiteCleanup_loop e
            (Reverse (WithType (cleanupNodes s) [NodeTypeCleanupAfterSuite])) s)"

text \<open>
  \<^verbatim>\<open>runReportAfterSuiteNode\<close>. When the client fails to deliver the reports of the other
  processes the function returns at once. The first definition is the call to the client:
  the report that the body will see, the error, and the suite.
\<close>

definition runReportAfterSuiteNode_aggregate ::
  "env \<Rightarrow> Report \<Rightarrow> Suite \<Rightarrow> (Report \<times> error option \<times> Suite) option" where
  "runReportAfterSuiteNode_aggregate e rep s =
     (if ParallelTotal (config s) > 1
      then (case BlockUntilAggregatedNonprimaryProcsReport e of
              None \<Rightarrow> None
            | Some (aggregatedReport, err) \<Rightarrow>
                Some (Report_Add e rep aggregatedReport, err,
                      s\<lparr>trace := trace s @ [Client_BlockUntilAggregatedNonprimaryProcsReport]\<rparr>))
      else Some (rep, None, s))"

definition runReportAfterSuiteNode_finish :: "env \<Rightarrow> Node \<Rightarrow> Suite \<Rightarrow> Suite option" where
  "runReportAfterSuiteNode_finish e node s =
     (let endTime = Now e (Now_runReportAfterSuiteNode_EndTime node) in
      case writer s of
        None \<Rightarrow> None
      | Some written \<Rightarrow>
         (let r = interceptor_Stop e
                    (s\<lparr>currentSpecReport := (currentSpecReport s)
                         \<lparr>SpecReport.EndTime := endTime,
                          SpecReport.RunTime :=
                            Time_Sub endTime (SpecReport.StartTime (currentSpecReport s)),
                          SpecReport.CapturedGinkgoWriterOutput := written\<rparr>\<rparr>)
          in Some ((snd r)\<lparr>currentSpecReport := (currentSpecReport (snd r))
                            \<lparr>CapturedStdOutErr := fst r\<rparr>\<rparr>)))"

definition runReportAfterSuiteNode :: "env \<Rightarrow> Node \<Rightarrow> Report \<Rightarrow> Suite \<Rightarrow> Suite option" where
  "runReportAfterSuiteNode e node rep s =
     (case writer_Truncate s of
        None \<Rightarrow> None
      | Some s \<Rightarrow>
         (let s = interceptor_Start s;
              s = s\<lparr>currentSpecReport := (currentSpecReport s)
                     \<lparr>SpecReport.StartTime := Now e (Now_runReportAfterSuiteNode_StartTime node)\<rparr>\<rparr>
          in case runReportAfterSuiteNode_aggregate e rep s of
               None \<Rightarrow> None
             | Some (rep, Some err, s) \<Rightarrow>
                 Some (setStateAndFailure
                         (SpecStateFailed, failureForLeafNodeWithMessage node (error_Error e err)) s)
             | Some (rep, None, s) \<Rightarrow>
                (case runNode_record e (node\<lparr>Body := Body_ReportAfterSuite rep\<rparr>) s of
                   None \<Rightarrow> None
                 | Some s \<Rightarrow> runReportAfterSuiteNode_finish e node s)))"

text \<open>\<^verbatim>\<open>runReportAfterSuite\<close>: the loop over the report-after-suite nodes.\<close>

fun runReportAfterSuite_loop :: "env \<Rightarrow> Node list \<Rightarrow> Suite \<Rightarrow> Suite option" where
  "runReportAfterSuite_loop e [] s = Some s"
| "runReportAfterSuite_loop e (node # rest) s =
     (case runReportAfterSuiteNode e node (report s) (willRunSuiteNode node (Text node) s) of
        None \<Rightarrow> None
      | Some s' \<Rightarrow> runReportAfterSuite_loop e rest (processCurrentSpecReport s'))"

definition runReportAfterSuite :: "env \<Rightarrow> Suite \<Rightarrow> Suite option" where
  "runReportAfterSuite e s =
     runReportAfterSuite_loop e (WithType (suiteNodes s) [NodeTypeReportAfterSuite]) s"

subsection \<open>The run of the specs\<close>

text \<open>
  Modelled from the spec: the group that runs the specs of one index
  (\<^verbatim>\<open>group.go\<close> is not among the sources), "a privileged extension of the lifecycle"
  that uses the suite's "node-execution and report-processing primitives". For each spec
  of the group it makes a spec report current and hands it to
  \<^verbatim>\<open>processCurrentSpecReport\<close>; the finished reports are an answer of the environment,
  and \<open>None\<close> is a group that never returns.
\<close>

definition group_run :: "env \<Rightarrow> Spec list \<Rightarrow> Suite \<Rightarrow> Suite option" where
  "group_run e specs s =
     (case group_reports e s specs of
        None \<Rightarrow> None
      | Some reports \<Rightarrow>
          Some (foldl (\<lambda>s' r. processCurrentSpecReport (s'\<lparr>currentSpecReport := r\<rparr>))
                  (s\<lparr>trace := trace s @ [Group_run specs]\<rparr>) reports))"

text \<open>
  Modelled from the spec: \<^verbatim>\<open>Specs.AtIndices\<close> (\<^verbatim>\<open>spec.go\<close> is not among the sources),
  the specs at the given indices; an index outside the list is a Go panic.
\<close>

definition AtIndices :: "Spec list \<Rightarrow> nat list \<Rightarrow> Spec list option" where
  "AtIndices specs indices =
     (if list_all (\<lambda>i. i < length specs) indices then Some (map (nth specs) indices) else None)"

text \<open>
  The variable \<^verbatim>\<open>nextIndex\<close> of \<^verbatim>\<open>runSpecs\<close>: the incrementing counter of
  \<^verbatim>\<open>MakeIncrementingIndexCounter\<close> ("a local incrementing counter", modelled from the
  spec), or the method \<^verbatim>\<open>FetchNextCounter\<close> of the client with the answers it has yet
  to give. A client with no answer left never returns.
\<close>

datatype nextIndex =
    IncrementingIndexCounter nat
  | ClientFetchNextCounter "(error + int) list"

definition nextIndex_call :: "nextIndex \<Rightarrow> Suite \<Rightarrow> ((error + int) \<times> nextIndex \<times> Suite) option" where
  "nextIndex_call c s =
     (case c of
        IncrementingIndexCounter k \<Rightarrow> Some (Inr (int k), IncrementingIndexCounter (Suc k), s)
      | ClientFetchNextCounter [] \<Rightarrow> None
      | ClientFetchNextCounter (r # rs) \<Rightarrow>
          Some (r, ClientFetchNextCounter rs, s\<lparr>trace := trace s @ [Client_FetchNextCounter]\<rparr>))"

text \<open>
  The loop \<^verbatim>\<open>for { ... }\<close> of \<^verbatim>\<open>runSpecs\<close>, with its variables
  \<^verbatim>\<open>groupedSpecIndices\<close>, \<^verbatim>\<open>serialGroupedSpecIndices\<close> and \<^verbatim>\<open>nextIndex\<close>. A negative
  index below the length of the list is an index out of range, a Go panic.
\<close>

definition failedToIterate :: "env \<Rightarrow> error \<Rightarrow> Suite \<Rightarrow> Suite" where
  "failedToIterate e err s =
     s\<lparr>report := (report s)
         \<lparr>SpecialSuiteFailureReasons :=
            SpecialSuiteFailureReasons (report s)
            @ [''Failed to iterate over specs:\<newline>'' @ error_Error e err],
          SuiteSucceeded := False\<rparr>\<rparr>"

function runSpecs_loop ::
  "env \<Rightarrow> Spec list \<Rightarrow> nat list list \<Rightarrow> nat list list \<Rightarrow> nextIndex \<Rightarrow> Suite \<Rightarrow> Suite option" where
  "runSpecs_loop e specs groupedSpecIndices serialGroupedSpecIndices nextIdx s =
     (case nextIndex_call nextIdx s of
        None \<Rightarrow> None
      | Some (Inl err, nextIdx', s1) \<Rightarrow> Some (failedToIterate e err s1)
      | Some (Inr groupedSpecIdx, nextIdx', s1) \<Rightarrow>
          if groupedSpecIdx \<ge> int (length groupedSpecIndices) then
            (if SuiteConfig.ParallelProcess (config s1) = 1 \<and> length serialGroupedSpecIndices > 0
             then (case client_BlockUntilNonprimaryProcsHaveFinished e s1 of
                     None \<Rightarrow> None
                   | Some (err, s2) \<Rightarrow>
                       runSpecs_loop e specs serialGroupedSpecIndices []
                         (IncrementingIndexCounter 0) s2)
             else Some s1)
          else if groupedSpecIdx < 0 then None
          else
            (case AtIndices specs (groupedSpecIndices ! nat groupedSpecIdx) of
               None \<Rightarrow> None
             | Some grp \<Rightarrow>
                (case group_run e grp s1 of
                   None \<Rightarrow> None
                 | Some s2 \<Rightarrow>
                     runSpecs_loop e specs groupedSpecIndices serialGroupedSpecIndices
                       nextIdx' s2)))"
  by pat_completeness auto
termination
  by (relation "measures
        [\<lambda>(e, specs, g, sg, c, s). length sg,
         \<lambda>(e, specs, g, sg, c, s).
            (case c of IncrementingIndexCounter k \<Rightarrow> length g - k
                     | ClientFetchNextCounter rs \<Rightarrow> length rs)]")
     (auto simp: nextIndex_call_def split: nextIndex.splits list.splits)

text \<open>
  The part of \<^verbatim>\<open>runSpecs\<close> that runs when the before-suite node left the suite
  succeeding: the ordering of the specs, the loop, and the check for pending specs.
\<close>

definition runSpecs_main :: "env \<Rightarrow> Spec list \<Rightarrow> Suite \<Rightarrow> Suite option" where
  "runSpecs_main e specs s =
     (case runSpecs_loop e specs (fst (OrderSpecs e specs (config s)))
             (snd (OrderSpecs e specs (config s)))
             (if isRunningInParallel s then ClientFetchNextCounter (FetchNextCounter e)
              else IncrementingIndexCounter 0) s of
        None \<Rightarrow> None
      | Some s \<Rightarrow>
          Some (if HasAnySpecsMarkedPending e specs \<and> FailOnPending (config s)
                then s\<lparr>report := (report s)
                         \<lparr>SpecialSuiteFailureReasons :=
                            SpecialSuiteFailureReasons (report s)
                            @ [''Detected pending specs and --fail-on-pending is set''],
                          SuiteSucceeded := False\<rparr>\<rparr>
                else s))"

text \<open>
  The part of \<^verbatim>\<open>runSpecs\<close> between the after-suite cleanup and the report-after-suite
  nodes: the check of the interrupt status, the end time, and the check of the deadline.
\<close>

definition runSpecs_finish :: "env \<Rightarrow> Suite \<Rightarrow> Suite" where
  "runSpecs_finish e s =
     (let interruptStatus = Status_runSpecs e;
          s = (if Interrupted interruptStatus
               then s\<lparr>report := (report s)
                        \<lparr>SpecialSuiteFailureReasons :=
                           SpecialSuiteFailureReasons (report s) @ [Cause interruptStatus],
                         SuiteSucceeded := False\<rparr>\<rparr>
               else s);
          s = s\<lparr>report := (report s)\<lparr>Report.EndTime := Now e Now_runSpecs_EndTime\<rparr>\<rparr>;
          s = s\<lparr>report := (report s)
                 \<lparr>Report.RunTime :=
                    Time_Sub (Report.EndTime (report s)) (Report.StartTime (report s))\<rparr>\<rparr>
      in if \<not> Time_IsZero (deadline s) \<and> Time_After (Report.EndTime (report s)) (deadline s)
         then s\<lparr>report := (report s)
                  \<lparr>SpecialSuiteFailureReasons :=
                     SpecialSuiteFailureReasons (report s) @ [''Suite Timeout Elapsed''],
                   SuiteSucceeded := False\<rparr>\<rparr>
         else s)"

text \<open>The start of \<^verbatim>\<open>runSpecs\<close>, up to the call of \<^verbatim>\<open>runBeforeSuite\<close>.\<close>

definition runSpecs_begin ::
  "env \<Rightarrow> string \<Rightarrow> string list \<Rightarrow> string \<Rightarrow> bool \<Rightarrow> Spec list \<Rightarrow> Suite \<Rightarrow> Suite" where
  "runSpecs_begin e description suiteLabels suitePath hasProgrammaticFocus specs s =
     (let s = s\<lparr>report := Report_zero
                   \<lparr>SuitePath := suitePath,
                    SuiteDescription := description,
                    SuiteLabels := suiteLabels,
                    SuiteConfig := config s,
                    SuiteHasProgrammaticFocus := hasProgrammaticFocus,
                    TotalSpecs := length specs,
                    SpecsThatWillRun := CountWithoutSkip specs,
                    Report.StartTime := Now e Now_runSpecs_StartTime\<rparr>\<rparr>;
          s = s\<lparr>trace := trace s @ Reporter_SuiteWillBegin (report s)
                   # (if isRunningInParallel s then [Client_PostSuiteWillBegin (report s)] else [])\<rparr>
      in s\<lparr>report := (report s)\<lparr>SuiteSucceeded := True\<rparr>\<rparr>)"

text \<open>The end of \<^verbatim>\<open>runSpecs\<close>, after the report-after-suite nodes.\<close>

definition runSpecs_end :: "Suite \<Rightarrow> bool \<times> Suite" where
  "runSpecs_end s =
     (SuiteSucceeded (report s),
      s\<lparr>trace := trace s @ Reporter_SuiteDidEnd (report s)
           # (if isRunningInParallel s then [Client_PostSuiteDidEnd (report s)] else [])\<rparr>)"

text \<open>\<^verbatim>\<open>runSpecs\<close>.\<close>

definition runSpecs ::
  "env \<Rightarrow> string \<Rightarrow> string list \<Rightarrow> string \<Rightarrow> bool \<Rightarrow> Spec list \<Rightarrow> Suite
     \<Rightarrow> (bool \<times> Suite) option" where
  "runSpecs e description suiteLabels suitePath hasProgrammaticFocus specs s =
     (let numSpecsThatWillBeRun = CountWithoutSkip specs in
      case runBeforeSuite e numSpecsThatWillBeRun
             (runSpecs_begin e description suiteLabels suitePath hasProgrammaticFocus specs s) of
        None \<Rightarrow> None
      | Some s \<Rightarrow>
         (case (if SuiteSucceeded (report s) then runSpecs_main e specs s else Some s) of
            None \<Rightarrow> None
          | Some s \<Rightarrow>
             (case runAfterSuiteCleanup e numSpecsThatWillBeRun s of
                None \<Rightarrow> None
              | Some s \<Rightarrow>
                 (case (if SuiteConfig.ParallelProcess (config s) = 1
                        then runReportAfterSuite e (runSpecs_finish e s)
                        else Some (runSpecs_finish e s)) of
                    None \<Rightarrow> None
                  | Some s \<Rightarrow> Some (runSpecs_end s)))))"

subsection \<open>Report entries: \<^verbatim>\<open>CurrentSpecReport\<close> and \<^verbatim>\<open>AddReportEntry\<close>\<close>

text \<open>
  The store of the backing arrays of the slices of report entries: an array is a function
  from indices to entries, at an address; \<open>fresh\<close> is the next address that an allocation
  returns. The elements of a slice are the first \<open>len\<close> elements of its array.
\<close>

record heap =
  arrays :: "nat \<Rightarrow> nat \<Rightarrow> ReportEntry"
  fresh :: nat

definition slice_entries :: "heap \<Rightarrow> slice \<Rightarrow> ReportEntry list" where
  "slice_entries h sl = map (arrays h (ptr sl)) [0..<len sl]"

text \<open>Go's \<^verbatim>\<open>make([]ReportEntry, n)\<close>: a new array of \<open>n\<close> zero entries.\<close>

definition slice_make :: "nat \<Rightarrow> heap \<Rightarrow> slice \<times> heap" where
  "slice_make n h =
     (\<lparr>ptr = fresh h, len = n, cap = n\<rparr>,
      h\<lparr>arrays := (arrays h)(fresh h := (\<lambda>i. ReportEntry_zero)), fresh := Suc (fresh h)\<rparr>)"

text \<open>Go's \<^verbatim>\<open>copy(dst, src)\<close>: as many elements as both slices hold.\<close>

definition slice_copy :: "slice \<Rightarrow> slice \<Rightarrow> heap \<Rightarrow> heap" where
  "slice_copy dst src h =
     h\<lparr>arrays := (arrays h)
         (ptr dst := (\<lambda>i. if i < min (len dst) (len src) then arrays h (ptr src) i
                          else arrays h (ptr dst) i))\<rparr>"

text \<open>
  Go's \<^verbatim>\<open>append(sl, x)\<close>: in place when the capacity allows it, and otherwise into a new
  array that holds the old elements. The new capacity is the one that the Go run-time
  computes before it rounds up to an allocation size.
\<close>

definition growslice_cap :: "nat \<Rightarrow> nat" where
  "growslice_cap c = (if c = 0 then 1 else if c < 256 then 2 * c else c + (c + 768) div 4)"

definition slice_append :: "slice \<Rightarrow> ReportEntry \<Rightarrow> heap \<Rightarrow> slice \<times> heap" where
  "slice_append sl x h =
     (if len sl < cap sl then
        (sl\<lparr>len := Suc (len sl)\<rparr>,
         h\<lparr>arrays := (arrays h)(ptr sl := (arrays h (ptr sl))(len sl := x))\<rparr>)
      else
        (\<lparr>ptr = fresh h, len = Suc (len sl), cap = growslice_cap (cap sl)\<rparr>,
         h\<lparr>arrays := (arrays h)
             (fresh h := (\<lambda>i. if i < len sl then arrays h (ptr sl) i
                              else if i = len sl then x else ReportEntry_zero)),
           fresh := Suc (fresh h)\<rparr>))"

text \<open>
  \<^verbatim>\<open>CurrentSpecReport\<close>. The method has a pointer receiver, so the suite is part of the
  result, next to the report and the store.
\<close>

definition CurrentSpecReport :: "Suite \<Rightarrow> heap \<Rightarrow> SpecReport \<times> Suite \<times> heap" where
  "CurrentSpecReport s h =
     (let rep = currentSpecReport s;
          rep = (case writer s of
                   None \<Rightarrow> rep
                 | Some written \<Rightarrow> rep\<lparr>SpecReport.CapturedGinkgoWriterOutput := written\<rparr>);
          made = slice_make (len (ReportEntries rep)) h;
          rep = rep\<lparr>ReportEntries := fst made\<rparr>;
          h = slice_copy (ReportEntries rep) (ReportEntries (currentSpecReport s)) (snd made)
      in (rep, s, h))"

text \<open>\<^verbatim>\<open>AddReportEntry\<close>.\<close>

definition AddReportEntry :: "ReportEntry \<Rightarrow> Suite \<Rightarrow> heap \<Rightarrow> error option \<times> Suite \<times> heap" where
  "AddReportEntry entry s h =
     (if phase s \<noteq> PhaseRun
      then (Some (AddReportEntryNotDuringRunPhase (ReportEntry.Location entry)), s, h)
      else
        (let appended = slice_append (ReportEntries (currentSpecReport s)) entry h
         in (None,
             s\<lparr>currentSpecReport := (currentSpecReport s)\<lparr>ReportEntries := fst appended\<rparr>\<rparr>,
             snd appended)))"

text \<open>
  What the code that received a report can do to the slice of entries in it: assign to
  an element (an index beyond the length is a Go panic, \<open>None\<close>), or append to it.
\<close>

datatype mutation =
    SetEntry nat ReportEntry
  | AppendEntry ReportEntry

fun mutate :: "mutation \<Rightarrow> slice \<times> heap \<Rightarrow> (slice \<times> heap) option" where
  "mutate (SetEntry i x) (sl, h) =
     (if i < len sl
      then Some (sl, h\<lparr>arrays := (arrays h)(ptr sl := (arrays h (ptr sl))(i := x))\<rparr>)
      else None)"
| "mutate (AppendEntry x) (sl, h) = Some (slice_append sl x h)"

fun mutate_all :: "mutation list \<Rightarrow> slice \<times> heap \<Rightarrow> (slice \<times> heap) option" where
  "mutate_all [] r = Some r"
| "mutate_all (m # ms) r = (case mutate m r of None \<Rightarrow> None | Some r' \<Rightarrow> mutate_all ms r')"

section \<open>Notions used in the statements\<close>

subsection \<open>The waiting loop\<close>

text \<open>
  The grace-period waits in a trace: every \<^verbatim>\<open>time.After(gracePeriod)\<close> of the waiting
  loop leaves one effect \<open>GracePeriod_After\<close>.
\<close>

fun isGraceWait :: "effect \<Rightarrow> bool" where
  "isGraceWait (GracePeriod_After d) = True"
| "isGraceWait _ = False"

definition graceWaits :: "effect list \<Rightarrow> nat" where
  "graceWaits tr = length (filter isGraceWait tr)"

text \<open>
  What holds of the variables of the loop whenever the \<^verbatim>\<open>select\<close> is entered: while a
  grace period is pending the deadline channel is \<^verbatim>\<open>nil\<close> and an outcome is recorded.
  The budget counts the waits started so far, and one more while none is pending.
\<close>

definition loop_inv :: "loop_vars \<Rightarrow> bool" where
  "loop_inv v = (gracePeriodChannel v \<noteq> None \<longrightarrow> deadlineChannel v = None \<and> outcome v \<noteq> SpecStateInvalid)"

definition budget :: "loop_vars \<Rightarrow> Suite \<Rightarrow> nat" where
  "budget v s = graceWaits (trace s) + (if gracePeriodChannel v = None then 1 else 0)"

text \<open>
  The durations of the grace-period waits in a trace, in the order in which the timers were
  started, and the progress reports about a leaked node that the reporter was handed: the
  reports that carry the message of the case \<^verbatim>\<open>gracePeriodChannel\<close> of the \<^verbatim>\<open>select\<close>.
\<close>

fun graceDuration :: "effect \<Rightarrow> Duration list" where
  "graceDuration (GracePeriod_After d) = [d]"
| "graceDuration _ = []"

definition graceDurations :: "effect list \<Rightarrow> Duration list" where
  "graceDurations tr = concat (map graceDuration tr)"

fun isLeakReport :: "effect \<Rightarrow> bool" where
  "isLeakReport (Reporter_EmitProgressReport pr) = (ProgressReport.Message pr = message_leaked)"
| "isLeakReport _ = False"

definition leakReports :: "effect list \<Rightarrow> effect list" where
  "leakReports tr = filter isLeakReport tr"

text \<open>
  What holds whenever the \<^verbatim>\<open>select\<close> is entered in a loop that uses the grace period
  \<open>gp\<close> and started with the trace \<open>t0\<close>: no report about a leaked node was emitted, and
  the one wait that may be pending was started with \<open>gp\<close>.
\<close>

definition grace_inv :: "Duration \<Rightarrow> effect list \<Rightarrow> loop_vars \<Rightarrow> Suite \<Rightarrow> bool" where
  "grace_inv gp t0 v s =
     (loop_inv v \<and> leakReports (trace s) = leakReports t0 \<and>
      graceDurations (trace s) =
        graceDurations t0 @ (if gracePeriodChannel v = None then [] else [gp]))"

text \<open>
  The fields of the suite that the waiting loop leaves alone: all but the progress
  reports of the current spec report, the context and the trace.
\<close>

definition loop_frame :: "Suite \<Rightarrow> Suite \<Rightarrow> bool" where
  "loop_frame s s' =
     (phase s' = phase s \<and> suiteNodes s' = suiteNodes s \<and> cleanupNodes s' = cleanupNodes s \<and>
      writer s' = writer s \<and> config s' = config s \<and> deadline s' = deadline s \<and>
      skipAll s' = skipAll s \<and> report s' = report s \<and> currentNode s' = currentNode s \<and>
      currentNodeStartTime s' = currentNodeStartTime s \<and>
      progressStepCursor s' = progressStepCursor s \<and>
      (currentSpecReport s')\<lparr>ProgressReports := []\<rparr> = (currentSpecReport s)\<lparr>ProgressReports := []\<rparr>)"

text \<open>
  The fields of the suite that running a node or a suite node leaves alone.
\<close>

definition run_frame :: "Suite \<Rightarrow> Suite \<Rightarrow> bool" where
  "run_frame s s' =
     (phase s' = phase s \<and> suiteNodes s' = suiteNodes s \<and> config s' = config s \<and>
      deadline s' = deadline s \<and> skipAll s' = skipAll s \<and> report s' = report s \<and>
      LeafNodeType (currentSpecReport s') = LeafNodeType (currentSpecReport s) \<and>
      LeafNodeLocation (currentSpecReport s') = LeafNodeLocation (currentSpecReport s))"

text \<open>
  The types of the cleanup nodes, \<^verbatim>\<open>NodeTypeCleanupInvalid\<close> among them.
\<close>

definition isCleanupType :: "NodeType \<Rightarrow> bool" where
  "isCleanupType nt = (nt = NodeTypeCleanupInvalid \<or> nt = NodeTypeCleanupAfterEach \<or>
     nt = NodeTypeCleanupAfterAll \<or> nt = NodeTypeCleanupAfterSuite)"

subsection \<open>The deadline, in the words of the spec\<close>



subsection \<open>The success of the suite\<close>

text \<open>
  A spec report in a failure state; a special failure reason that records a failed fetch
  of the next index, or pending specs under \<^verbatim>\<open>--fail-on-pending\<close>.
\<close>

definition isSpecFailure :: "SpecReport \<Rightarrow> bool" where
  "isSpecFailure r = SpecState_Is (State r) SpecStateFailureStates"

definition isFailedToIterate :: "string \<Rightarrow> bool" where
  "isFailedToIterate x =
     (take (length ''Failed to iterate over specs:\<newline>'') x = ''Failed to iterate over specs:\<newline>'')"

definition isIterationOrPendingFailure :: "string \<Rightarrow> bool" where
  "isIterationOrPendingFailure x =
     (isFailedToIterate x \<or> x = ''Detected pending specs and --fail-on-pending is set'')"

text \<open>
  What holds of the report of the suite from the start of \<^verbatim>\<open>runSpecs\<close> to the end of
  the after-suite cleanup, and from the check of the deadline to the end: the suite
  succeeds exactly when nothing was recorded against it.
\<close>

definition suite_inv :: "Suite \<Rightarrow> bool" where
  "suite_inv s =
     (SuiteSucceeded (report s) \<longleftrightarrow>
        (\<forall>r \<in> set (SpecReports (report s)). \<not> isSpecFailure r) \<and>
        (\<forall>x \<in> set (SpecialSuiteFailureReasons (report s)). \<not> isIterationOrPendingFailure x))"

definition final_inv :: "env \<Rightarrow> Suite \<Rightarrow> bool" where
  "final_inv e s =
     (SuiteSucceeded (report s) \<longleftrightarrow>
        (\<forall>r \<in> set (SpecReports (report s)). \<not> isSpecFailure r) \<and>
        \<not> Interrupted (Status_runSpecs e) \<and>
        \<not> (\<not> Time_IsZero (deadline s) \<and> Time_After (Report.EndTime (report s)) (deadline s)) \<and>
        (\<forall>x \<in> set (SpecialSuiteFailureReasons (report s)). \<not> isIterationOrPendingFailure x))"

text \<open>
  From \<open>s\<close> to \<open>s'\<close> the phase, the suite nodes, the configuration, the deadline and
  the end time stay, and the list of finished spec reports only grows.
\<close>

definition grows :: "Suite \<Rightarrow> Suite \<Rightarrow> bool" where
  "grows s s' =
     (phase s' = phase s \<and> suiteNodes s' = suiteNodes s \<and> config s' = config s \<and>
      deadline s' = deadline s \<and>
      Report.EndTime (report s') = Report.EndTime (report s) \<and>
      (\<exists>rs. SpecReports (report s') = SpecReports (report s) @ rs))"

text \<open>
  Among the finished spec reports of the suite there is one with the type and the location
  of the node. This says nothing about the body of the node.
\<close>

definition reported :: "Node \<Rightarrow> Suite \<Rightarrow> bool" where
  "reported n s =
     (\<exists>r \<in> set (SpecReports (report s)).
        LeafNodeType r = NodeType n \<and> LeafNodeLocation r = CodeLocation n)"

text \<open>
  The worker of the body of the node was started: \<^verbatim>\<open>runNode\<close> reached its \<^verbatim>\<open>go func()\<close>
  for this node, with the body and the flag \<open>HasContext\<close> that the node carries. The
  second notion says that this happened after the state \<open>s0\<close>: the start is in the part
  of the trace that follows the trace of \<open>s0\<close>.
\<close>

definition started :: "Node \<Rightarrow> Suite \<Rightarrow> bool" where
  "started n s = (Go_Body n \<in> set (trace s))"

definition started_after :: "Suite \<Rightarrow> Node \<Rightarrow> Suite \<Rightarrow> bool" where
  "started_after s0 n s = (Go_Body n \<in> set (drop (length (trace s0)) (trace s)))"

text \<open>
  The node that \<^verbatim>\<open>runSuiteNode\<close> hands to \<^verbatim>\<open>runNode\<close> first: for a synchronized
  after-suite node the node with the body of all processes, for the other suite nodes the
  node itself.
\<close>

definition firstBody :: "Node \<Rightarrow> Node" where
  "firstBody n =
     (if NodeType n = NodeTypeSynchronizedAfterSuite
      then n\<lparr>Body := Body_SynchronizedAfterSuiteAllProcs,
             HasContext := SynchronizedAfterSuiteAllProcsBodyHasContext n\<rparr>
      else n)"

text \<open>
  The trace of \<open>s'\<close> continues the trace of \<open>s\<close>.
\<close>

definition extends :: "Suite \<Rightarrow> Suite \<Rightarrow> bool" where
  "extends s s' = (\<exists>t. trace s' = trace s @ t)"

subsection \<open>Report entries\<close>

text \<open>
  From \<open>h\<close> to \<open>h'\<close> the arrays below address \<open>n\<close> are as they were, and no address
  was given back.
\<close>

definition untouched :: "nat \<Rightarrow> heap \<Rightarrow> heap \<Rightarrow> bool" where
  "untouched n h h' = (fresh h \<le> fresh h' \<and> (\<forall>a < n. arrays h' a = arrays h a))"

text \<open>
  The entries that the caller of \<^verbatim>\<open>CurrentSpecReport\<close> reads in the report it gets, and
  what a caller makes of the slice of entries in that report by a list of mutations: the
  slice it then holds, and the store.
\<close>

definition returned_entries :: "Suite \<Rightarrow> heap \<Rightarrow> ReportEntry list" where
  "returned_entries s h =
     slice_entries (snd (snd (CurrentSpecReport s h)))
       (ReportEntries (fst (CurrentSpecReport s h)))"

definition mutate_returned :: "mutation list \<Rightarrow> Suite \<Rightarrow> heap \<Rightarrow> (slice \<times> heap) option" where
  "mutate_returned ms s h =
     mutate_all ms (ReportEntries (fst (CurrentSpecReport s h)), snd (snd (CurrentSpecReport s h)))"

section \<open>Example inputs\<close>

text \<open>
  An environment in which no interrupt arrives, the clock stands at 1000, every body
  passes at once and registers nothing, and the client is silent; a suite in the run
  phase with a writer; and variations of both. The three masks of node types are those of
  ginkgo.
\<close>

definition example_status :: InterruptStatus where
  "example_status = \<lparr>Level = InterruptLevelUninterrupted, Cause = [],
                      ShouldIncludeProgressReport = False, InterruptStatus.Message = []\<rparr>"

definition example_interrupt :: InterruptStatus where
  "example_interrupt = \<lparr>Level = InterruptLevelCleanupAndReport, Cause = ''Interrupted by User'',
                         ShouldIncludeProgressReport = True,
                         InterruptStatus.Message = ''Interrupted by User''\<rparr>"

definition example_env :: env where
  "example_env =
     \<lparr>NodeTypesAllowedDuringReportInterrupt =
        [NodeTypeReportBeforeEach, NodeTypeReportAfterEach, NodeTypeReportAfterSuite],
      NodeTypesAllowedDuringCleanupInterrupt =
        [NodeTypeAfterEach, NodeTypeAfterAll, NodeTypeAfterSuite, NodeTypeSynchronizedAfterSuite,
         NodeTypeCleanupAfterEach, NodeTypeCleanupAfterAll, NodeTypeCleanupAfterSuite],
      NodeTypesForSuiteLevelNodes =
        [NodeTypeBeforeSuite, NodeTypeSynchronizedBeforeSuite, NodeTypeAfterSuite,
         NodeTypeSynchronizedAfterSuite, NodeTypeReportAfterSuite, NodeTypeCleanupAfterSuite],
      NodeType_String = (\<lambda>nt. ''Node''),
      error_Error = (\<lambda>err. case err of ClientError m \<Rightarrow> m | _ \<Rightarrow> ''ginkgo error''),
      Status_runNode = (\<lambda>n. example_status),
      Status_runSpecs = example_status,
      Now = (\<lambda>site. 1000),
      body_cleanups = (\<lambda>n. []),
      body_events = (\<lambda>n. [Completion SpecStatePassed Failure_zero]),
      body_data = (\<lambda>n. []),
      QueryProgressReporters = (\<lambda>n. []),
      StopInterceptingAndReturnOutput = (\<lambda>k. []),
      FetchNextCounter = [],
      BlockUntilNonprimaryProcsHaveFinished = Some None,
      PostSynchronizedBeforeSuiteCompleted = (\<lambda>st d. None),
      BlockUntilSynchronizedBeforeSuiteData = None,
      BlockUntilAggregatedNonprimaryProcsReport = None,
      OrderSpecs = (\<lambda>specs cfg. ([], [])),
      HasAnySpecsMarkedPending = (\<lambda>specs. False),
      Report_Add = (\<lambda>r1 r2. r1),
      group_reports = (\<lambda>s specs. Some [])\<rparr>"

definition example_suite :: Suite where
  "example_suite =
     NewSuite\<lparr>phase := PhaseRun, writer := Some [],
              config := SuiteConfig_zero\<lparr>SuiteConfig.ParallelProcess := 1, ParallelTotal := 1\<rparr>\<rparr>"

definition example_node :: "nat \<Rightarrow> NodeType \<Rightarrow> CodeLocation \<Rightarrow> Node" where
  "example_node i nt loc =
     Node_zero\<lparr>ID := i, NodeType := nt, Body := Body_declared, CodeLocation := loc,
               NodeTimeout := -1, GracePeriod := -1, PollProgressAfter := -1,
               PollProgressInterval := -1\<rparr>"

definition example_beforeSuite :: Node where
  "example_beforeSuite = example_node 1 NodeTypeBeforeSuite ''suite_test.go:10''"

definition example_afterSuite :: Node where
  "example_afterSuite = example_node 2 NodeTypeAfterSuite ''suite_test.go:20''"

definition example_it :: Node where
  "example_it = example_node 3 NodeTypeIt ''a_test.go:10''"

definition example_cleanup :: Node where
  "example_cleanup = example_node 4 NodeTypeCleanupAfterEach ''a_test.go:14''"

definition example_sbs :: Node where
  "example_sbs = example_node 5 NodeTypeSynchronizedBeforeSuite ''suite_test.go:30''"

definition example_spec :: Spec where
  "example_spec = \<lparr>Nodes = [example_it], Skip = False\<rparr>"

definition example_failure :: Failure where
  "example_failure =
     Failure_zero\<lparr>Failure.Message := ''boom'', Failure.Location := ''a_test.go:12''\<rparr>"

definition example_vars :: loop_vars where
  "example_vars =
     \<lparr>outcome = SpecStateInvalid, failure = runNode_failure example_env example_it,
      interruptStatus = example_status, deadlineChannel = Some 5,
      gracePeriodChannel = None, emitProgressNow = None\<rparr>"

text \<open>
  An environment in which every body but that of the after-suite node fails; one in which
  the only spec is pending, with a suite that fails on pending specs; one in which every
  body registers a cleanup node; a suite on the second of two processes, and two answers
  of the client to it; a suite with one report entry, and the store that holds it.
\<close>

definition failing_env :: env where
  "failing_env = example_env
     \<lparr>body_events := (\<lambda>n. if NodeType n = NodeTypeAfterSuite
                           then [Completion SpecStatePassed Failure_zero]
                           else [Completion SpecStateFailed example_failure])\<rparr>"

definition pending_env :: env where
  "pending_env = example_env
     \<lparr>OrderSpecs := (\<lambda>specs cfg. ([[0]], [])),
      HasAnySpecsMarkedPending := (\<lambda>specs. True),
      group_reports := (\<lambda>s specs. Some [SpecReport_zero\<lparr>State := SpecStatePending\<rparr>])\<rparr>"

definition pending_suite :: Suite where
  "pending_suite = example_suite\<lparr>config := (config example_suite)\<lparr>FailOnPending := True\<rparr>\<rparr>"

definition cleanup_env :: env where
  "cleanup_env = example_env
     \<lparr>body_cleanups := (\<lambda>n. [example_node 9 NodeTypeCleanupInvalid ''a_test.go:16''])\<rparr>"

definition secondary_suite :: Suite where
  "secondary_suite =
     example_suite\<lparr>config := (config example_suite)
                     \<lparr>SuiteConfig.ParallelProcess := 2, ParallelTotal := 2\<rparr>\<rparr>"

definition proc1_failed_env :: env where
  "proc1_failed_env = example_env
     \<lparr>BlockUntilSynchronizedBeforeSuiteData := Some (SpecStateFailed, [], None)\<rparr>"

definition proc1_skipped_error_env :: env where
  "proc1_skipped_error_env = example_env
     \<lparr>BlockUntilSynchronizedBeforeSuiteData :=
        Some (SpecStateSkipped, [], Some (ClientError ''connection reset''))\<rparr>"

definition example_entry :: "string \<Rightarrow> ReportEntry" where
  "example_entry n = \<lparr>Name = n, Location = ''a_test.go:11'', Value = ''v''\<rparr>"

definition example_heap :: heap where
  "example_heap =
     \<lparr>arrays = (\<lambda>a i. if a = 1 \<and> i = 0 then example_entry ''first'' else ReportEntry_zero),
      fresh = 2\<rparr>"

definition entries_suite :: Suite where
  "entries_suite =
     example_suite\<lparr>currentSpecReport := SpecReport_zero
                     \<lparr>ReportEntries := \<lparr>ptr = 1, len = 1, cap = 1\<rparr>\<rparr>\<rparr>"

text \<open>
  An environment in which the body never completes: the deadline fires and then the timer
  of the grace period; one in which an interrupt arrives in its place; a suite with a grace
  period of 30; a node with a timeout and no context, and the same node with a context; a
  suite in dry-run mode; and the cleanup node that the body of the before-suite node
  registers in \<open>cleanup_env\<close>, as \<^verbatim>\<open>pushCleanupNode\<close> stores it.
\<close>

definition timeout_env :: env where
  "timeout_env = example_env\<lparr>body_events := (\<lambda>n. [DeadlineElapsed, GracePeriodElapsed])\<rparr>"

definition interrupt_env :: env where
  "interrupt_env = example_env
     \<lparr>body_events := (\<lambda>n. [InterruptReceived example_interrupt, GracePeriodElapsed])\<rparr>"

definition graceful_suite :: Suite where
  "graceful_suite = example_suite\<lparr>config := (config example_suite)\<lparr>SuiteConfig.GracePeriod := 30\<rparr>\<rparr>"

definition example_timed :: Node where
  "example_timed = example_it\<lparr>NodeTimeout := 5\<rparr>"

definition example_timed_ctx :: Node where
  "example_timed_ctx = example_it\<lparr>NodeTimeout := 5, HasContext := True\<rparr>"


definition dry_suite :: Suite where
  "dry_suite = example_suite\<lparr>config := (config example_suite)\<lparr>DryRun := True\<rparr>\<rparr>"

definition example_registered :: Node where
  "example_registered =
     (example_node 9 NodeTypeCleanupInvalid ''a_test.go:16'')
       \<lparr>NodeType := NodeTypeCleanupAfterSuite, NodeIDWhereCleanupWasGenerated := 1\<rparr>"

section \<open>Lemmas\<close>

subsection \<open>The waiting loop\<close>

lemma loop_frame_refl [simp]: "loop_frame s s"
  by (simp add: loop_frame_def)

lemma loop_frame_trans: "loop_frame s s1 \<Longrightarrow> loop_frame s1 s2 \<Longrightarrow> loop_frame s s2"
  by (simp add: loop_frame_def)

lemma loop_frame_emit [simp]: "loop_frame s (emitProgressReport pr s)"
  by (simp add: loop_frame_def emitProgressReport_def)

lemma loop_frame_cancel [simp]: "loop_frame s (sc_cancel s)"
  by (simp add: loop_frame_def sc_cancel_def split: option.splits)

lemma loop_frame_trace [simp]: "loop_frame s (s'\<lparr>trace := t\<rparr>) = loop_frame s s'"
  by (simp add: loop_frame_def)

lemma loop_frame_emit2 [simp]: "loop_frame s (emitProgressReport pr s') = loop_frame s s'"
  by (simp add: loop_frame_def emitProgressReport_def)

lemma loop_frame_cancel2 [simp]: "loop_frame s (sc_cancel s') = loop_frame s s'"
  by (simp add: loop_frame_def sc_cancel_def split: option.splits)

lemma graceWaits_append [simp]: "graceWaits (xs @ ys) = graceWaits xs + graceWaits ys"
  by (simp add: graceWaits_def)

lemma graceWaits_simps [simp]: "graceWaits [] = 0" "graceWaits (x # xs) = (if isGraceWait x then 1 else 0) + graceWaits xs"
  by (simp_all add: graceWaits_def)

lemma emit_facts [simp]:
  "graceWaits (trace (emitProgressReport pr s)) = graceWaits (trace s)"
  by (simp_all add: emitProgressReport_def)

lemma cancel_facts [simp]:
  "trace (sc_cancel s) = trace s"
  by (simp_all add: sc_cancel_def split: option.splits)

lemmas select_defs = runNode_select_def select_gracePeriodChannel_def select_deadlineChannel_def
        select_interruptChannel_def select_emitProgressNow_def

lemma step_Continue:
  "loop_inv v \<Longrightarrow> runNode_select e node gp ppi ev v s = Continue v' s' \<Longrightarrow>
   loop_inv v' \<and> budget v' s' \<le> budget v s"
  by (cases ev)
     (auto simp: select_defs loop_inv_def budget_def Let_def
        split: option.splits if_splits)

lemma step_frame:
  "runNode_select e node gp ppi ev v s = Continue v' s' \<or> runNode_select e node gp ppi ev v s = Return oc fl s' \<Longrightarrow>
   loop_frame s s'"
  by (cases ev)
     (auto simp: select_defs Let_def
        split: option.splits if_splits)

lemma step_Return:
  "runNode_select e node gp ppi ev v s = Return oc fl s' \<Longrightarrow>
   graceWaits (trace s') = graceWaits (trace s)"
  by (cases ev)
     (auto simp: select_defs Let_def
        split: option.splits if_splits)

lemma interrupt_while_grace:
  "gracePeriodChannel v = Some d \<Longrightarrow> outcome v \<noteq> SpecStateInvalid \<Longrightarrow> writer s = Some w \<Longrightarrow>
   \<exists>s'. runNode_select e node gp ppi (InterruptReceived st) v s = Return (outcome v) (failure v) s'
        \<and> graceWaits (trace s') = graceWaits (trace s)"
  by (auto simp: runNode_select_def select_interruptChannel_def Let_def generateProgressReport_def
        split: option.splits if_splits)

lemma step_trace:
  "runNode_select e node gp ppi ev v s = Continue v' s' \<or> runNode_select e node gp ppi ev v s = Return oc fl s' \<Longrightarrow>
   set (trace s) \<subseteq> set (trace s')"
  by (cases ev)
     (auto simp: select_defs Let_def emitProgressReport_def
        split: option.splits if_splits)

lemma wait_trace:
  "runNode_wait e node gp ppi evs v s = Return oc fl s' \<Longrightarrow> set (trace s) \<subseteq> set (trace s')"
proof (induction evs arbitrary: v s)
  case Nil
  then show ?case by simp
next
  case (Cons ev evs)
  show ?case
  proof (cases "runNode_select e node gp ppi ev v s")
    case (Return oc1 fl1 s1)
    with Cons.prems have "s1 = s'" by simp
    with step_trace [of e node gp ppi ev v s _ s' oc1 fl1] Return show ?thesis by simp
  next
    case (Continue v1 s1)
    with Cons.prems have rest: "runNode_wait e node gp ppi evs v1 s1 = Return oc fl s'" by simp
    from step_trace [of e node gp ppi ev v s v1 s1] Continue have "set (trace s) \<subseteq> set (trace s1)" by simp
    with Cons.IH [OF rest] show ?thesis by blast
  next
    case Panic
    with Cons.prems show ?thesis by simp
  qed
qed

lemma wait_Continue:
  "loop_inv v \<Longrightarrow> runNode_wait e node gp ppi evs v s = Continue v' s' \<Longrightarrow>
   loop_inv v' \<and> budget v' s' \<le> budget v s \<and> loop_frame s s'"
proof (induction evs arbitrary: v s)
  case Nil
  then show ?case by simp
next
  case (Cons ev evs)
  from Cons.prems(2) obtain v1 s1 where
    st: "runNode_select e node gp ppi ev v s = Continue v1 s1" and
    rest: "runNode_wait e node gp ppi evs v1 s1 = Continue v' s'"
    by (auto split: select_result.splits)
  from step_Continue [OF Cons.prems(1) st] step_frame [of e node gp ppi ev v s v1 s1] st
    Cons.IH [OF _ rest]
  show ?case by (auto intro: loop_frame_trans)
qed

lemma wait_Return:
  "loop_inv v \<Longrightarrow> runNode_wait e node gp ppi evs v s = Return oc fl s' \<Longrightarrow>
   graceWaits (trace s') \<le> budget v s"
proof (induction evs arbitrary: v s)
  case Nil
  then show ?case by simp
next
  case (Cons ev evs)
  show ?case
  proof (cases "runNode_select e node gp ppi ev v s")
    case (Return oc1 fl1 s1)
    with Cons.prems(2) have "s1 = s'" by simp
    with step_Return [OF Return] show ?thesis by (simp add: budget_def)
  next
    case (Continue v1 s1)
    with Cons.prems(2) have rest: "runNode_wait e node gp ppi evs v1 s1 = Return oc fl s'" by simp
    from step_Continue [OF Cons.prems(1) Continue] Cons.IH [OF _ rest] show ?thesis by auto
  next
    case Panic
    with Cons.prems(2) show ?thesis by simp
  qed
qed

lemma interrupted_step:
  assumes "outcome v = SpecStateInterrupted" "deadlineChannel v = None"
  shows "(runNode_select e node gp ppi ev v s = Continue v' s' \<longrightarrow>
            outcome v' = outcome v \<and> failure v' = failure v \<and> deadlineChannel v' = None) \<and>
         (runNode_select e node gp ppi ev v s = Return oc fl s' \<longrightarrow>
            oc = outcome v \<and> fl = failure v)"
  using assms
  by (cases ev)
     (auto simp: select_defs select_outcomeC_def SpecState_Is_def Let_def
        split: option.splits if_splits)

lemma interrupted_is_final:
  "outcome v = SpecStateInterrupted \<Longrightarrow> deadlineChannel v = None \<Longrightarrow>
   runNode_wait e node gp ppi evs v s = Return oc fl s' \<Longrightarrow>
   oc = SpecStateInterrupted \<and> fl = failure v"
proof (induction evs arbitrary: v s)
  case Nil
  then show ?case by simp
next
  case (Cons ev evs)
  show ?case
  proof (cases "runNode_select e node gp ppi ev v s")
    case (Return oc1 fl1 s1)
    with Cons.prems(3) have "oc1 = oc" "fl1 = fl" by simp_all
    with interrupted_step [OF Cons.prems(1,2), where e = e and node = node and gp = gp
        and ppi = ppi and ev = ev and s = s and oc = oc and fl = fl and s' = s1] Return Cons.prems(1)
    show ?thesis by simp
  next
    case (Continue v1 s1)
    with Cons.prems(3) have rest: "runNode_wait e node gp ppi evs v1 s1 = Return oc fl s'" by simp
    from interrupted_step [OF Cons.prems(1,2), where e = e and node = node and gp = gp
        and ppi = ppi and ev = ev and s = s and v' = v1 and s' = s1] Continue Cons.prems(1)
    have "outcome v1 = SpecStateInterrupted" "deadlineChannel v1 = None" "failure v1 = failure v"
      by simp_all
    with Cons.IH [OF _ _ rest] show ?thesis by simp
  next
    case Panic
    with Cons.prems(3) show ?thesis by simp
  qed
qed

subsection \<open>Running one node\<close>

lemma run_frame_refl [simp]: "run_frame s s"
  by (simp add: run_frame_def)

lemma run_frame_trans: "run_frame s s1 \<Longrightarrow> run_frame s1 s2 \<Longrightarrow> run_frame s s2"
  by (simp add: run_frame_def)

lemma loop_frame_run_frame: "loop_frame s s' \<Longrightarrow> run_frame s s'"
  apply (simp add: loop_frame_def run_frame_def)
  apply (elim conjE)
  apply (drule arg_cong [where f = "\<lambda>r. (LeafNodeType r, LeafNodeLocation r)"])
  apply simp
  done

lemma wait_frame:
  "runNode_wait e node gp ppi evs v s = Return oc fl s' \<Longrightarrow> loop_frame s s'"
proof (induction evs arbitrary: v s)
  case Nil
  then show ?case by simp
next
  case (Cons ev evs)
  show ?case
  proof (cases "runNode_select e node gp ppi ev v s")
    case (Return oc1 fl1 s1)
    with Cons.prems have "s1 = s'" by simp
    with step_frame [of e node gp ppi ev v s _ s' oc1 fl1] Return show ?thesis by simp
  next
    case (Continue v1 s1)
    with Cons.prems have rest: "runNode_wait e node gp ppi evs v1 s1 = Return oc fl s'" by simp
    from step_frame [of e node gp ppi ev v s v1 s1] Continue have "loop_frame s s1" by simp
    with Cons.IH [OF rest] show ?thesis by (rule loop_frame_trans [rotated])
  next
    case Panic
    with Cons.prems show ?thesis by simp
  qed
qed

lemma pushCleanupNode_rejected:
  "isCleanupType (NodeType (currentNode s)) \<Longrightarrow> \<exists>err. pushCleanupNode n s = (Some err, s)"
  by (auto simp: pushCleanupNode_def isCleanupType_def)

lemma pushCleanupNode_frame:
  "run_frame s (snd (pushCleanupNode n s)) \<and> currentNode (snd (pushCleanupNode n s)) = currentNode s
   \<and> trace (snd (pushCleanupNode n s)) = trace s \<and> writer (snd (pushCleanupNode n s)) = writer s"
  by (simp add: pushCleanupNode_def run_frame_def Let_def split: NodeType.splits)

lemma go_body_frame:
  "run_frame s (go_body e node s) \<and> currentNode (go_body e node s) = currentNode s
   \<and> writer (go_body e node s) = writer s"
proof -
  have "\<And>s0. run_frame s s0 \<Longrightarrow>
      run_frame s (foldl (\<lambda>s' n. snd (pushCleanupNode n s')) s0 ns) \<and>
      currentNode (foldl (\<lambda>s' n. snd (pushCleanupNode n s')) s0 ns) = currentNode s0 \<and>
      writer (foldl (\<lambda>s' n. snd (pushCleanupNode n s')) s0 ns) = writer s0" for ns
  proof (induction ns)
    case Nil
    then show ?case by simp
  next
    case (Cons n ns)
    from Cons.prems pushCleanupNode_frame [of s0 n]
    have "run_frame s (snd (pushCleanupNode n s0))" by (blast intro: run_frame_trans)
    from Cons.IH [OF this] pushCleanupNode_frame [of s0 n] show ?case by simp
  qed
  from this [of "s\<lparr>trace := trace s @ [Go_Body node]\<rparr>" "body_cleanups e node"]
  show ?thesis by (simp add: go_body_def run_frame_def)
qed

lemma go_body_cleanup:
  "isCleanupType (NodeType (currentNode s)) \<Longrightarrow> cleanupNodes (go_body e node s) = cleanupNodes s"
proof -
  have "\<And>s0. isCleanupType (NodeType (currentNode s0)) \<Longrightarrow>
      foldl (\<lambda>s' n. snd (pushCleanupNode n s')) s0 ns = s0" for ns
  proof (induction ns)
    case Nil
    then show ?case by simp
  next
    case (Cons n ns)
    from pushCleanupNode_rejected [OF Cons.prems, of n] have "snd (pushCleanupNode n s0) = s0" by auto
    with Cons show ?case by simp
  qed
  from this [of "s\<lparr>trace := trace s @ [Go_Body node]\<rparr>" "body_cleanups e node"]
  show "isCleanupType (NodeType (currentNode s)) \<Longrightarrow> ?thesis" by (simp add: go_body_def)
qed

lemma go_body_trace: "trace (go_body e node s) = trace s @ [Go_Body node]"
proof -
  have "\<And>s0. trace (foldl (\<lambda>s' n. snd (pushCleanupNode n s')) s0 ns) = trace s0" for ns
    by (induction ns) (simp_all add: pushCleanupNode_frame)
  then show ?thesis by (simp add: go_body_def)
qed

lemma removeCleanup_frame [simp]: "run_frame s (runNode_removeCleanup node s)"
  by (simp add: runNode_removeCleanup_def run_frame_def)

lemma enter_frame:
  "runNode_enter e node text s = Some s' \<Longrightarrow>
   run_frame s s' \<and> currentNode s' = node \<and> cleanupNodes s' = cleanupNodes s"
  by (auto simp: runNode_enter_def run_frame_def Let_def split: if_splits option.splits)

lemma start_frame:
  "run_frame s (snd (runNode_start e node sd st s)) \<and>
   currentNode (snd (runNode_start e node sd st s)) = currentNode s"
proof -
  let ?s1 = "s\<lparr>currentSpecContext := Some \<lparr>cancelled = False\<rparr>\<rparr>"
  have a: "run_frame s ?s1" by (simp add: run_frame_def)
  have b: "run_frame ?s1 (?s1\<lparr>trace := t\<rparr>)" for t by (simp add: run_frame_def)
  have c: "run_frame s0 (s0\<lparr>trace := t\<rparr>)" for s0 t by (simp add: run_frame_def)
  show ?thesis
    using go_body_frame [of ?s1 e node]
          go_body_frame [of "?s1\<lparr>trace := trace ?s1 @ [Deadline_After
             (Time_Sub (runNode_deadline (deadline s) sd (Now e (Now_runNode_now node)) (NodeTimeout node)
                 (runNode_gracePeriod (config s) node) (Interrupted st)) (Now e (Now_runNode_now node)))]\<rparr>" e node]
    by (simp add: runNode_start_def Let_def run_frame_def)
qed

lemma exit_frame: "loop_frame s s' \<Longrightarrow> run_frame s (runNode_exit node s')"
  by (drule loop_frame_run_frame)
     (simp add: runNode_exit_def Let_def run_frame_def sc_cancel_def split: option.splits)

lemma runNode_frame:
  assumes "runNode e node sd text s = Some (r, s')"
  shows "run_frame s s'"
proof (cases "runNode_skipped e (Status_runNode e node) node")
  case True
  with assms show ?thesis by (auto simp: runNode_def Let_def)
next
  case False
  with assms obtain s1 oc fl s2 where
    en: "runNode_enter e node text (runNode_removeCleanup node s) = Some s1" and
    w: "runNode_wait e node (runNode_waitGracePeriod (config s1) node)
          (runNode_pollProgressInterval (config s1) node) (body_events e node)
          (fst (runNode_start e node sd (Status_runNode e node) s1))
          (snd (runNode_start e node sd (Status_runNode e node) s1)) = Return oc fl s2" and
    s': "s' = runNode_exit node s2"
    by (auto simp: runNode_def Let_def split: option.splits select_result.splits)
  have "run_frame s s1"
    using enter_frame [OF en] removeCleanup_frame [of s node] by (blast intro: run_frame_trans)
  moreover have "run_frame s1 (snd (runNode_start e node sd (Status_runNode e node) s1))"
    using start_frame by blast
  moreover have "run_frame (snd (runNode_start e node sd (Status_runNode e node) s1)) s'"
    unfolding s' by (rule exit_frame [OF wait_frame [OF w]])
  ultimately show ?thesis by (blast intro: run_frame_trans)
qed

lemma runNode_cleanup_removed:
  assumes t: "NodeType node = NodeTypeCleanupAfterEach \<or> NodeType node = NodeTypeCleanupAfterAll
              \<or> NodeType node = NodeTypeCleanupAfterSuite"
      and r: "runNode e node sd text s = Some (r, s')"
  shows "cleanupNodes s' = WithoutNode (cleanupNodes s) node"
proof -
  have rm: "cleanupNodes (runNode_removeCleanup node s) = WithoutNode (cleanupNodes s) node"
    using t by (auto simp: runNode_removeCleanup_def NodeType_Is_def)
  show ?thesis
  proof (cases "runNode_skipped e (Status_runNode e node) node")
    case True
    with r rm show ?thesis by (auto simp: runNode_def Let_def)
  next
    case False
    with r obtain s1 oc fl s2 where
      en: "runNode_enter e node text (runNode_removeCleanup node s) = Some s1" and
      w: "runNode_wait e node (runNode_waitGracePeriod (config s1) node)
            (runNode_pollProgressInterval (config s1) node) (body_events e node)
            (fst (runNode_start e node sd (Status_runNode e node) s1))
            (snd (runNode_start e node sd (Status_runNode e node) s1)) = Return oc fl s2" and
      s': "s' = runNode_exit node s2"
      by (auto simp: runNode_def Let_def split: option.splits select_result.splits)
    from enter_frame [OF en] have c1: "currentNode s1 = node" "cleanupNodes s1 = cleanupNodes (runNode_removeCleanup node s)"
      by auto
    have ct: "isCleanupType (NodeType node)" using t by (auto simp: isCleanupType_def)
    have "cleanupNodes (snd (runNode_start e node sd (Status_runNode e node) s1)) = cleanupNodes s1"
      using ct c1(1) by (simp add: runNode_start_def Let_def go_body_cleanup)
    moreover from wait_frame [OF w]
    have "cleanupNodes s2 = cleanupNodes (snd (runNode_start e node sd (Status_runNode e node) s1))"
      by (simp add: loop_frame_def)
    moreover have "cleanupNodes s' = cleanupNodes s2"
      unfolding s' by (simp add: runNode_exit_def Let_def sc_cancel_def split: option.splits)
    ultimately show ?thesis using c1(2) rm by simp
  qed
qed

lemma runNode_body_started:
  assumes "runNode e node sd text s = Some (r, s')"
      and "\<not> runNode_skipped e (Status_runNode e node) node"
  shows "Go_Body node \<in> set (trace s')"
proof -
  from assms obtain s1 oc fl s2 where
    w: "runNode_wait e node (runNode_waitGracePeriod (config s1) node)
          (runNode_pollProgressInterval (config s1) node) (body_events e node)
          (fst (runNode_start e node sd (Status_runNode e node) s1))
          (snd (runNode_start e node sd (Status_runNode e node) s1)) = Return oc fl s2" and
    s': "s' = runNode_exit node s2"
    by (auto simp: runNode_def Let_def split: option.splits select_result.splits)
  have "Go_Body node \<in> set (trace (snd (runNode_start e node sd (Status_runNode e node) s1)))"
    by (simp add: runNode_start_def Let_def go_body_trace)
  with wait_trace [OF w] have "Go_Body node \<in> set (trace s2)" by blast
  then show ?thesis unfolding s'
    by (simp add: runNode_exit_def Let_def)
qed

lemma runNode_trace:
  assumes "runNode e node sd t s = Some (r, s')"
  shows "set (trace s) \<subseteq> set (trace s')"
proof (cases "runNode_skipped e (Status_runNode e node) node")
  case True
  with assms show ?thesis by (auto simp: runNode_def Let_def runNode_removeCleanup_def)
next
  case False
  with assms obtain s1 oc fl s2 where
    en: "runNode_enter e node t (runNode_removeCleanup node s) = Some s1" and
    w: "runNode_wait e node (runNode_waitGracePeriod (config s1) node)
          (runNode_pollProgressInterval (config s1) node) (body_events e node)
          (fst (runNode_start e node sd (Status_runNode e node) s1))
          (snd (runNode_start e node sd (Status_runNode e node) s1)) = Return oc fl s2" and
    s': "s' = runNode_exit node s2"
    by (auto simp: runNode_def Let_def split: option.splits select_result.splits)
  from en have "trace s1 = trace s"
    by (auto simp: runNode_enter_def runNode_removeCleanup_def Let_def split: if_splits option.splits)
  moreover have "set (trace s1) \<subseteq> set (trace (snd (runNode_start e node sd (Status_runNode e node) s1)))"
    by (auto simp: runNode_start_def Let_def go_body_trace)
  moreover note wait_trace [OF w]
  moreover have "set (trace s2) \<subseteq> set (trace s')"
    unfolding s' by (auto simp: runNode_exit_def Let_def)
  ultimately show ?thesis by auto
qed

subsection \<open>Suite nodes\<close>

lemma run_frame_updates [simp]:
  "run_frame s (setStateAndFailure r s') = run_frame s s'"
  "run_frame s (interceptor_Start s') = run_frame s s'"
  "run_frame s (interceptor_StartAndForward s') = run_frame s s'"
  "run_frame s (snd (interceptor_Stop e s')) = run_frame s s'"
  "run_frame s (appendCapturedStdOutErr p) = run_frame s (snd p)"
  "run_frame s (s'\<lparr>trace := t\<rparr>) = run_frame s s'"
  by (simp_all add: run_frame_def setStateAndFailure_def interceptor_Start_def
        interceptor_StartAndForward_def interceptor_Stop_def appendCapturedStdOutErr_def)

lemma truncate_frame: "writer_Truncate s = Some s' \<Longrightarrow> run_frame s s'"
  by (auto simp: writer_Truncate_def run_frame_def split: option.splits)

lemma record_frame: "runNode_record e node s = Some s' \<Longrightarrow> run_frame s s'"
  by (auto simp: runNode_record_def split: option.splits dest: runNode_frame)

lemma block_frame: "client_BlockUntilNonprimaryProcsHaveFinished e s = Some (err, s') \<Longrightarrow> run_frame s s'"
  by (auto simp: client_BlockUntilNonprimaryProcsHaveFinished_def split: option.splits)

lemma cleanupAfterSuite_frame:
  "runSuiteNode_CleanupAfterSuite e node s = Some (err, s') \<Longrightarrow> run_frame s s'"
  by (auto simp: runSuiteNode_CleanupAfterSuite_def split: if_splits option.splits
       dest!: block_frame record_frame intro: run_frame_trans)

lemma sbs_proc1_frame:
  assumes "runSuiteNode_SynchronizedBeforeSuite_proc1 e node s = Some (d, ra, err, s')"
  shows "run_frame s s'"
proof -
  let ?s0 = "if ParallelTotal (config s) > 1
             then interceptor_StartAndForward (snd (interceptor_Stop e s)) else s"
  let ?n1 = "node\<lparr>Body := Body_SynchronizedBeforeSuiteProc1,
                    HasContext := SynchronizedBeforeSuiteProc1BodyHasContext node\<rparr>"
  have f0: "run_frame s ?s0" by simp
  from assms obtain s1 where rec: "runNode_record e ?n1 ?s0 = Some s1"
    by (auto simp: runSuiteNode_SynchronizedBeforeSuite_proc1_def Let_def split: option.splits)
  with assms have "run_frame s1 s'"
    by (auto simp: runSuiteNode_SynchronizedBeforeSuite_proc1_def Let_def split: if_splits)
  with record_frame [OF rec] f0 show ?thesis by (blast intro: run_frame_trans)
qed

lemma sbs_other_frame:
  "runSuiteNode_SynchronizedBeforeSuite_otherProcs e s = Some (d, ra, err, s') \<Longrightarrow> run_frame s s'"
  by (auto simp: runSuiteNode_SynchronizedBeforeSuite_otherProcs_def Let_def run_frame_def
        split: option.splits SpecState.splits)

lemma sbs_frame:
  "runSuiteNode_SynchronizedBeforeSuite e node s = Some (err, s') \<Longrightarrow> run_frame s s'"
  by (auto simp: runSuiteNode_SynchronizedBeforeSuite_def split: if_splits option.splits
        dest!: sbs_proc1_frame sbs_other_frame record_frame intro: run_frame_trans)

lemma sas_frame:
  assumes "runSuiteNode_SynchronizedAfterSuite e node s = Some (err, s')"
  shows "run_frame s s'"
proof -
  let ?n1 = "node\<lparr>Body := Body_SynchronizedAfterSuiteAllProcs,
                    HasContext := SynchronizedAfterSuiteAllProcsBodyHasContext node\<rparr>"
  from assms obtain s1 where rec: "runNode_record e ?n1 s = Some s1"
    by (auto simp: runSuiteNode_SynchronizedAfterSuite_def Let_def split: option.splits)
  have "run_frame s1 s'"
  proof (cases "SuiteConfig.ParallelProcess (config s1) = 1")
    case False
    with assms rec show ?thesis by (simp add: runSuiteNode_SynchronizedAfterSuite_def Let_def)
  next
    case True
    let ?b = "if ParallelTotal (config s1) > 1
              then client_BlockUntilNonprimaryProcsHaveFinished e s1 else Some (None, s1)"
    from assms rec True obtain er s2 where b: "?b = Some (er, s2)"
      by (auto simp: runSuiteNode_SynchronizedAfterSuite_def Let_def split: option.splits)
    then have f2: "run_frame s1 s2" by (auto split: if_splits dest: block_frame)
    show ?thesis
    proof (cases er)
      case (Some x)
      with assms rec True b have "s' = s2"
        by (auto simp: runSuiteNode_SynchronizedAfterSuite_def Let_def split: option.splits)
      with f2 show ?thesis by simp
    next
      case None
      let ?s3 = "if ParallelTotal (config s2) > 1
                 then interceptor_StartAndForward (appendCapturedStdOutErr (interceptor_Stop e s2))
                 else s2"
      have f3: "run_frame s2 ?s3" by simp
      from assms rec True b None obtain r s4 where
        rn: "runNode e (?n1\<lparr>Body := Body_SynchronizedAfterSuiteProc1,
                HasContext := SynchronizedAfterSuiteProc1BodyHasContext node\<rparr>) 0 [] ?s3 = Some (r, s4)"
        and s': "s' = (if SpecState_Is (State (currentSpecReport s4)) [SpecStatePassed]
                       then setStateAndFailure r s4 else s4)"
        by (auto simp: runSuiteNode_SynchronizedAfterSuite_def Let_def split: option.splits if_splits)
      from runNode_frame [OF rn] have "run_frame ?s3 s'" unfolding s' by simp
      with f2 f3 show ?thesis by (blast intro: run_frame_trans)
    qed
  qed
  with record_frame [OF rec] show ?thesis by (blast intro: run_frame_trans)
qed

lemma begin_frame: "runSuiteNode_begin e node s = Some s' \<Longrightarrow> run_frame s s'"
  by (auto simp: runSuiteNode_begin_def Let_def writer_Truncate_def run_frame_def
        interceptor_Start_def split: option.splits)

lemma switch_frame: "runSuiteNode_switch e node s = Some (err, s') \<Longrightarrow> run_frame s s'"
  by (cases "NodeType node")
     (auto simp: runSuiteNode_switch_def
           dest: record_frame cleanupAfterSuite_frame sbs_frame sas_frame)

lemma finish_frame: "runSuiteNode_finish e node err s = Some s' \<Longrightarrow> run_frame s s'"
  by (auto simp: runSuiteNode_finish_def Let_def run_frame_def setStateAndFailure_def
        appendCapturedStdOutErr_def interceptor_Stop_def split: option.splits if_splits)

lemma runSuiteNode_frame:
  assumes "runSuiteNode e node s = Some s'"
  shows "run_frame s s'"
proof (cases "DryRun (config s)")
  case True
  with assms show ?thesis by (auto simp: runSuiteNode_def run_frame_def)
next
  case False
  with assms obtain s1 err s2 where
    "runSuiteNode_begin e node s = Some s1" "runSuiteNode_switch e node s1 = Some (err, s2)"
    "runSuiteNode_finish e node err s2 = Some s'"
    by (auto simp: runSuiteNode_def split: option.splits)
  then show ?thesis
    by (blast intro: run_frame_trans dest: begin_frame switch_frame finish_frame)
qed

lemma finish_trace:
  "runSuiteNode_finish e node err s = Some s' \<Longrightarrow>
   trace s' = trace s @ [Interceptor_StopInterceptingAndReturnOutput]"
  by (auto simp: runSuiteNode_finish_def Let_def setStateAndFailure_def
        appendCapturedStdOutErr_def interceptor_Stop_def split: option.splits if_splits)

lemma sbs_switch_other:
  assumes "NodeType node = NodeTypeSynchronizedBeforeSuite"
      and "SuiteConfig.ParallelProcess (config s) \<noteq> 1"
      and "BlockUntilSynchronizedBeforeSuiteData e = Some (proc1State, data, err)"
  shows "runSuiteNode_switch e node s =
     (let s1 = s\<lparr>trace := trace s @ [Client_BlockUntilSynchronizedBeforeSuiteData]\<rparr> in
      if proc1State = SpecStatePassed then
        map_option (Pair err)
          (runNode_record e
             (node\<lparr>Body := Body_SynchronizedBeforeSuiteAllProcs data,
                   HasContext := SynchronizedBeforeSuiteAllProcsBodyHasContext node\<rparr>) s1)
      else if proc1State = SpecStateFailed \<or> proc1State = SpecStatePanicked
              \<or> proc1State = SpecStateTimedout then
        Some (Some SynchronizedBeforeSuiteFailedOnProc1, s1)
      else if proc1State = SpecStateInterrupted \<or> proc1State = SpecStateAborted
              \<or> proc1State = SpecStateSkipped then
        Some (err, s1\<lparr>currentSpecReport := (currentSpecReport s1)\<lparr>State := proc1State\<rparr>\<rparr>)
      else Some (err, s1))"
  using assms
  by (cases proc1State)
     (simp_all add: runSuiteNode_switch_def runSuiteNode_SynchronizedBeforeSuite_def
        runSuiteNode_SynchronizedBeforeSuite_otherProcs_def Let_def)

lemma begin_Some:
  "writer s = Some w \<Longrightarrow>
   runSuiteNode_begin e node s =
     Some (s\<lparr>writer := Some [], trace := trace s @ [Interceptor_StartInterceptingOutput],
             currentSpecReport := (currentSpecReport s)
               \<lparr>SpecReport.StartTime := Now e (Now_runSuiteNode_StartTime node)\<rparr>\<rparr>)"
  by (simp add: runSuiteNode_begin_def writer_Truncate_def interceptor_Start_def Let_def)

subsection \<open>The run of the specs\<close>

lemma grows_refl [simp]: "grows s s"
  by (simp add: grows_def)

lemma grows_trans: "grows s s1 \<Longrightarrow> grows s1 s2 \<Longrightarrow> grows s s2"
  by (auto simp: grows_def)

lemma run_frame_grows: "run_frame s s' \<Longrightarrow> grows s s'"
  by (simp add: run_frame_def grows_def)

lemma inv_frame: "run_frame s s' \<Longrightarrow> suite_inv s \<Longrightarrow> suite_inv s'"
  by (simp add: run_frame_def suite_inv_def)

lemma final_frame: "run_frame s s' \<Longrightarrow> final_inv e s \<Longrightarrow> final_inv e s'"
  by (simp add: run_frame_def final_inv_def)

lemma process_report:
  "SpecReports (report (processCurrentSpecReport s)) = SpecReports (report s) @ [currentSpecReport s]"
  "SpecialSuiteFailureReasons (report (processCurrentSpecReport s)) = SpecialSuiteFailureReasons (report s)"
  "Report.EndTime (report (processCurrentSpecReport s)) = Report.EndTime (report s)"
  "SuiteSucceeded (report (processCurrentSpecReport s)) = (SuiteSucceeded (report s) \<and> \<not> isSpecFailure (currentSpecReport s))"
  "phase (processCurrentSpecReport s) = phase s"
  "suiteNodes (processCurrentSpecReport s) = suiteNodes s"
  "cleanupNodes (processCurrentSpecReport s) = cleanupNodes s"
  "config (processCurrentSpecReport s) = config s"
  "deadline (processCurrentSpecReport s) = deadline s"
  "writer (processCurrentSpecReport s) = writer s"
  by (simp_all add: processCurrentSpecReport_def Let_def isSpecFailure_def)

lemma process_grows: "grows s (processCurrentSpecReport s)"
  by (simp add: grows_def process_report)

lemma inv_process: "suite_inv s \<Longrightarrow> suite_inv (processCurrentSpecReport s)"
  by (auto simp: suite_inv_def process_report)

lemma final_process: "final_inv e s \<Longrightarrow> final_inv e (processCurrentSpecReport s)"
  by (auto simp: final_inv_def process_report)

lemma willRun_facts:
  "report (willRunSuiteNode n t s) = report s"
  "phase (willRunSuiteNode n t s) = phase s"
  "suiteNodes (willRunSuiteNode n t s) = suiteNodes s"
  "cleanupNodes (willRunSuiteNode n t s) = cleanupNodes s"
  "config (willRunSuiteNode n t s) = config s"
  "deadline (willRunSuiteNode n t s) = deadline s"
  "writer (willRunSuiteNode n t s) = writer s"
  "LeafNodeType (currentSpecReport (willRunSuiteNode n t s)) = NodeType n"
  "LeafNodeLocation (currentSpecReport (willRunSuiteNode n t s)) = CodeLocation n"
  "State (currentSpecReport (willRunSuiteNode n t s)) = SpecStateInvalid"
  "Failure (currentSpecReport (willRunSuiteNode n t s)) = Failure_zero"
  by (simp_all add: willRunSuiteNode_def Let_def SpecReport_zero_def)

lemma willRun_grows: "grows s (willRunSuiteNode n t s)"
  by (simp add: grows_def willRun_facts)

lemma inv_willRun: "suite_inv (willRunSuiteNode n t s) = suite_inv s"
  by (simp add: suite_inv_def willRun_facts)

lemma final_willRun: "final_inv e (willRunSuiteNode n t s) = final_inv e s"
  by (simp add: final_inv_def willRun_facts)

lemma dispatch_reported:
  assumes "runSuiteNode e n (willRunSuiteNode n t s) = Some s1"
  shows "grows s (processCurrentSpecReport s1) \<and>
         (\<exists>r \<in> set (SpecReports (report (processCurrentSpecReport s1))).
            LeafNodeType r = NodeType n \<and> LeafNodeLocation r = CodeLocation n)"
proof -
  from runSuiteNode_frame [OF assms] have f: "run_frame (willRunSuiteNode n t s) s1" .
  then have "LeafNodeType (currentSpecReport s1) = NodeType n"
            "LeafNodeLocation (currentSpecReport s1) = CodeLocation n"
    by (simp_all add: run_frame_def willRun_facts)
  moreover have "grows s (processCurrentSpecReport s1)"
    using willRun_grows [of s n t] run_frame_grows [OF f] process_grows [of s1]
    by (blast intro: grows_trans)
  ultimately show ?thesis by (auto simp: process_report)
qed

lemma dispatch_inv:
  assumes "runSuiteNode e n (willRunSuiteNode n t s) = Some s1" "suite_inv s"
  shows "suite_inv (processCurrentSpecReport s1)"
  using inv_frame [OF runSuiteNode_frame [OF assms(1)]] assms(2)
  by (simp add: inv_willRun inv_process)

lemma runBeforeSuite_inv:
  assumes "runBeforeSuite e n s = Some s'" "suite_inv s"
  shows "suite_inv s' \<and> grows s s'"
proof (cases "\<not> Node_IsZero (FirstNodeWithType (suiteNodes s)
            [NodeTypeBeforeSuite, NodeTypeSynchronizedBeforeSuite]) \<and> n > 0")
  case False
  with assms show ?thesis by (auto simp: runBeforeSuite_def Let_def)
next
  case True
  let ?b = "FirstNodeWithType (suiteNodes s) [NodeTypeBeforeSuite, NodeTypeSynchronizedBeforeSuite]"
  from True assms(1) obtain s1 where
    rs: "runSuiteNode e ?b (willRunSuiteNode ?b [] s) = Some s1" and
    s': "s' = processCurrentSpecReport
                  (if SpecState_Is (State (currentSpecReport s1)) [SpecStateSkipped]
                   then s1\<lparr>report := (report s1)
                            \<lparr>SpecialSuiteFailureReasons :=
                               SpecialSuiteFailureReasons (report s1)
                               @ [''Suite skipped in BeforeSuite'']\<rparr>,
                          skipAll := True\<rparr>
                   else s1)" (is "s' = processCurrentSpecReport ?s2")
    by (auto simp: runBeforeSuite_def Let_def split: option.splits)
  from runSuiteNode_frame [OF rs] have f: "run_frame (willRunSuiteNode ?b [] s) s1" .
  with assms(2) have i1: "suite_inv s1" by (auto dest: inv_frame simp: inv_willRun)
  have i2: "suite_inv ?s2"
    using i1 by (auto simp: suite_inv_def isIterationOrPendingFailure_def isFailedToIterate_def)
  have g2: "grows s1 ?s2" by (simp add: grows_def)
  have "grows s s'"
    unfolding s'
    using willRun_grows [of s ?b "[]"] run_frame_grows [OF f] g2 process_grows [of ?s2]
    by (blast intro: grows_trans)
  with i2 show ?thesis unfolding s' by (simp add: inv_process)
qed

lemma group_run_inv:
  assumes "group_run e grp s = Some s'" "suite_inv s"
  shows "suite_inv s' \<and> grows s s'"
proof -
  have "\<And>s0. suite_inv s0 \<Longrightarrow> grows s s0 \<Longrightarrow>
     suite_inv (foldl (\<lambda>s' r. processCurrentSpecReport (s'\<lparr>currentSpecReport := r\<rparr>)) s0 rs) \<and>
     grows s (foldl (\<lambda>s' r. processCurrentSpecReport (s'\<lparr>currentSpecReport := r\<rparr>)) s0 rs)" for rs
  proof (induction rs)
    case Nil
    then show ?case by simp
  next
    case (Cons r rs)
    have a: "suite_inv (s0\<lparr>currentSpecReport := r\<rparr>)" using Cons.prems(1) by (simp add: suite_inv_def)
    have b: "grows s (s0\<lparr>currentSpecReport := r\<rparr>)" using Cons.prems(2) by (simp add: grows_def)
    from Cons.IH [OF inv_process [OF a] grows_trans [OF b process_grows]] show ?case by simp
  qed
  note fold = this
  from assms(1) obtain rs where
    s': "s' = foldl (\<lambda>s' r. processCurrentSpecReport (s'\<lparr>currentSpecReport := r\<rparr>))
                  (s\<lparr>trace := trace s @ [Group_run grp]\<rparr>) rs"
    by (auto simp: group_run_def split: option.splits)
  have "suite_inv (s\<lparr>trace := trace s @ [Group_run grp]\<rparr>)" using assms(2) by (simp add: suite_inv_def)
  moreover have "grows s (s\<lparr>trace := trace s @ [Group_run grp]\<rparr>)" by (simp add: grows_def)
  ultimately show ?thesis unfolding s' by (rule fold)
qed

lemma nextIndex_call_suite:
  "nextIndex_call c s = Some (r, c', s1) \<Longrightarrow> suite_inv s1 = suite_inv s \<and> grows s s1"
  by (auto simp: nextIndex_call_def suite_inv_def grows_def split: nextIndex.splits list.splits)

lemma failedToIterate_inv: "suite_inv (failedToIterate e err s) \<and> grows s (failedToIterate e err s)"
  by (simp add: failedToIterate_def suite_inv_def grows_def isIterationOrPendingFailure_def isFailedToIterate_def)

lemma block_suite:
  "client_BlockUntilNonprimaryProcsHaveFinished e s = Some (err, s') \<Longrightarrow> suite_inv s' = suite_inv s \<and> grows s s'"
  by (auto simp: client_BlockUntilNonprimaryProcsHaveFinished_def suite_inv_def grows_def split: option.splits)

lemma loop_inv_suite:
  "runSpecs_loop e specs g sg c s = Some s' \<Longrightarrow> suite_inv s \<Longrightarrow> suite_inv s' \<and> grows s s'"
proof (induction e specs g sg c s rule: runSpecs_loop.induct)
  case (1 e specs g sg c s)
  from "1.prems"(1) obtain r c' s1 where nc: "nextIndex_call c s = Some (r, c', s1)"
    by (subst (asm) runSpecs_loop.simps) (auto split: option.splits)
  from nextIndex_call_suite [OF nc] "1.prems"(2) have i1: "suite_inv s1" and g1: "grows s s1" by auto
  show ?case
  proof (cases r)
    case (Inl err)
    with "1.prems"(1) nc have "s' = failedToIterate e err s1"
      by (subst (asm) runSpecs_loop.simps) simp
    with failedToIterate_inv [of e err s1] g1 show ?thesis by (blast intro: grows_trans)
  next
    case (Inr idx)
    show ?thesis
    proof (cases "idx \<ge> int (length g)")
      case True
      show ?thesis
      proof (cases "SuiteConfig.ParallelProcess (config s1) = 1 \<and> length sg > 0")
        case False
        with True Inr nc "1.prems"(1) have "s' = s1"
          by (subst (asm) runSpecs_loop.simps) auto
        with i1 g1 show ?thesis by simp
      next
        case sw: True
        with True Inr nc "1.prems"(1) obtain er s2 where
          b: "client_BlockUntilNonprimaryProcsHaveFinished e s1 = Some (er, s2)" and
          rest: "runSpecs_loop e specs sg [] (IncrementingIndexCounter 0) s2 = Some s'"
          by (subst (asm) runSpecs_loop.simps) (auto split: option.splits)
        from block_suite [OF b] i1 have i2: "suite_inv s2" and g2: "grows s1 s2" by auto
        from "1.IH"(1) [OF nc refl Inr refl True _ b refl rest i2] sw
        have "suite_inv s' \<and> grows s2 s'" by simp
        with g1 g2 show ?thesis by (blast intro: grows_trans)
      qed
    next
      case False
      with Inr nc "1.prems"(1) obtain grp s2 where
        nn: "\<not> idx < 0" and
        at: "AtIndices specs (g ! nat idx) = Some grp" and
        gr: "group_run e grp s1 = Some s2" and
        rest: "runSpecs_loop e specs g sg c' s2 = Some s'"
        by (subst (asm) runSpecs_loop.simps) (auto split: option.splits if_splits)
      from group_run_inv [OF gr i1] have i2: "suite_inv s2" and g2: "grows s1 s2" by auto
      from "1.IH"(2) [OF nc refl Inr refl False nn at gr rest i2]
      have "suite_inv s' \<and> grows s2 s'" .
      with g1 g2 show ?thesis by (blast intro: grows_trans)
    qed
  qed
qed

lemma reported_grows: "grows s s' \<Longrightarrow> reported n s \<Longrightarrow> reported n s'"
  by (auto simp: grows_def reported_def)

lemma main_inv:
  assumes "runSpecs_main e specs s = Some s'" "suite_inv s"
  shows "suite_inv s' \<and> grows s s'"
proof -
  from assms(1) obtain s1 where
    l: "runSpecs_loop e specs (fst (OrderSpecs e specs (config s)))
             (snd (OrderSpecs e specs (config s)))
             (if isRunningInParallel s then ClientFetchNextCounter (FetchNextCounter e)
              else IncrementingIndexCounter 0) s = Some s1" and
    s': "s' = (if HasAnySpecsMarkedPending e specs \<and> FailOnPending (config s1)
                then s1\<lparr>report := (report s1)
                         \<lparr>SpecialSuiteFailureReasons :=
                            SpecialSuiteFailureReasons (report s1)
                            @ [''Detected pending specs and --fail-on-pending is set''],
                          SuiteSucceeded := False\<rparr>\<rparr>
                else s1)"
    by (auto simp: runSpecs_main_def split: option.splits)
  from loop_inv_suite [OF l assms(2)] have i1: "suite_inv s1" and g1: "grows s s1" by auto
  have "suite_inv s'" unfolding s' using i1
    by (simp add: suite_inv_def isIterationOrPendingFailure_def)
  moreover have "grows s1 s'" unfolding s' by (simp add: grows_def)
  ultimately show ?thesis using g1 by (blast intro: grows_trans)
qed

lemma afterSuite_inv:
  assumes "runAfterSuiteCleanup_afterSuite e n s = Some s'"
  shows "(suite_inv s \<longrightarrow> suite_inv s') \<and> grows s s' \<and>
         (\<not> Node_IsZero (FirstNodeWithType (suiteNodes s) [NodeTypeAfterSuite, NodeTypeSynchronizedAfterSuite])
            \<and> n > 0 \<longrightarrow>
          reported (FirstNodeWithType (suiteNodes s) [NodeTypeAfterSuite, NodeTypeSynchronizedAfterSuite]) s')"
proof (cases "\<not> Node_IsZero (FirstNodeWithType (suiteNodes s) [NodeTypeAfterSuite, NodeTypeSynchronizedAfterSuite]) \<and> n > 0")
  case False
  with assms show ?thesis by (auto simp: runAfterSuiteCleanup_afterSuite_def Let_def)
next
  case True
  let ?a = "FirstNodeWithType (suiteNodes s) [NodeTypeAfterSuite, NodeTypeSynchronizedAfterSuite]"
  from True assms obtain s1 where
    rs: "runSuiteNode e ?a (willRunSuiteNode ?a [] s) = Some s1" and s': "s' = processCurrentSpecReport s1"
    by (auto simp: runAfterSuiteCleanup_afterSuite_def Let_def)
  from dispatch_reported [OF rs] dispatch_inv [OF rs] show ?thesis
    unfolding s' by (auto simp: reported_def)
qed

lemma cleanup_loop_inv:
  "runAfterSuiteCleanup_loop e ns s = Some s' \<Longrightarrow>
   (suite_inv s \<longrightarrow> suite_inv s') \<and> grows s s' \<and> (\<forall>c \<in> set ns. reported c s')"
proof (induction ns arbitrary: s)
  case Nil
  then show ?case by simp
next
  case (Cons c ns)
  from Cons.prems obtain s1 where
    rs: "runSuiteNode e c (willRunSuiteNode c [] s) = Some s1" and
    rest: "runAfterSuiteCleanup_loop e ns (processCurrentSpecReport s1) = Some s'"
    by (auto split: option.splits)
  from dispatch_reported [OF rs] have g1: "grows s (processCurrentSpecReport s1)"
    and r1: "reported c (processCurrentSpecReport s1)" by (auto simp: reported_def)
  from Cons.IH [OF rest] have ih: "suite_inv (processCurrentSpecReport s1) \<longrightarrow> suite_inv s'"
    "grows (processCurrentSpecReport s1) s'" "\<forall>c \<in> set ns. reported c s'" by auto
  from dispatch_inv [OF rs] ih(1) have "suite_inv s \<longrightarrow> suite_inv s'" by blast
  moreover from g1 ih(2) have "grows s s'" by (rule grows_trans)
  moreover from reported_grows [OF ih(2) r1] ih(3) have "\<forall>c \<in> set (c # ns). reported c s'" by simp
  ultimately show ?case by blast
qed

lemma finish_facts:
  "SpecReports (report (runSpecs_finish e s)) = SpecReports (report s)"
  "phase (runSpecs_finish e s) = phase s"
  "suiteNodes (runSpecs_finish e s) = suiteNodes s"
  "config (runSpecs_finish e s) = config s"
  "deadline (runSpecs_finish e s) = deadline s"
  by (simp_all add: runSpecs_finish_def Let_def)

lemma finish_final: "suite_inv s \<Longrightarrow> final_inv e (runSpecs_finish e s)"
  by (auto simp: suite_inv_def final_inv_def runSpecs_finish_def Let_def)

lemma reportNode_frame:
  assumes "runReportAfterSuiteNode e node rep s = Some s'"
  shows "run_frame s s'"
proof -
  from assms obtain s1 where tr: "writer_Truncate s = Some s1"
    by (auto simp: runReportAfterSuiteNode_def split: option.splits)
  let ?s2 = "(interceptor_Start s1)\<lparr>currentSpecReport := (currentSpecReport (interceptor_Start s1))
                     \<lparr>SpecReport.StartTime := Now e (Now_runReportAfterSuiteNode_StartTime node)\<rparr>\<rparr>"
  have f2: "run_frame s ?s2"
    using truncate_frame [OF tr] by (simp add: run_frame_def interceptor_Start_def)
  from assms tr obtain rep' err s3 where
    ag: "runReportAfterSuiteNode_aggregate e rep ?s2 = Some (rep', err, s3)"
    by (auto simp: runReportAfterSuiteNode_def Let_def split: option.splits)
  then have f3: "run_frame ?s2 s3"
    by (auto simp: runReportAfterSuiteNode_aggregate_def run_frame_def split: if_splits option.splits)
  have "run_frame s3 s'"
  proof (cases err)
    case (Some x)
    with assms tr ag show ?thesis by (auto simp: runReportAfterSuiteNode_def Let_def)
  next
    case None
    with assms tr ag obtain s4 where
      rn: "runNode_record e (node\<lparr>Body := Body_ReportAfterSuite rep'\<rparr>) s3 = Some s4" and
      fin: "runReportAfterSuiteNode_finish e node s4 = Some s'"
      by (auto simp: runReportAfterSuiteNode_def Let_def split: option.splits)
    from fin have "run_frame s4 s'"
      by (auto simp: runReportAfterSuiteNode_finish_def Let_def run_frame_def interceptor_Stop_def
            split: option.splits)
    with record_frame [OF rn] show ?thesis by (blast intro: run_frame_trans)
  qed
  with f2 f3 show ?thesis by (blast intro: run_frame_trans)
qed

lemma report_loop_final:
  "runReportAfterSuite_loop e ns s = Some s' \<Longrightarrow>
   (final_inv e s \<longrightarrow> final_inv e s') \<and> grows s s'"
proof (induction ns arbitrary: s)
  case Nil
  then show ?case by simp
next
  case (Cons n ns)
  from Cons.prems obtain s1 where
    rs: "runReportAfterSuiteNode e n (report s) (willRunSuiteNode n (Text n) s) = Some s1" and
    rest: "runReportAfterSuite_loop e ns (processCurrentSpecReport s1) = Some s'"
    by (auto split: option.splits)
  from reportNode_frame [OF rs] have f: "run_frame (willRunSuiteNode n (Text n) s) s1" .
  have "final_inv e s \<longrightarrow> final_inv e (processCurrentSpecReport s1)"
    using final_frame [OF f] by (auto simp: final_willRun intro: final_process)
  moreover have "grows s (processCurrentSpecReport s1)"
    using willRun_grows [of s n "Text n"] run_frame_grows [OF f] process_grows [of s1]
    by (blast intro: grows_trans)
  ultimately show ?case using Cons.IH [OF rest] by (blast intro: grows_trans)
qed

lemma begin_facts:
  "suite_inv (runSpecs_begin e d l p h specs s)"
  "suiteNodes (runSpecs_begin e d l p h specs s) = suiteNodes s"
  "deadline (runSpecs_begin e d l p h specs s) = deadline s"
  "config (runSpecs_begin e d l p h specs s) = config s"
  by (simp_all add: runSpecs_begin_def Let_def suite_inv_def Report_zero_def)

lemma runSpecs_phases:
  assumes "runSpecs e d l p h specs s = Some (b, s')"
  obtains s0 s1 s2 s3 s4 where
    "runBeforeSuite e (CountWithoutSkip specs) (runSpecs_begin e d l p h specs s) = Some s0"
    "(if SuiteSucceeded (report s0) then runSpecs_main e specs s0 else Some s0) = Some s1"
    "runAfterSuiteCleanup_afterSuite e (CountWithoutSkip specs) s1 = Some s2"
    "runAfterSuiteCleanup_loop e (Reverse (WithType (cleanupNodes s2) [NodeTypeCleanupAfterSuite])) s2 = Some s3"
    "(if SuiteConfig.ParallelProcess (config s3) = 1
      then runReportAfterSuite e (runSpecs_finish e s3) else Some (runSpecs_finish e s3)) = Some s4"
    "runSpecs_end s4 = (b, s')"
proof -
  from assms obtain s0 s1 s3 s4 where
    a: "runBeforeSuite e (CountWithoutSkip specs) (runSpecs_begin e d l p h specs s) = Some s0" and
    b: "(if SuiteSucceeded (report s0) then runSpecs_main e specs s0 else Some s0) = Some s1" and
    c: "runAfterSuiteCleanup e (CountWithoutSkip specs) s1 = Some s3" and
    d: "(if SuiteConfig.ParallelProcess (config s3) = 1
      then runReportAfterSuite e (runSpecs_finish e s3) else Some (runSpecs_finish e s3)) = Some s4" and
    e: "runSpecs_end s4 = (b, s')"
    unfolding runSpecs_def Let_def
    by (auto split: option.splits)
  from c obtain s2 where
    "runAfterSuiteCleanup_afterSuite e (CountWithoutSkip specs) s1 = Some s2"
    "runAfterSuiteCleanup_loop e (Reverse (WithType (cleanupNodes s2) [NodeTypeCleanupAfterSuite])) s2 = Some s3"
    by (auto simp: runAfterSuiteCleanup_def split: option.splits)
  with a b d e that show thesis by blast
qed

lemma end_facts:
  "runSpecs_end s = (b, s') \<Longrightarrow> b = SuiteSucceeded (report s) \<and> report s' = report s \<and> deadline s' = deadline s"
  by (auto simp: runSpecs_end_def)

lemma reportAfterSuite_final:
  assumes "(if SuiteConfig.ParallelProcess (config s3) = 1
      then runReportAfterSuite e (runSpecs_finish e s3) else Some (runSpecs_finish e s3)) = Some s4"
  shows "(suite_inv s3 \<longrightarrow> final_inv e s4) \<and> deadline s4 = deadline s3 \<and>
         (\<exists>rs. SpecReports (report s4) = SpecReports (report s3) @ rs)"
proof (cases "SuiteConfig.ParallelProcess (config s3) = 1")
  case False
  with assms show ?thesis by (auto simp: finish_final finish_facts)
next
  case True
  with assms have "runReportAfterSuite_loop e (WithType (suiteNodes (runSpecs_finish e s3))
     [NodeTypeReportAfterSuite]) (runSpecs_finish e s3) = Some s4"
    by (simp add: runReportAfterSuite_def)
  from report_loop_final [OF this] show ?thesis
    by (auto simp: finish_final finish_facts grows_def)
qed

subsection \<open>Report entries\<close>

lemma entries_append:
  "slice_entries (snd (slice_append sl x h)) (fst (slice_append sl x h)) = slice_entries h sl @ [x]"
  by (simp add: slice_append_def slice_entries_def)

lemma mutate_keeps:
  "mutate m (sl, h) = Some (sl', h') \<Longrightarrow> n \<le> ptr sl \<Longrightarrow> ptr sl < fresh h \<Longrightarrow> n \<le> fresh h \<Longrightarrow>
   n \<le> ptr sl' \<and> ptr sl' < fresh h' \<and> untouched n h h'"
  by (cases m) (auto simp: slice_append_def untouched_def split: if_splits)

lemma mutate_all_keeps:
  "mutate_all ms (sl, h) = Some (sl', h') \<Longrightarrow> n \<le> ptr sl \<Longrightarrow> ptr sl < fresh h \<Longrightarrow>
   n \<le> ptr sl' \<and> ptr sl' < fresh h' \<and> untouched n h h'"
proof (induction ms arbitrary: sl h)
  case Nil
  then show ?case by (simp add: untouched_def)
next
  case (Cons m ms)
  from Cons.prems(1) obtain sl1 h1 where
    m: "mutate m (sl, h) = Some (sl1, h1)" and rest: "mutate_all ms (sl1, h1) = Some (sl', h')"
    by (auto split: option.splits)
  from mutate_keeps [OF m Cons.prems(2,3)] Cons.prems have k1: "n \<le> ptr sl1" "ptr sl1 < fresh h1" "untouched n h h1"
    by auto
  from Cons.IH [OF rest k1(1,2)] k1(3) show ?case by (auto simp: untouched_def)
qed

lemma current_entries:
  assumes "ptr (ReportEntries (currentSpecReport s)) < fresh h"
  shows "slice_entries (snd (snd (CurrentSpecReport s h))) (ReportEntries (fst (CurrentSpecReport s h)))
         = slice_entries h (ReportEntries (currentSpecReport s))"
  using assms
  by (auto simp: CurrentSpecReport_def Let_def slice_make_def slice_copy_def slice_entries_def
        split: option.splits)

lemma current_facts:
  "fst (snd (CurrentSpecReport s h)) = s"
  "ptr (ReportEntries (fst (CurrentSpecReport s h))) = fresh h"
  "fresh (snd (snd (CurrentSpecReport s h))) = Suc (fresh h)"
  "untouched (fresh h) h (snd (snd (CurrentSpecReport s h)))"
  "(fst (CurrentSpecReport s h))\<lparr>ReportEntries := slice_nil\<rparr> =
     (case writer s of None \<Rightarrow> currentSpecReport s
      | Some written \<Rightarrow> (currentSpecReport s)\<lparr>SpecReport.CapturedGinkgoWriterOutput := written\<rparr>)
     \<lparr>ReportEntries := slice_nil\<rparr>"
  by (auto simp: CurrentSpecReport_def Let_def slice_make_def slice_copy_def untouched_def
        split: option.splits)

lemma untouched_entries:
  "untouched n h h' \<Longrightarrow> ptr sl < n \<Longrightarrow> slice_entries h' sl = slice_entries h sl"
  by (simp add: untouched_def slice_entries_def)

subsection \<open>Grace periods of a whole run of a node\<close>

lemma start_graceWaits:
  "graceWaits (trace (snd (runNode_start e node sd st s))) = graceWaits (trace s) \<and>
   gracePeriodChannel (fst (runNode_start e node sd st s)) = None"
  by (simp add: runNode_start_def Let_def go_body_trace)

lemma runNode_graceWaits:
  assumes "runNode e node sd t s = Some (r, s')"
  shows "graceWaits (trace s') \<le> graceWaits (trace s) + 1"
proof (cases "runNode_skipped e (Status_runNode e node) node")
  case True
  with assms show ?thesis by (auto simp: runNode_def Let_def runNode_removeCleanup_def)
next
  case False
  with assms obtain s1 oc fl s2 where
    en: "runNode_enter e node t (runNode_removeCleanup node s) = Some s1" and
    w: "runNode_wait e node (runNode_waitGracePeriod (config s1) node)
          (runNode_pollProgressInterval (config s1) node) (body_events e node)
          (fst (runNode_start e node sd (Status_runNode e node) s1))
          (snd (runNode_start e node sd (Status_runNode e node) s1)) = Return oc fl s2" and
    s': "s' = runNode_exit node s2"
    by (auto simp: runNode_def Let_def split: option.splits select_result.splits)
  from en have t1: "trace s1 = trace s"
    by (auto simp: runNode_enter_def runNode_removeCleanup_def Let_def split: if_splits option.splits)
  have i0: "loop_inv (fst (runNode_start e node sd (Status_runNode e node) s1))"
    by (simp add: loop_inv_def start_graceWaits)
  from wait_Return [OF i0 w]
  have "graceWaits (trace s2) \<le> graceWaits (trace s1) + 1"
    by (simp add: budget_def start_graceWaits)
  moreover have "graceWaits (trace s') = graceWaits (trace s2)"
    unfolding s' by (simp add: runNode_exit_def Let_def)
  ultimately show ?thesis using t1 by simp
qed

subsection \<open>Grace periods and leak reports of a whole run of a node\<close>

lemma graceDurations_simps [simp]:
  "graceDurations [] = []"
  "graceDurations (x # xs) = graceDuration x @ graceDurations xs"
  "graceDurations (xs @ ys) = graceDurations xs @ graceDurations ys"
  by (simp_all add: graceDurations_def)

lemma leakReports_simps [simp]:
  "leakReports [] = []"
  "leakReports (x # xs) = (if isLeakReport x then x # leakReports xs else leakReports xs)"
  "leakReports (xs @ ys) = leakReports xs @ leakReports ys"
  by (simp_all add: leakReports_def)

lemma suffix_differs:
  "take (length sfx) (rev x) \<noteq> rev sfx \<Longrightarrow> p @ m @ sfx \<noteq> x"
  by auto

lemma leaked_not_polling: "message_polling \<noteq> message_leaked"
  by (simp add: message_polling_def message_leaked_def)

lemma leaked_not_empty: "[] \<noteq> message_leaked"
  by (simp add: message_leaked_def)

lemma leaked_not_final: "message_finalInterrupt st \<noteq> message_leaked"
  unfolding message_finalInterrupt_def message_leaked_def
  by (rule suffix_differs) simp

lemma leaked_not_first: "message_firstInterrupt st \<noteq> message_leaked"
  unfolding message_firstInterrupt_def message_leaked_def
  by (rule suffix_differs) simp

lemma leaked_not_second: "message_secondInterrupt st \<noteq> message_leaked"
  unfolding message_secondInterrupt_def message_leaked_def
  by (rule suffix_differs) simp

lemmas leaked_not = leaked_not_polling leaked_not_empty leaked_not_final leaked_not_first leaked_not_second

lemma emit_leak:
  "leakReports (trace (emitProgressReport pr s)) =
     leakReports (trace s) @ (if ProgressReport.Message pr = message_leaked then [Reporter_EmitProgressReport pr] else [])"
  "graceDurations (trace (emitProgressReport pr s)) = graceDurations (trace s)"
  by (simp_all add: emitProgressReport_def)

lemma generated_message:
  "generateProgressReport e b s = Some pr \<Longrightarrow> ProgressReport.Message pr = []"
  by (auto simp: generateProgressReport_def split: option.splits)

lemma step_grace_Continue:
  "grace_inv gp t0 v s \<Longrightarrow> runNode_select e node gp ppi ev v s = Continue v' s' \<Longrightarrow>
   grace_inv gp t0 v' s'"
  by (cases ev)
     (auto simp: select_defs grace_inv_def loop_inv_def Let_def emit_leak leaked_not generated_message
        split: option.splits if_splits)

lemma step_grace_Return:
  "grace_inv gp t0 v s \<Longrightarrow> runNode_select e node gp ppi ev v s = Return oc fl s' \<Longrightarrow>
   graceDurations (trace s') = graceDurations (trace s) \<and>
   (leakReports (trace s') \<noteq> leakReports (trace s) \<longrightarrow>
      HasContext node \<and> oc = SpecStateTimedout \<and> ev = GracePeriodElapsed)"
  by (cases ev)
     (auto simp: select_defs grace_inv_def Let_def emit_leak leaked_not generated_message
        SpecState_Is_def ProgressReport_zero_def
        split: option.splits if_splits)


lemma wait_grace:
  "grace_inv gp t0 v s \<Longrightarrow> runNode_wait e node gp ppi evs v s = Return oc fl s' \<Longrightarrow>
   (graceDurations (trace s') = graceDurations t0 \<or>
    graceDurations (trace s') = graceDurations t0 @ [gp]) \<and>
   (leakReports (trace s') \<noteq> leakReports t0 \<longrightarrow> HasContext node \<and> oc = SpecStateTimedout)"
proof (induction evs arbitrary: v s)
  case Nil
  then show ?case by simp
next
  case (Cons ev evs)
  show ?case
  proof (cases "runNode_select e node gp ppi ev v s")
    case (Return oc1 fl1 s1)
    with Cons.prems(2) have "s1 = s'" "oc1 = oc" by simp_all
    with step_grace_Return [OF Cons.prems(1) Return] Cons.prems(1)
    show ?thesis by (auto simp: grace_inv_def)
  next
    case (Continue v1 s1)
    with Cons.prems(2) have rest: "runNode_wait e node gp ppi evs v1 s1 = Return oc fl s'" by simp
    from Cons.IH [OF step_grace_Continue [OF Cons.prems(1) Continue] rest] show ?thesis .
  next
    case Panic
    with Cons.prems(2) show ?thesis by simp
  qed
qed

lemma start_grace:
  "grace_inv gp (trace s) (fst (runNode_start e node sd st s)) (snd (runNode_start e node sd st s))"
  by (simp add: grace_inv_def loop_inv_def runNode_start_def Let_def go_body_trace)

lemma exit_grace:
  "graceDurations (trace (runNode_exit node s)) = graceDurations (trace s)"
  "leakReports (trace (runNode_exit node s)) = leakReports (trace s)"
  by (simp_all add: runNode_exit_def Let_def)

lemma runNode_grace:
  assumes "runNode e node sd t s = Some ((oc, fl), s')"
  shows "(graceDurations (trace s') = graceDurations (trace s) \<or>
          graceDurations (trace s') =
            graceDurations (trace s) @ [runNode_waitGracePeriod (config s) node]) \<and>
         (leakReports (trace s') \<noteq> leakReports (trace s) \<longrightarrow> HasContext node \<and> oc = SpecStateTimedout)"
proof (cases "runNode_skipped e (Status_runNode e node) node")
  case True
  with assms show ?thesis by (auto simp: runNode_def Let_def runNode_removeCleanup_def)
next
  case False
  with assms obtain s1 s2 where
    en: "runNode_enter e node t (runNode_removeCleanup node s) = Some s1" and
    w: "runNode_wait e node (runNode_waitGracePeriod (config s1) node)
          (runNode_pollProgressInterval (config s1) node) (body_events e node)
          (fst (runNode_start e node sd (Status_runNode e node) s1))
          (snd (runNode_start e node sd (Status_runNode e node) s1)) = Return oc fl s2" and
    s': "s' = runNode_exit node s2"
    by (auto simp: runNode_def Let_def split: option.splits select_result.splits)
  from en have t1: "trace s1 = trace s" "config s1 = config s"
    by (auto simp: runNode_enter_def runNode_removeCleanup_def Let_def split: if_splits option.splits)
  from wait_grace [OF start_grace w] show ?thesis
    unfolding s' by (simp add: exit_grace t1)
qed


lemma enter_Some:
  assumes "writer s = Some written"
  shows "\<exists>s1 w1. runNode_enter e node t (runNode_removeCleanup node s) = Some s1 \<and>
           writer s1 = Some w1 \<and> trace s1 = trace s \<and> config s1 = config s \<and>
           deadline s1 = deadline s"
  using assms
  by (simp add: runNode_enter_def runNode_removeCleanup_def Let_def)

lemma start_vars:
  "outcome (fst (runNode_start e node sd st s)) = SpecStateInvalid"
  "gracePeriodChannel (fst (runNode_start e node sd st s)) = None"
  "\<not> Time_IsZero (runNode_deadline (deadline s) sd (Now e (Now_runNode_now node)) (NodeTimeout node)
                  (runNode_gracePeriod (config s) node) (Interrupted st)) \<Longrightarrow>
   deadlineChannel (fst (runNode_start e node sd st s)) \<noteq> None"
  "writer (snd (runNode_start e node sd st s)) = writer s"
  by (simp_all add: runNode_start_def Let_def go_body_frame)

lemma deadline_then_grace:
  assumes "\<not> HasContext node" "deadlineChannel v = Some d" "writer s = Some written"
  shows "\<exists>fl s'. runNode_wait e node gp ppi (DeadlineElapsed # GracePeriodElapsed # rest) v s
                    = Return SpecStateTimedout fl s' \<and>
                  Failure.Message fl = ''Timedout'' \<and>
                  graceDurations (trace s') = graceDurations (trace s) @ [gp] \<and>
                  leakReports (trace s') = leakReports (trace s)"
  using assms
  by (simp add: select_defs generateProgressReport_def)

lemma interrupt_then_grace:
  assumes "\<not> HasContext node" "outcome v = SpecStateInvalid" "gracePeriodChannel v = None"
          "Level st \<noteq> InterruptLevelBailOut" "writer s = Some written"
  shows "\<exists>fl s'. runNode_wait e node gp ppi (InterruptReceived st # GracePeriodElapsed # rest) v s
                    = Return SpecStateInterrupted fl s' \<and>
                  Failure.Message fl = InterruptStatus.Message st \<and>
                  graceDurations (trace s') = graceDurations (trace s) @ [gp] \<and>
                  leakReports (trace s') = leakReports (trace s)"
  using assms
  by (simp add: select_defs generateProgressReport_def Let_def emit_leak leaked_not)


lemma deadline_then_leak:
  assumes "HasContext node" "deadlineChannel v = Some d" "writer s = Some written"
  shows "\<exists>fl s' pr. runNode_wait e node gp ppi (DeadlineElapsed # GracePeriodElapsed # rest) v s
                    = Return SpecStateTimedout fl s' \<and>
                  graceDurations (trace s') = graceDurations (trace s) @ [gp] \<and>
                  ProgressReport.Message pr = message_leaked \<and>
                  leakReports (trace s') = leakReports (trace s) @ [Reporter_EmitProgressReport pr]"
  using assms
  by (simp add: select_defs generateProgressReport_def SpecState_Is_def emit_leak sc_cancel_def
        split: option.splits)

lemma runNode_from_wait:
  assumes ns: "\<not> runNode_skipped e (Status_runNode e node) node" and w: "writer s = Some written"
      and run: "\<And>s1 w1. writer s1 = Some w1 \<Longrightarrow> trace s1 = trace s \<Longrightarrow> config s1 = config s \<Longrightarrow>
         deadline s1 = deadline s \<Longrightarrow>
         \<exists>oc2 fl2 s2. runNode_wait e node (runNode_waitGracePeriod (config s) node)
            (runNode_pollProgressInterval (config s) node) (body_events e node)
            (fst (runNode_start e node sd (Status_runNode e node) s1))
            (snd (runNode_start e node sd (Status_runNode e node) s1)) = Return oc2 fl2 s2 \<and>
            P oc2 fl2 (runNode_exit node s2)"
  shows "\<exists>oc2 fl2 s2. runNode e node sd t s = Some ((oc2, fl2), s2) \<and> P oc2 fl2 s2"
proof -
  from enter_Some [OF w, of e node t] obtain s1 w1 where
    en: "runNode_enter e node t (runNode_removeCleanup node s) = Some s1" and
    f: "writer s1 = Some w1" "trace s1 = trace s" "config s1 = config s" "deadline s1 = deadline s"
    by blast
  from run [OF f] obtain oc2 fl2 s2 where
    "runNode_wait e node (runNode_waitGracePeriod (config s) node)
          (runNode_pollProgressInterval (config s) node) (body_events e node)
          (fst (runNode_start e node sd (Status_runNode e node) s1))
          (snd (runNode_start e node sd (Status_runNode e node) s1)) = Return oc2 fl2 s2"
    "P oc2 fl2 (runNode_exit node s2)" by blast
  with ns en f(3) show ?thesis by (simp add: runNode_def Let_def)
qed

lemma start_traces:
  "graceDurations (trace (snd (runNode_start e node sd st s))) = graceDurations (trace s)"
  "leakReports (trace (snd (runNode_start e node sd st s))) = leakReports (trace s)"
  using start_grace [of gp s e node sd st] by (simp_all add: grace_inv_def start_vars)

lemma runNode_deadline_no_context:
  assumes nc: "\<not> HasContext node"
      and ns: "\<not> runNode_skipped e (Status_runNode e node) node" and w: "writer s = Some written"
      and dl: "\<not> Time_IsZero (runNode_deadline (deadline s) sd (Now e (Now_runNode_now node))
                        (NodeTimeout node) (runNode_gracePeriod (config s) node)
                        (Interrupted (Status_runNode e node)))"
      and ev: "body_events e node = DeadlineElapsed # GracePeriodElapsed # rest"
  shows "\<exists>fl1 s1. runNode e node sd t s = Some ((SpecStateTimedout, fl1), s1) \<and>
               Failure.Message fl1 = ''Timedout'' \<and>
               graceDurations (trace s1) = graceDurations (trace s) @ [0] \<and>
               leakReports (trace s1) = leakReports (trace s)"
proof -
  have "\<exists>oc2 fl2 s2. runNode e node sd t s = Some ((oc2, fl2), s2) \<and>
          (oc2 = SpecStateTimedout \<and> Failure.Message fl2 = ''Timedout'' \<and>
           graceDurations (trace s2) = graceDurations (trace s) @ [0] \<and>
           leakReports (trace s2) = leakReports (trace s))"
  proof (rule runNode_from_wait [OF ns w])
    fix s1 :: Suite and w1
    assume f: "writer s1 = Some w1" "trace s1 = trace s" "config s1 = config s" "deadline s1 = deadline s"
    let ?v = "fst (runNode_start e node sd (Status_runNode e node) s1)"
    let ?s = "snd (runNode_start e node sd (Status_runNode e node) s1)"
    from start_vars(3) [of s1 sd e node "Status_runNode e node"] dl f
    obtain d where d: "deadlineChannel ?v = Some d" by auto
    have ws: "writer ?s = Some w1" using f by (simp add: start_vars)
    from deadline_then_grace [OF nc d ws, of e "runNode_waitGracePeriod (config s) node"
        "runNode_pollProgressInterval (config s) node" rest]
    show "\<exists>oc2 fl2 s2. runNode_wait e node (runNode_waitGracePeriod (config s) node)
            (runNode_pollProgressInterval (config s) node) (body_events e node) ?v ?s = Return oc2 fl2 s2 \<and>
            (oc2 = SpecStateTimedout \<and> Failure.Message fl2 = ''Timedout'' \<and>
             graceDurations (trace (runNode_exit node s2)) = graceDurations (trace s) @ [0] \<and>
             leakReports (trace (runNode_exit node s2)) = leakReports (trace s))"
      using nc f by (auto simp: ev exit_grace start_traces runNode_waitGracePeriod_def)
  qed
  then show ?thesis by blast
qed

lemma runNode_deadline_context:
  assumes hc: "HasContext node"
      and ns: "\<not> runNode_skipped e (Status_runNode e node) node" and w: "writer s = Some written"
      and dl: "\<not> Time_IsZero (runNode_deadline (deadline s) sd (Now e (Now_runNode_now node))
                        (NodeTimeout node) (runNode_gracePeriod (config s) node)
                        (Interrupted (Status_runNode e node)))"
      and ev: "body_events e node = DeadlineElapsed # GracePeriodElapsed # rest"
  shows "\<exists>fl1 s1 pr. runNode e node sd t s = Some ((SpecStateTimedout, fl1), s1) \<and>
               graceDurations (trace s1) =
                 graceDurations (trace s) @ [runNode_gracePeriod (config s) node] \<and>
               ProgressReport.Message pr = message_leaked \<and>
               leakReports (trace s1) = leakReports (trace s) @ [Reporter_EmitProgressReport pr]"
proof -
  have "\<exists>oc2 fl2 s2. runNode e node sd t s = Some ((oc2, fl2), s2) \<and>
          (oc2 = SpecStateTimedout \<and>
           graceDurations (trace s2) = graceDurations (trace s) @ [runNode_gracePeriod (config s) node] \<and>
           (\<exists>pr. ProgressReport.Message pr = message_leaked \<and>
              leakReports (trace s2) = leakReports (trace s) @ [Reporter_EmitProgressReport pr]))"
  proof (rule runNode_from_wait [OF ns w])
    fix s1 :: Suite and w1
    assume f: "writer s1 = Some w1" "trace s1 = trace s" "config s1 = config s" "deadline s1 = deadline s"
    let ?v = "fst (runNode_start e node sd (Status_runNode e node) s1)"
    let ?s = "snd (runNode_start e node sd (Status_runNode e node) s1)"
    from start_vars(3) [of s1 sd e node "Status_runNode e node"] dl f
    obtain d where d: "deadlineChannel ?v = Some d" by auto
    have ws: "writer ?s = Some w1" using f by (simp add: start_vars)
    from deadline_then_leak [OF hc d ws, of e "runNode_waitGracePeriod (config s) node"
        "runNode_pollProgressInterval (config s) node" rest]
    show "\<exists>oc2 fl2 s2. runNode_wait e node (runNode_waitGracePeriod (config s) node)
            (runNode_pollProgressInterval (config s) node) (body_events e node) ?v ?s = Return oc2 fl2 s2 \<and>
            (oc2 = SpecStateTimedout \<and>
             graceDurations (trace (runNode_exit node s2)) =
               graceDurations (trace s) @ [runNode_gracePeriod (config s) node] \<and>
             (\<exists>pr. ProgressReport.Message pr = message_leaked \<and>
                leakReports (trace (runNode_exit node s2)) =
                  leakReports (trace s) @ [Reporter_EmitProgressReport pr]))"
      using hc f by (auto simp: ev exit_grace start_traces runNode_waitGracePeriod_def)
  qed
  then show ?thesis by blast
qed

lemma runNode_interrupt_no_context:
  assumes nc: "\<not> HasContext node"
      and ns: "\<not> runNode_skipped e (Status_runNode e node) node" and w: "writer s = Some written"
      and lv: "Level st \<noteq> InterruptLevelBailOut"
      and ev: "body_events e node = InterruptReceived st # GracePeriodElapsed # rest"
  shows "\<exists>fl1 s1. runNode e node sd t s = Some ((SpecStateInterrupted, fl1), s1) \<and>
               Failure.Message fl1 = InterruptStatus.Message st \<and>
               graceDurations (trace s1) = graceDurations (trace s) @ [0] \<and>
               leakReports (trace s1) = leakReports (trace s)"
proof -
  have "\<exists>oc2 fl2 s2. runNode e node sd t s = Some ((oc2, fl2), s2) \<and>
          (oc2 = SpecStateInterrupted \<and> Failure.Message fl2 = InterruptStatus.Message st \<and>
           graceDurations (trace s2) = graceDurations (trace s) @ [0] \<and>
           leakReports (trace s2) = leakReports (trace s))"
  proof (rule runNode_from_wait [OF ns w])
    fix s1 :: Suite and w1
    assume f: "writer s1 = Some w1" "trace s1 = trace s" "config s1 = config s" "deadline s1 = deadline s"
    let ?v = "fst (runNode_start e node sd (Status_runNode e node) s1)"
    let ?s = "snd (runNode_start e node sd (Status_runNode e node) s1)"
    have ws: "writer ?s = Some w1" using f by (simp add: start_vars)
    from interrupt_then_grace [OF nc start_vars(1) start_vars(2) lv ws,
        of e "runNode_waitGracePeriod (config s) node"
        "runNode_pollProgressInterval (config s) node" rest]
    show "\<exists>oc2 fl2 s2. runNode_wait e node (runNode_waitGracePeriod (config s) node)
            (runNode_pollProgressInterval (config s) node) (body_events e node) ?v ?s = Return oc2 fl2 s2 \<and>
            (oc2 = SpecStateInterrupted \<and> Failure.Message fl2 = InterruptStatus.Message st \<and>
             graceDurations (trace (runNode_exit node s2)) = graceDurations (trace s) @ [0] \<and>
             leakReports (trace (runNode_exit node s2)) = leakReports (trace s))"
      using nc f by (auto simp: ev exit_grace start_traces runNode_waitGracePeriod_def)
  qed
  then show ?thesis by blast
qed

subsection \<open>Bodies started by the suite nodes\<close>

lemma extends_refl [simp]: "extends s s"
  by (simp add: extends_def)

lemma extends_trans: "extends s s1 \<Longrightarrow> extends s1 s2 \<Longrightarrow> extends s s2"
  by (auto simp: extends_def)

lemma extends_updates [simp]:
  "extends s (setStateAndFailure r s') = extends s s'"
  "extends s (appendCapturedStdOutErr p) = extends s (snd p)"
  "extends s (interceptor_Start s)"
  "extends s (interceptor_StartAndForward s)"
  "extends s (snd (interceptor_Stop e s))"
  "extends s (s\<lparr>trace := trace s @ t\<rparr>)"
  "extends s (s'\<lparr>currentSpecReport := c\<rparr>) = extends s s'"
  by (auto simp: extends_def setStateAndFailure_def interceptor_Start_def
        interceptor_StartAndForward_def interceptor_Stop_def appendCapturedStdOutErr_def)

lemma started_after_later: "started_after s0 n s \<Longrightarrow> extends s s' \<Longrightarrow> started_after s0 n s'"
  by (auto simp: extends_def started_after_def dest: in_set_dropD)

lemma started_after_earlier: "extends s0 s \<Longrightarrow> started_after s n s' \<Longrightarrow> started_after s0 n s'"
  by (metis (no_types, lifting) extends_def started_after_def
        add.commute drop_drop in_set_dropD length_append)

lemma started_after_started: "started_after s0 n s \<Longrightarrow> started n s"
  by (auto simp: started_after_def started_def dest: in_set_dropD)

lemma step_extends:
  "runNode_select e node gp ppi ev v s = Continue v' s' \<or> runNode_select e node gp ppi ev v s = Return oc fl s' \<Longrightarrow>
   extends s s'"
  by (cases ev)
     (auto simp: select_defs Let_def emitProgressReport_def extends_def
        split: option.splits if_splits)

lemma wait_extends:
  "runNode_wait e node gp ppi evs v s = Return oc fl s' \<Longrightarrow> extends s s'"
proof (induction evs arbitrary: v s)
  case Nil
  then show ?case by simp
next
  case (Cons ev evs)
  show ?case
  proof (cases "runNode_select e node gp ppi ev v s")
    case (Return oc1 fl1 s1)
    with Cons.prems have "s1 = s'" by simp
    with step_extends [of e node gp ppi ev v s _ s' oc1 fl1] Return show ?thesis by simp
  next
    case (Continue v1 s1)
    with Cons.prems have rest: "runNode_wait e node gp ppi evs v1 s1 = Return oc fl s'" by simp
    from step_extends [of e node gp ppi ev v s v1 s1] Continue have "extends s s1" by simp
    with Cons.IH [OF rest] show ?thesis by (blast intro: extends_trans)
  next
    case Panic
    with Cons.prems show ?thesis by simp
  qed
qed

lemma runNode_extends:
  assumes "runNode e node sd t s = Some (r, s')"
  shows "extends s s' \<and> (\<not> runNode_skipped e (Status_runNode e node) node \<longrightarrow> started_after s node s')"
proof (cases "runNode_skipped e (Status_runNode e node) node")
  case True
  with assms show ?thesis by (auto simp: runNode_def Let_def runNode_removeCleanup_def extends_def)
next
  case False
  with assms obtain s1 oc fl s2 where
    en: "runNode_enter e node t (runNode_removeCleanup node s) = Some s1" and
    w: "runNode_wait e node (runNode_waitGracePeriod (config s1) node)
          (runNode_pollProgressInterval (config s1) node) (body_events e node)
          (fst (runNode_start e node sd (Status_runNode e node) s1))
          (snd (runNode_start e node sd (Status_runNode e node) s1)) = Return oc fl s2" and
    s': "s' = runNode_exit node s2"
    by (auto simp: runNode_def Let_def split: option.splits select_result.splits)
  let ?s = "snd (runNode_start e node sd (Status_runNode e node) s1)"
  from en have t1: "trace s1 = trace s"
    by (auto simp: runNode_enter_def runNode_removeCleanup_def Let_def split: if_splits option.splits)
  let ?dl = "runNode_deadline (deadline s1) sd (Now e (Now_runNode_now node)) (NodeTimeout node)
                 (runNode_gracePeriod (config s1) node) (Interrupted (Status_runNode e node))"
  have "trace ?s = trace s
          @ (if \<not> Time_IsZero ?dl then [Deadline_After (Time_Sub ?dl (Now e (Now_runNode_now node)))] else [])
          @ [Go_Body node]
          @ (if runNode_pollProgressAfter (config s1) node > 0
             then [ProgressPoller_NewTimer (runNode_pollProgressAfter (config s1) node)] else [])"
    by (simp add: runNode_start_def Let_def go_body_trace t1)
  then have st: "\<exists>a b. trace ?s = trace s @ a @ [Go_Body node] @ b" by blast
  from wait_extends [OF w] obtain t2 where t2: "trace s2 = trace ?s @ t2" by (auto simp: extends_def)
  have "\<exists>t3. trace s' = trace s2 @ t3" unfolding s' by (auto simp: runNode_exit_def Let_def)
  with st t2 obtain a b c where "trace s' = trace s @ a @ [Go_Body node] @ b @ c" by auto
  then show ?thesis by (auto simp: extends_def started_after_def)
qed

lemma started_after_updates [simp]:
  "started_after s n (setStateAndFailure r s') = started_after s n s'"
  by (simp add: started_after_def setStateAndFailure_def)

lemma record_extends: "runNode_record e node s = Some s' \<Longrightarrow> extends s s'"
  by (auto simp: runNode_record_def split: option.splits dest: runNode_extends)

lemma record_started:
  "runNode_record e node s = Some s' \<Longrightarrow> \<not> runNode_skipped e (Status_runNode e node) node \<Longrightarrow>
   started_after s node s'"
  by (auto simp: runNode_record_def split: option.splits dest: runNode_extends)

lemma block_extends:
  "client_BlockUntilNonprimaryProcsHaveFinished e s = Some (err, s') \<Longrightarrow> extends s s'"
  by (auto simp: client_BlockUntilNonprimaryProcsHaveFinished_def extends_def split: option.splits)

lemma cleanupAfterSuite_extends:
  "runSuiteNode_CleanupAfterSuite e node s = Some (err, s') \<Longrightarrow> extends s s'"
  by (auto simp: runSuiteNode_CleanupAfterSuite_def split: if_splits option.splits
       dest!: block_extends record_extends intro: extends_trans)

lemma cleanupAfterSuite_started:
  assumes "runSuiteNode_CleanupAfterSuite e node s = Some (err, s')"
      and "ParallelTotal (config s) > 1 \<and> SuiteConfig.ParallelProcess (config s) = 1 \<longrightarrow>
           BlockUntilNonprimaryProcsHaveFinished e = Some None"
      and "\<not> runNode_skipped e (Status_runNode e node) node"
  shows "started_after s node s'"
proof (cases "ParallelTotal (config s) > 1 \<and> SuiteConfig.ParallelProcess (config s) = 1")
  case False
  with assms(1) obtain s2 where "runNode_record e node s = Some s2" "s' = s2"
    by (auto simp: runSuiteNode_CleanupAfterSuite_def split: if_splits option.splits)
  with record_started [OF _ assms(3)] show ?thesis by simp
next
  case True
  with assms(2) have b: "client_BlockUntilNonprimaryProcsHaveFinished e s
      = Some (None, s\<lparr>trace := trace s @ [Client_BlockUntilNonprimaryProcsHaveFinished]\<rparr>)"
    by (simp add: client_BlockUntilNonprimaryProcsHaveFinished_def)
  with True assms(1) have
    "runNode_record e node (s\<lparr>trace := trace s @ [Client_BlockUntilNonprimaryProcsHaveFinished]\<rparr>) = Some s'"
    by (auto simp: runSuiteNode_CleanupAfterSuite_def split: option.splits)
  from record_started [OF this assms(3)] show ?thesis
    by (rule started_after_earlier [rotated]) simp
qed

lemma sbs_proc1_extends:
  assumes "runSuiteNode_SynchronizedBeforeSuite_proc1 e node s = Some (d, ra, err, s')"
  shows "extends s s'"
proof -
  let ?s0 = "if ParallelTotal (config s) > 1
             then interceptor_StartAndForward (snd (interceptor_Stop e s)) else s"
  let ?n1 = "node\<lparr>Body := Body_SynchronizedBeforeSuiteProc1,
                    HasContext := SynchronizedBeforeSuiteProc1BodyHasContext node\<rparr>"
  have f0: "extends s ?s0"
    by (auto simp: extends_def interceptor_StartAndForward_def interceptor_Stop_def)
  from assms obtain s1 where rec: "runNode_record e ?n1 ?s0 = Some s1"
    by (auto simp: runSuiteNode_SynchronizedBeforeSuite_proc1_def Let_def split: option.splits)
  with assms have "extends s1 s'"
    by (auto simp: runSuiteNode_SynchronizedBeforeSuite_proc1_def Let_def extends_def
          interceptor_Start_def interceptor_Stop_def appendCapturedStdOutErr_def split: if_splits)
  with record_extends [OF rec] f0 show ?thesis by (blast intro: extends_trans)
qed

lemma sbs_other_extends:
  "runSuiteNode_SynchronizedBeforeSuite_otherProcs e s = Some (d, ra, err, s') \<Longrightarrow> extends s s'"
  by (auto simp: runSuiteNode_SynchronizedBeforeSuite_otherProcs_def Let_def extends_def
        split: option.splits SpecState.splits)

lemma sbs_extends:
  "runSuiteNode_SynchronizedBeforeSuite e node s = Some (err, s') \<Longrightarrow> extends s s'"
  by (auto simp: runSuiteNode_SynchronizedBeforeSuite_def split: if_splits option.splits
        dest!: sbs_proc1_extends sbs_other_extends record_extends intro: extends_trans)

lemma sas_first:
  assumes "runSuiteNode_SynchronizedAfterSuite e node s = Some (err, s')"
  obtains s1 where
    "runNode_record e (node\<lparr>Body := Body_SynchronizedAfterSuiteAllProcs,
                    HasContext := SynchronizedAfterSuiteAllProcsBodyHasContext node\<rparr>) s = Some s1"
    "extends s1 s'"
proof -
  let ?n1 = "node\<lparr>Body := Body_SynchronizedAfterSuiteAllProcs,
                    HasContext := SynchronizedAfterSuiteAllProcsBodyHasContext node\<rparr>"
  from assms obtain s1 where rec: "runNode_record e ?n1 s = Some s1"
    by (auto simp: runSuiteNode_SynchronizedAfterSuite_def Let_def split: option.splits)
  have "extends s1 s'"
  proof (cases "SuiteConfig.ParallelProcess (config s1) = 1")
    case False
    with assms rec show ?thesis by (simp add: runSuiteNode_SynchronizedAfterSuite_def Let_def)
  next
    case True
    let ?b = "if ParallelTotal (config s1) > 1
              then client_BlockUntilNonprimaryProcsHaveFinished e s1 else Some (None, s1)"
    from assms rec True obtain er s2 where b: "?b = Some (er, s2)"
      by (auto simp: runSuiteNode_SynchronizedAfterSuite_def Let_def split: option.splits)
    then have f2: "extends s1 s2" by (auto split: if_splits dest: block_extends)
    show ?thesis
    proof (cases er)
      case (Some x)
      with assms rec True b have "s' = s2"
        by (auto simp: runSuiteNode_SynchronizedAfterSuite_def Let_def split: option.splits)
      with f2 show ?thesis by simp
    next
      case None
      let ?s3 = "if ParallelTotal (config s2) > 1
                 then interceptor_StartAndForward (appendCapturedStdOutErr (interceptor_Stop e s2))
                 else s2"
      have f3: "extends s2 ?s3"
        by (auto simp: extends_def interceptor_StartAndForward_def interceptor_Stop_def
              appendCapturedStdOutErr_def)
      from assms rec True b None obtain r s4 where
        rn: "runNode e (?n1\<lparr>Body := Body_SynchronizedAfterSuiteProc1,
                HasContext := SynchronizedAfterSuiteProc1BodyHasContext node\<rparr>) 0 [] ?s3 = Some (r, s4)"
        and s': "s' = (if SpecState_Is (State (currentSpecReport s4)) [SpecStatePassed]
                       then setStateAndFailure r s4 else s4)"
        by (auto simp: runSuiteNode_SynchronizedAfterSuite_def Let_def split: option.splits if_splits)
      from runNode_extends [OF rn] have "extends ?s3 s'" unfolding s' by simp
      with f2 f3 show ?thesis by (blast intro: extends_trans)
    qed
  qed
  with rec that show thesis by blast
qed

lemma sas_extends:
  "runSuiteNode_SynchronizedAfterSuite e node s = Some (err, s') \<Longrightarrow> extends s s'"
  by (erule sas_first) (blast intro: extends_trans dest: record_extends)

lemma begin_extends: "runSuiteNode_begin e node s = Some s' \<Longrightarrow> extends s s'"
  by (auto simp: runSuiteNode_begin_def Let_def writer_Truncate_def extends_def
        interceptor_Start_def split: option.splits)

lemma switch_extends: "runSuiteNode_switch e node s = Some (err, s') \<Longrightarrow> extends s s'"
  by (cases "NodeType node")
     (auto simp: runSuiteNode_switch_def
           dest: record_extends cleanupAfterSuite_extends sbs_extends sas_extends)

lemma finish_extends: "runSuiteNode_finish e node err s = Some s' \<Longrightarrow> extends s s'"
  by (auto simp: extends_def dest: finish_trace)

lemma runSuiteNode_extends:
  assumes "runSuiteNode e node s = Some s'"
  shows "extends s s'"
proof (cases "DryRun (config s)")
  case True
  with assms show ?thesis by (auto simp: runSuiteNode_def extends_def)
next
  case False
  with assms obtain s1 err s2 where
    "runSuiteNode_begin e node s = Some s1" "runSuiteNode_switch e node s1 = Some (err, s2)"
    "runSuiteNode_finish e node err s2 = Some s'"
    by (auto simp: runSuiteNode_def split: option.splits)
  then show ?thesis
    by (blast intro: extends_trans dest: begin_extends switch_extends finish_extends)
qed

lemma switch_started:
  assumes "runSuiteNode_switch e node s = Some (err, s')"
      and "NodeType node = NodeTypeAfterSuite \<or> NodeType node = NodeTypeSynchronizedAfterSuite \<or>
           NodeType node = NodeTypeCleanupAfterSuite"
      and "NodeType node = NodeTypeCleanupAfterSuite \<and>
           ParallelTotal (config s) > 1 \<and> SuiteConfig.ParallelProcess (config s) = 1 \<longrightarrow>
           BlockUntilNonprimaryProcsHaveFinished e = Some None"
      and "\<not> runNode_skipped e (Status_runNode e (firstBody node)) (firstBody node)"
  shows "started_after s (firstBody node) s'"
  using assms(2)
proof (elim disjE)
  assume t: "NodeType node = NodeTypeAfterSuite"
  with assms show ?thesis
    by (auto simp: runSuiteNode_switch_def firstBody_def dest: record_started)
next
  assume t: "NodeType node = NodeTypeCleanupAfterSuite"
  with assms show ?thesis
    by (auto simp: runSuiteNode_switch_def firstBody_def dest: cleanupAfterSuite_started)
next
  assume t: "NodeType node = NodeTypeSynchronizedAfterSuite"
  with assms(1) have "runSuiteNode_SynchronizedAfterSuite e node s = Some (err, s')"
    by (simp add: runSuiteNode_switch_def)
  then obtain s1 where
    "runNode_record e (node\<lparr>Body := Body_SynchronizedAfterSuiteAllProcs,
                    HasContext := SynchronizedAfterSuiteAllProcsBodyHasContext node\<rparr>) s = Some s1"
    "extends s1 s'" by (rule sas_first)
  with assms(4) t show ?thesis
    by (auto simp: firstBody_def dest: record_started intro: started_after_later)
qed

lemma runSuiteNode_started:
  assumes "runSuiteNode e node s = Some s'"
      and "\<not> DryRun (config s)"
      and "NodeType node = NodeTypeAfterSuite \<or> NodeType node = NodeTypeSynchronizedAfterSuite \<or>
           NodeType node = NodeTypeCleanupAfterSuite"
      and "NodeType node = NodeTypeCleanupAfterSuite \<and>
           ParallelTotal (config s) > 1 \<and> SuiteConfig.ParallelProcess (config s) = 1 \<longrightarrow>
           BlockUntilNonprimaryProcsHaveFinished e = Some None"
      and "\<not> runNode_skipped e (Status_runNode e (firstBody node)) (firstBody node)"
  shows "started_after s (firstBody node) s'"
proof -
  from assms(1,2) obtain s1 err s2 where
    b: "runSuiteNode_begin e node s = Some s1" and sw: "runSuiteNode_switch e node s1 = Some (err, s2)" and
    f: "runSuiteNode_finish e node err s2 = Some s'"
    by (auto simp: runSuiteNode_def split: option.splits)
  from begin_frame [OF b] have "config s1 = config s" by (simp add: run_frame_def)
  with switch_started [OF sw assms(3) _ assms(5)] assms(4) have "started_after s1 (firstBody node) s2" by simp
  with begin_extends [OF b] finish_extends [OF f] show ?thesis
    by (blast intro: started_after_later started_after_earlier)
qed

lemma process_extends: "extends s (processCurrentSpecReport s)"
  by (auto simp: extends_def processCurrentSpecReport_def Let_def)

lemma willRun_extends: "extends s (willRunSuiteNode n t s)"
  by (auto simp: extends_def willRunSuiteNode_def Let_def)

lemma first_type:
  "\<not> Node_IsZero (FirstNodeWithType ns m) \<Longrightarrow> NodeType_Is (NodeType (FirstNodeWithType ns m)) m"
proof (cases "WithType ns m")
  case Nil
  then show "\<not> Node_IsZero (FirstNodeWithType ns m) \<Longrightarrow> ?thesis"
    by (simp add: FirstNodeWithType_def Node_IsZero_def Node_zero_def)
next
  case (Cons n rest)
  then have "n \<in> set (WithType ns m)" by simp
  then have "NodeType_Is (NodeType n) m" by (simp add: WithType_def)
  with Cons show ?thesis by (simp add: FirstNodeWithType_def)
qed

lemma withType_type:
  "c \<in> set (WithType ns [NodeTypeCleanupAfterSuite]) \<Longrightarrow> NodeType c = NodeTypeCleanupAfterSuite"
  by (auto simp: WithType_def NodeType_Is_def)

lemma afterSuite_started:
  assumes "runAfterSuiteCleanup_afterSuite e n s = Some s'"
      and "\<not> Node_IsZero (FirstNodeWithType (suiteNodes s) [NodeTypeAfterSuite, NodeTypeSynchronizedAfterSuite])"
      and "n > 0" and "\<not> DryRun (config s)"
      and "\<not> runNode_skipped e
             (Status_runNode e (firstBody (FirstNodeWithType (suiteNodes s) [NodeTypeAfterSuite, NodeTypeSynchronizedAfterSuite])))
             (firstBody (FirstNodeWithType (suiteNodes s) [NodeTypeAfterSuite, NodeTypeSynchronizedAfterSuite]))"
  shows "started_after s (firstBody (FirstNodeWithType (suiteNodes s) [NodeTypeAfterSuite, NodeTypeSynchronizedAfterSuite])) s'"
proof -
  let ?a = "FirstNodeWithType (suiteNodes s) [NodeTypeAfterSuite, NodeTypeSynchronizedAfterSuite]"
  from assms(1,2,3) obtain s1 where
    rs: "runSuiteNode e ?a (willRunSuiteNode ?a [] s) = Some s1" and s': "s' = processCurrentSpecReport s1"
    by (auto simp: runAfterSuiteCleanup_afterSuite_def Let_def)
  from first_type [OF assms(2)] have t: "NodeType ?a = NodeTypeAfterSuite \<or> NodeType ?a = NodeTypeSynchronizedAfterSuite"
    by (auto simp: NodeType_Is_def)
  have "started_after (willRunSuiteNode ?a [] s) (firstBody ?a) s1"
    using runSuiteNode_started [OF rs] assms(4,5) t by (auto simp: willRun_facts)
  with willRun_extends [of s ?a "[]"] process_extends [of s1] show ?thesis unfolding s'
    by (blast intro: started_after_later started_after_earlier)
qed

lemma cleanup_loop_extends:
  "runAfterSuiteCleanup_loop e ns s = Some s' \<Longrightarrow> extends s s'"
proof (induction ns arbitrary: s)
  case Nil
  then show ?case by simp
next
  case (Cons c ns)
  from Cons.prems obtain s1 where
    rs: "runSuiteNode e c (willRunSuiteNode c [] s) = Some s1" and
    rest: "runAfterSuiteCleanup_loop e ns (processCurrentSpecReport s1) = Some s'"
    by (auto split: option.splits)
  from willRun_extends [of s c "[]"] runSuiteNode_extends [OF rs] process_extends [of s1] Cons.IH [OF rest]
  show ?case by (blast intro: extends_trans)
qed

lemma cleanup_loop_started:
  "runAfterSuiteCleanup_loop e ns s = Some s' \<Longrightarrow> \<not> DryRun (config s) \<Longrightarrow>
   (ParallelTotal (config s) > 1 \<and> SuiteConfig.ParallelProcess (config s) = 1 \<longrightarrow>
      BlockUntilNonprimaryProcsHaveFinished e = Some None) \<Longrightarrow>
   c \<in> set ns \<Longrightarrow> NodeType c = NodeTypeCleanupAfterSuite \<Longrightarrow>
   \<not> runNode_skipped e (Status_runNode e c) c \<Longrightarrow> started_after s c s'"
proof (induction ns arbitrary: s)
  case Nil
  then show ?case by simp
next
  case (Cons c0 ns)
  from Cons.prems(1) obtain s1 where
    rs: "runSuiteNode e c0 (willRunSuiteNode c0 [] s) = Some s1" and
    rest: "runAfterSuiteCleanup_loop e ns (processCurrentSpecReport s1) = Some s'"
    by (auto split: option.splits)
  from dispatch_reported [OF rs] have cf: "config (processCurrentSpecReport s1) = config s"
    by (simp add: grows_def)
  have e1: "extends s (processCurrentSpecReport s1)"
    using willRun_extends [of s c0 "[]"] runSuiteNode_extends [OF rs] process_extends [of s1]
    by (blast intro: extends_trans)
  show ?case
  proof (cases "c = c0")
    case True
    have fb: "firstBody c = c" using Cons.prems(5) by (simp add: firstBody_def)
    from runSuiteNode_started [OF rs] Cons.prems(2,3,5,6) True fb
    have "started_after (willRunSuiteNode c0 [] s) c s1" by (auto simp: willRun_facts)
    with willRun_extends [of s c0 "[]"] process_extends [of s1] cleanup_loop_extends [OF rest]
    show ?thesis by (blast intro: started_after_later started_after_earlier)
  next
    case False
    with Cons.prems(4) have "c \<in> set ns" by simp
    from Cons.IH [OF rest _ _ this Cons.prems(5,6)] Cons.prems(2,3) cf
    have "started_after (processCurrentSpecReport s1) c s'" by simp
    with e1 show ?thesis by (rule started_after_earlier)
  qed
qed

lemma reportNode_extends:
  assumes "runReportAfterSuiteNode e node rep s = Some s'"
  shows "extends s s'"
proof -
  from assms obtain s1 where tr: "writer_Truncate s = Some s1"
    by (auto simp: runReportAfterSuiteNode_def split: option.splits)
  let ?s2 = "(interceptor_Start s1)\<lparr>currentSpecReport := (currentSpecReport (interceptor_Start s1))
                     \<lparr>SpecReport.StartTime := Now e (Now_runReportAfterSuiteNode_StartTime node)\<rparr>\<rparr>"
  have f2: "extends s ?s2"
    using tr by (auto simp: extends_def writer_Truncate_def interceptor_Start_def split: option.splits)
  from assms tr obtain rep' err s3 where
    ag: "runReportAfterSuiteNode_aggregate e rep ?s2 = Some (rep', err, s3)"
    by (auto simp: runReportAfterSuiteNode_def Let_def split: option.splits)
  then have f3: "extends ?s2 s3"
    by (auto simp: runReportAfterSuiteNode_aggregate_def extends_def split: if_splits option.splits)
  have "extends s3 s'"
  proof (cases err)
    case (Some x)
    with assms tr ag show ?thesis by (auto simp: runReportAfterSuiteNode_def Let_def)
  next
    case None
    with assms tr ag obtain s4 where
      rn: "runNode_record e (node\<lparr>Body := Body_ReportAfterSuite rep'\<rparr>) s3 = Some s4" and
      fin: "runReportAfterSuiteNode_finish e node s4 = Some s'"
      by (auto simp: runReportAfterSuiteNode_def Let_def split: option.splits)
    from fin have "extends s4 s'"
      by (auto simp: runReportAfterSuiteNode_finish_def Let_def extends_def interceptor_Stop_def
            split: option.splits)
    with record_extends [OF rn] show ?thesis by (blast intro: extends_trans)
  qed
  with f2 f3 show ?thesis by (blast intro: extends_trans)
qed

lemma report_loop_extends:
  "runReportAfterSuite_loop e ns s = Some s' \<Longrightarrow> extends s s'"
proof (induction ns arbitrary: s)
  case Nil
  then show ?case by simp
next
  case (Cons n ns)
  from Cons.prems obtain s1 where
    rs: "runReportAfterSuiteNode e n (report s) (willRunSuiteNode n (Text n) s) = Some s1" and
    rest: "runReportAfterSuite_loop e ns (processCurrentSpecReport s1) = Some s'"
    by (auto split: option.splits)
  from willRun_extends [of s n "Text n"] reportNode_extends [OF rs] process_extends [of s1] Cons.IH [OF rest]
  show ?case by (blast intro: extends_trans)
qed

lemma tail_extends:
  assumes "(if SuiteConfig.ParallelProcess (config s3) = 1
      then runReportAfterSuite e (runSpecs_finish e s3) else Some (runSpecs_finish e s3)) = Some s4"
      and "runSpecs_end s4 = (b, s')"
  shows "extends s3 s'"
proof -
  have a: "extends s3 (runSpecs_finish e s3)"
    by (simp add: extends_def runSpecs_finish_def Let_def)
  have "extends (runSpecs_finish e s3) s4"
    using assms(1) by (auto simp: runReportAfterSuite_def split: if_splits dest: report_loop_extends)
  moreover have "extends s4 s'"
    using assms(2) by (auto simp: runSpecs_end_def extends_def)
  ultimately show ?thesis using a by (blast intro: extends_trans)
qed

section \<open>The claims\<close>

subsection \<open>C1: a body that completes after an outcome was recorded\<close>

text \<open>
  Claim C1, as the code has it. In the waiting loop of \<^verbatim>\<open>runNode\<close>, when the body
  completes: if the recorded outcome is \<^verbatim>\<open>Interrupted\<close>, the late outcome and failure are
  discarded and the recorded outcome and failure are returned unchanged; if the recorded
  outcome is \<^verbatim>\<open>Timedout\<close> and the late outcome is not \<^verbatim>\<open>Passed\<close>, the state returned is
  \<^verbatim>\<open>Timedout\<close> and the message of the timeout failure is replaced by a fixed text
  followed by the message of the late failure, whose location and panic are adopted (a
  late \<^verbatim>\<open>Passed\<close> leaves the timeout failure as it is); if no outcome was recorded, the
  outcome of the worker is returned, with the empty failure when it is \<^verbatim>\<open>Passed\<close> and
  otherwise with the failure that \<^verbatim>\<open>runNode\<close> prepared for the node, in which the
  message, the location and the panic are those of the worker's failure. And once
  \<^verbatim>\<open>Interrupted\<close> is recorded (the deadline channel is then \<^verbatim>\<open>nil\<close>), whatever events
  follow, the loop returns \<^verbatim>\<open>Interrupted\<close> with the failure recorded then.
\<close>

theorem late_completion:
  "(outcome v = SpecStateInterrupted \<longrightarrow>
      runNode_select e node gracePeriod pollProgressInterval
        (Completion outcomeFromRun failureFromRun) v s = Return (outcome v) (failure v) s) \<and>
   (outcome v = SpecStateTimedout \<and> outcomeFromRun \<noteq> SpecStatePassed \<longrightarrow>
      runNode_select e node gracePeriod pollProgressInterval
        (Completion outcomeFromRun failureFromRun) v s =
      Return SpecStateTimedout
        ((failure v)\<lparr>Failure.Location := Failure.Location failureFromRun,
                    ForwardedPanic := ForwardedPanic failureFromRun,
                    Failure.Message := message_lateFailure @ Failure.Message failureFromRun\<rparr>) s) \<and>
   (outcome v = SpecStateTimedout \<and> outcomeFromRun = SpecStatePassed \<longrightarrow>
      runNode_select e node gracePeriod pollProgressInterval
        (Completion outcomeFromRun failureFromRun) v s = Return SpecStateTimedout (failure v) s) \<and>
   (outcome v = SpecStateInvalid \<and> outcomeFromRun = SpecStatePassed \<longrightarrow>
      runNode_select e node gracePeriod pollProgressInterval
        (Completion outcomeFromRun failureFromRun) v s = Return SpecStatePassed Failure_zero s) \<and>
   (outcome v = SpecStateInvalid \<and> outcomeFromRun \<noteq> SpecStatePassed \<longrightarrow>
      runNode_select e node gracePeriod pollProgressInterval
        (Completion outcomeFromRun failureFromRun) v s =
      Return outcomeFromRun
        ((failure v)\<lparr>Failure.Message := Failure.Message failureFromRun,
                    Failure.Location := Failure.Location failureFromRun,
                    ForwardedPanic := ForwardedPanic failureFromRun\<rparr>) s) \<and>
   (outcome v = SpecStateInterrupted \<and> deadlineChannel v = None \<and>
    runNode_wait e node gracePeriod pollProgressInterval evs v s = Return oc fl s' \<longrightarrow>
      oc = SpecStateInterrupted \<and> fl = failure v)"
proof -
  have "outcome v = SpecStateInterrupted \<and> deadlineChannel v = None \<and>
    runNode_wait e node gracePeriod pollProgressInterval evs v s = Return oc fl s' \<longrightarrow>
      oc = SpecStateInterrupted \<and> fl = failure v"
    using interrupted_is_final by blast
  then show ?thesis
    by (simp add: runNode_select_def select_outcomeC_def SpecState_Is_def)
qed

text \<open>
  A late failure after a timeout, on the example node.
\<close>

theorem late_completion_witness:
  "outcome (example_vars\<lparr>outcome := SpecStateTimedout\<rparr>) = SpecStateTimedout \<and>
   SpecStateFailed \<noteq> SpecStatePassed \<and>
   runNode_select example_env example_it 0 0 (Completion SpecStateFailed example_failure)
     (example_vars\<lparr>outcome := SpecStateTimedout\<rparr>) example_suite =
   Return SpecStateTimedout
     ((failure example_vars)
        \<lparr>Failure.Location := ''a_test.go:12'', ForwardedPanic := [],
         Failure.Message := message_lateFailure @ ''boom''\<rparr>) example_suite"
  using late_completion [of "example_vars\<lparr>outcome := SpecStateTimedout\<rparr>" example_env example_it 0 0
      SpecStateFailed example_failure example_suite]
  by (simp add: example_failure_def Failure_zero_def)

text \<open>
  The claim as stated says that the failure of the worker is returned verbatim. The body
  of the example node fails with a failure that carries a message and a location: the
  failure that \<^verbatim>\<open>runNode\<close> returns also names the node, and is not the worker's.
\<close>

theorem late_failure_not_verbatim:
  "map_option fst (runNode failing_env example_it 0 [] example_suite) =
     Some (SpecStateFailed,
           example_failure\<lparr>FailureNodeContext := FailureNodeIsLeafNode,
                           FailureNodeType := NodeTypeIt,
                           FailureNodeLocation := ''a_test.go:10''\<rparr>) \<and>
   map_option fst (runNode failing_env example_it 0 [] example_suite) \<noteq>
     Some (SpecStateFailed, example_failure)"
  by code_simp

subsection \<open>C2: the deadline of a node\<close>



subsection \<open>C3: no grace period without a context\<close>

text \<open>
  Claim C3. A run of \<^verbatim>\<open>runNode\<close> on a node without a context starts at most one
  grace-period wait and starts it with the duration zero, whatever grace period the node
  or the suite configures, and never emits the progress report about a leaked node. For
  any node, a run that emits that report is the run of a node with a context, and it
  returns \<^verbatim>\<open>Timedout\<close>. When the deadline fires for a node without a context and then
  the timer of the grace period, \<^verbatim>\<open>runNode\<close> returns \<^verbatim>\<open>Timedout\<close> with the failure
  message \<^verbatim>\<open>Timedout\<close> although the body never completes; on the same events the run of a node
  with a context has waited the configured grace period and emits the report about the
  leaked node. When an interrupt below bail-out arrives for a node without a context, the
  expiry of the zero wait ends the run with \<^verbatim>\<open>Interrupted\<close>. The run is that of a node
  that the interrupt level lets pass, with a writer installed for the progress report.
  The waiting loop has no clock: that the wait is over at once is that its timer is
  started with \<^verbatim>\<open>time.After(0)\<close>, and until that timer fires the \<^verbatim>\<open>select\<close> may still
  receive the result of the body.
\<close>

theorem no_context_no_grace:
  "(runNode e node specDeadline label s = Some ((oc, fl), s') \<longrightarrow>
      (\<not> HasContext node \<longrightarrow>
         (graceDurations (trace s') = graceDurations (trace s) \<or>
          graceDurations (trace s') = graceDurations (trace s) @ [0]) \<and>
         leakReports (trace s') = leakReports (trace s)) \<and>
      (leakReports (trace s') \<noteq> leakReports (trace s) \<longrightarrow>
         HasContext node \<and> oc = SpecStateTimedout)) \<and>
   (\<not> runNode_skipped e (Status_runNode e node) node \<and> writer s = Some written \<longrightarrow>
      (\<not> Time_IsZero (runNode_deadline (deadline s) specDeadline (Now e (Now_runNode_now node))
                        (NodeTimeout node) (runNode_gracePeriod (config s) node)
                        (Interrupted (Status_runNode e node))) \<and>
       body_events e node = DeadlineElapsed # GracePeriodElapsed # rest \<longrightarrow>
         (\<not> HasContext node \<longrightarrow>
            (\<exists>fl1 s1. runNode e node specDeadline label s = Some ((SpecStateTimedout, fl1), s1) \<and>
               Failure.Message fl1 = ''Timedout'' \<and>
               graceDurations (trace s1) = graceDurations (trace s) @ [0] \<and>
               leakReports (trace s1) = leakReports (trace s))) \<and>
         (HasContext node \<longrightarrow>
            (\<exists>fl1 s1 pr. runNode e node specDeadline label s = Some ((SpecStateTimedout, fl1), s1) \<and>
               graceDurations (trace s1) =
                 graceDurations (trace s) @ [runNode_gracePeriod (config s) node] \<and>
               ProgressReport.Message pr = message_leaked \<and>
               leakReports (trace s1) = leakReports (trace s) @ [Reporter_EmitProgressReport pr]))) \<and>
      (\<not> HasContext node \<and> Level st \<noteq> InterruptLevelBailOut \<and>
       body_events e node = InterruptReceived st # GracePeriodElapsed # rest \<longrightarrow>
         (\<exists>fl1 s1. runNode e node specDeadline label s = Some ((SpecStateInterrupted, fl1), s1) \<and>
            Failure.Message fl1 = InterruptStatus.Message st \<and>
            graceDurations (trace s1) = graceDurations (trace s) @ [0] \<and>
            leakReports (trace s1) = leakReports (trace s))))"
proof -
  have A: "runNode e node specDeadline label s = Some ((oc, fl), s') \<Longrightarrow>
      (\<not> HasContext node \<longrightarrow>
         (graceDurations (trace s') = graceDurations (trace s) \<or>
          graceDurations (trace s') = graceDurations (trace s) @ [0]) \<and>
         leakReports (trace s') = leakReports (trace s)) \<and>
      (leakReports (trace s') \<noteq> leakReports (trace s) \<longrightarrow>
         HasContext node \<and> oc = SpecStateTimedout)"
    using runNode_grace [of e node specDeadline label s oc fl s']
    by (auto simp: runNode_waitGracePeriod_def)
  from A runNode_deadline_no_context [of node e s written specDeadline rest label]
    runNode_deadline_context [of node e s written specDeadline rest label]
    runNode_interrupt_no_context [of node e s written st rest specDeadline label]
  show ?thesis by blast
qed

text \<open>
  In a suite with a grace period of 30 the deadline of a node with a timeout fires and the
  body never completes: without a context the wait is started with 0 and no report about
  a leak is emitted, with a context the wait is started with 30 and the report is
  emitted; and an interrupt for a node without a context starts a wait of 0.
\<close>

theorem no_context_no_grace_witness:
  "\<not> HasContext example_timed \<and> HasContext example_timed_ctx \<and>
   runNode_gracePeriod (config graceful_suite) example_timed = 30 \<and>
   (\<exists>fl1 s1. runNode timeout_env example_timed 0 [] graceful_suite
               = Some ((SpecStateTimedout, fl1), s1) \<and>
             graceDurations (trace s1) = [0] \<and> leakReports (trace s1) = []) \<and>
   (\<exists>fl1 s1 pr. runNode timeout_env example_timed_ctx 0 [] graceful_suite
               = Some ((SpecStateTimedout, fl1), s1) \<and>
             graceDurations (trace s1) = [30] \<and>
             ProgressReport.Message pr = message_leaked \<and>
             leakReports (trace s1) = [Reporter_EmitProgressReport pr]) \<and>
   (\<exists>fl1 s1. runNode interrupt_env example_it 0 [] graceful_suite
               = Some ((SpecStateInterrupted, fl1), s1) \<and>
             graceDurations (trace s1) = [0] \<and> leakReports (trace s1) = [])"
proof -
  have nc: "\<not> HasContext example_timed" "\<not> HasContext example_it" and hc: "HasContext example_timed_ctx"
    by code_simp+
  have gp: "runNode_gracePeriod (config graceful_suite) example_timed = 30"
           "runNode_gracePeriod (config graceful_suite) example_timed_ctx = 30"
    by code_simp+
  have ns: "\<not> runNode_skipped timeout_env (Status_runNode timeout_env example_timed) example_timed"
           "\<not> runNode_skipped timeout_env (Status_runNode timeout_env example_timed_ctx) example_timed_ctx"
           "\<not> runNode_skipped interrupt_env (Status_runNode interrupt_env example_it) example_it"
    by code_simp+
  have w: "writer graceful_suite = Some []" by code_simp
  have t0: "graceDurations (trace graceful_suite) = []" "leakReports (trace graceful_suite) = []"
    by code_simp+
  have dl: "\<not> Time_IsZero (runNode_deadline (deadline graceful_suite) 0
                (Now timeout_env (Now_runNode_now example_timed)) (NodeTimeout example_timed)
                (runNode_gracePeriod (config graceful_suite) example_timed)
                (Interrupted (Status_runNode timeout_env example_timed)))"
           "\<not> Time_IsZero (runNode_deadline (deadline graceful_suite) 0
                (Now timeout_env (Now_runNode_now example_timed_ctx)) (NodeTimeout example_timed_ctx)
                (runNode_gracePeriod (config graceful_suite) example_timed_ctx)
                (Interrupted (Status_runNode timeout_env example_timed_ctx)))"
    by code_simp+
  have ev: "body_events timeout_env example_timed = DeadlineElapsed # GracePeriodElapsed # []"
           "body_events timeout_env example_timed_ctx = DeadlineElapsed # GracePeriodElapsed # []"
           "body_events interrupt_env example_it
              = InterruptReceived example_interrupt # GracePeriodElapsed # []"
    by code_simp+
  have lv: "Level example_interrupt \<noteq> InterruptLevelBailOut" by code_simp
  from no_context_no_grace [where e = timeout_env and node = example_timed and specDeadline = 0
      and label = "[]" and s = graceful_suite and written = "[]" and rest = "[]"
      and oc = SpecStateInvalid and fl = Failure_zero and s' = graceful_suite, THEN conjunct2]
    nc(1) ns(1) w dl(1) ev(1) t0
  obtain fl1 s1 where r1: "runNode timeout_env example_timed 0 [] graceful_suite
               = Some ((SpecStateTimedout, fl1), s1)"
     "graceDurations (trace s1) = [0]" by auto
  from no_context_no_grace [where e = timeout_env and node = example_timed and specDeadline = 0
      and label = "[]" and s = graceful_suite and oc = SpecStateTimedout and fl = fl1 and s' = s1]
    nc(1) r1(1) t0
  have l1: "leakReports (trace s1) = []" by simp
  from no_context_no_grace [where e = timeout_env and node = example_timed_ctx and specDeadline = 0
      and label = "[]" and s = graceful_suite and written = "[]" and rest = "[]"
      and oc = SpecStateInvalid and fl = Failure_zero and s' = graceful_suite, THEN conjunct2]
    hc ns(2) w dl(2) ev(2) t0 gp(2)
  have c2: "\<exists>fl1 s1 pr. runNode timeout_env example_timed_ctx 0 [] graceful_suite
               = Some ((SpecStateTimedout, fl1), s1) \<and>
             graceDurations (trace s1) = [30] \<and>
             ProgressReport.Message pr = message_leaked \<and>
             leakReports (trace s1) = [Reporter_EmitProgressReport pr]" by auto
  from no_context_no_grace [where e = interrupt_env and node = example_it and specDeadline = 0
      and label = "[]" and s = graceful_suite and written = "[]" and rest = "[]"
      and st = example_interrupt
      and oc = SpecStateInvalid and fl = Failure_zero and s' = graceful_suite, THEN conjunct2]
    nc(2) ns(3) w ev(3) lv t0
  have c3: "\<exists>fl1 s1. runNode interrupt_env example_it 0 [] graceful_suite
               = Some ((SpecStateInterrupted, fl1), s1) \<and>
             graceDurations (trace s1) = [0] \<and> leakReports (trace s1) = []" by auto
  from nc(1) hc gp(1) r1 l1 c2 c3 show ?thesis by blast
qed

subsection \<open>C4: one grace period\<close>

text \<open>
  Claim C4. A call of \<^verbatim>\<open>runNode\<close> that returns has started at most one grace-period
  wait. From the start of its waiting loop, where no grace period is pending, and over
  any events: at most one grace-period wait is started, whether the
  loop has returned or is still waiting; while a grace period is pending an interrupt
  makes the loop return at once with the current outcome and failure and starts no wait;
  and an interrupt after which the loop goes on waiting found no grace period pending, was
  not a bail-out, and started the one wait.
\<close>

theorem one_grace_period:
  "(runNode e node specDeadline txt s1 = Some (r, s2) \<longrightarrow>
      graceWaits (trace s2) \<le> graceWaits (trace s1) + 1) \<and>
   (gracePeriodChannel v0 = None \<longrightarrow>
      (runNode_wait e node gracePeriod pollProgressInterval evs v0 s0 = Return oc fl s' \<longrightarrow>
         graceWaits (trace s') \<le> graceWaits (trace s0) + 1) \<and>
      (runNode_wait e node gracePeriod pollProgressInterval evs v0 s0 = Continue v s \<longrightarrow>
         graceWaits (trace s) \<le> graceWaits (trace s0) + 1 \<and>
         (gracePeriodChannel v \<noteq> None \<and> writer s0 \<noteq> None \<longrightarrow>
            (\<exists>s''. runNode_select e node gracePeriod pollProgressInterval
                      (InterruptReceived st) v s = Return (outcome v) (failure v) s'' \<and>
                   graceWaits (trace s'') = graceWaits (trace s))) \<and>
         (\<forall>v'' s''. runNode_select e node gracePeriod pollProgressInterval
                      (InterruptReceived st) v s = Continue v'' s'' \<longrightarrow>
              gracePeriodChannel v = None \<and> Level st \<noteq> InterruptLevelBailOut \<and>
              gracePeriodChannel v'' = Some gracePeriod \<and>
              graceWaits (trace s'') = graceWaits (trace s) + 1)))"
proof -
  have N: "runNode e node specDeadline txt s1 = Some (r, s2) \<longrightarrow>
      graceWaits (trace s2) \<le> graceWaits (trace s1) + 1"
    using runNode_graceWaits by blast
  have L: "(runNode_wait e node gracePeriod pollProgressInterval evs v0 s0 = Return oc fl s' \<longrightarrow>
                graceWaits (trace s') \<le> graceWaits (trace s0) + 1) \<and>
             (runNode_wait e node gracePeriod pollProgressInterval evs v0 s0 = Continue v s \<longrightarrow>
                graceWaits (trace s) \<le> graceWaits (trace s0) + 1 \<and>
                (gracePeriodChannel v \<noteq> None \<and> writer s0 \<noteq> None \<longrightarrow>
                   (\<exists>s''. runNode_select e node gracePeriod pollProgressInterval
                             (InterruptReceived st) v s = Return (outcome v) (failure v) s'' \<and>
                          graceWaits (trace s'') = graceWaits (trace s))) \<and>
                (\<forall>v'' s''. runNode_select e node gracePeriod pollProgressInterval
                             (InterruptReceived st) v s = Continue v'' s'' \<longrightarrow>
                     gracePeriodChannel v = None \<and> Level st \<noteq> InterruptLevelBailOut \<and>
                     gracePeriodChannel v'' = Some gracePeriod \<and>
                     graceWaits (trace s'') = graceWaits (trace s) + 1))"
    if assms: "gracePeriodChannel v0 = None"
  proof -
    have i0: "loop_inv v0" using assms by (simp add: loop_inv_def)
    have b0: "budget v0 s0 = graceWaits (trace s0) + 1" using assms by (simp add: budget_def)
    have R: "runNode_wait e node gracePeriod pollProgressInterval evs v0 s0 = Return oc fl s' \<longrightarrow>
              graceWaits (trace s') \<le> graceWaits (trace s0) + 1"
      using wait_Return [OF i0, where e = e and node = node and gp = gracePeriod
          and ppi = pollProgressInterval and evs = evs and s = s0 and oc = oc and fl = fl and s' = s'] b0
      by auto
    have C: "runNode_wait e node gracePeriod pollProgressInterval evs v0 s0 = Continue v s \<longrightarrow>
              graceWaits (trace s) \<le> graceWaits (trace s0) + 1 \<and>
              (gracePeriodChannel v \<noteq> None \<and> writer s0 \<noteq> None \<longrightarrow>
                 (\<exists>s''. runNode_select e node gracePeriod pollProgressInterval
                           (InterruptReceived st) v s = Return (outcome v) (failure v) s'' \<and>
                        graceWaits (trace s'') = graceWaits (trace s))) \<and>
              (\<forall>v'' s''. runNode_select e node gracePeriod pollProgressInterval
                           (InterruptReceived st) v s = Continue v'' s'' \<longrightarrow>
                   gracePeriodChannel v = None \<and> Level st \<noteq> InterruptLevelBailOut \<and>
                   gracePeriodChannel v'' = Some gracePeriod \<and>
                   graceWaits (trace s'') = graceWaits (trace s) + 1)"
    proof
      assume w: "runNode_wait e node gracePeriod pollProgressInterval evs v0 s0 = Continue v s"
      from wait_Continue [OF i0 w] b0 have iv: "loop_inv v" and
        bd: "budget v s \<le> graceWaits (trace s0) + 1" and fr: "writer s = writer s0"
        by (auto simp: loop_frame_def)
      have 1: "graceWaits (trace s) \<le> graceWaits (trace s0) + 1" using bd by (simp add: budget_def)
      have 2: "gracePeriodChannel v \<noteq> None \<and> writer s0 \<noteq> None \<longrightarrow>
                 (\<exists>s''. runNode_select e node gracePeriod pollProgressInterval
                           (InterruptReceived st) v s = Return (outcome v) (failure v) s'' \<and>
                        graceWaits (trace s'') = graceWaits (trace s))"
        using iv fr interrupt_while_grace [of v _ s _ e node gracePeriod pollProgressInterval st]
        by (auto simp: loop_inv_def)
      have 3: "\<forall>v'' s''. runNode_select e node gracePeriod pollProgressInterval
                           (InterruptReceived st) v s = Continue v'' s'' \<longrightarrow>
                   gracePeriodChannel v = None \<and> Level st \<noteq> InterruptLevelBailOut \<and>
                   gracePeriodChannel v'' = Some gracePeriod \<and>
                   graceWaits (trace s'') = graceWaits (trace s) + 1"
        by (auto simp: runNode_select_def select_interruptChannel_def Let_def
              split: option.splits if_splits)
      from 1 2 3 show "graceWaits (trace s) \<le> graceWaits (trace s0) + 1 \<and>
              (gracePeriodChannel v \<noteq> None \<and> writer s0 \<noteq> None \<longrightarrow>
                 (\<exists>s''. runNode_select e node gracePeriod pollProgressInterval
                           (InterruptReceived st) v s = Return (outcome v) (failure v) s'' \<and>
                        graceWaits (trace s'') = graceWaits (trace s))) \<and>
              (\<forall>v'' s''. runNode_select e node gracePeriod pollProgressInterval
                           (InterruptReceived st) v s = Continue v'' s'' \<longrightarrow>
                   gracePeriodChannel v = None \<and> Level st \<noteq> InterruptLevelBailOut \<and>
                   gracePeriodChannel v'' = Some gracePeriod \<and>
                   graceWaits (trace s'') = graceWaits (trace s) + 1)"
        by blast
    qed
    from R C show ?thesis by blast
  qed
  from N L show ?thesis by blast
qed

text \<open>
  The deadline fires, then an interrupt arrives while the grace period is pending.
\<close>

theorem one_grace_period_witness:
  "gracePeriodChannel example_vars = None \<and>
   (\<exists>v s. runNode_wait example_env example_it 0 0 [DeadlineElapsed] example_vars example_suite
            = Continue v s \<and>
          gracePeriodChannel v \<noteq> None \<and> writer example_suite \<noteq> None \<and>
          graceWaits (trace s) \<le> graceWaits (trace example_suite) + 1 \<and>
          (\<exists>s''. runNode_select example_env example_it 0 0 (InterruptReceived example_interrupt) v s
                   = Return (outcome v) (failure v) s'' \<and>
                 graceWaits (trace s'') = graceWaits (trace s)))"
proof -
  have g: "gracePeriodChannel example_vars = None" by (simp add: example_vars_def)
  obtain v s where
    w: "runNode_wait example_env example_it 0 0 [DeadlineElapsed] example_vars example_suite
          = Continue v s" and gp: "gracePeriodChannel v \<noteq> None"
    by (simp add: runNode_select_def select_deadlineChannel_def generateProgressReport_def
          example_vars_def example_suite_def NewSuite_def)
  have wr: "writer example_suite \<noteq> None" by (simp add: example_suite_def NewSuite_def)
  from one_grace_period [where ?v0.0 = example_vars and e = example_env and node = example_it
      and gracePeriod = 0 and pollProgressInterval = 0 and evs = "[DeadlineElapsed]"
      and ?s0.0 = example_suite and v = v and s = s and st = example_interrupt] w gp wr g
  show ?thesis by auto
qed

subsection \<open>C5: cleanup nodes leave the pending list first\<close>

text \<open>
  Claim C5. For a cleanup node (\<^verbatim>\<open>CleanupAfterEach\<close>, \<^verbatim>\<open>CleanupAfterAll\<close>,
  \<^verbatim>\<open>CleanupAfterSuite\<close>): when the interrupt level forbids the node, \<^verbatim>\<open>runNode\<close>
  returns \<^verbatim>\<open>Skipped\<close> and has done nothing but remove the node from the pending cleanup
  nodes, so the removal comes before every other step; and whenever \<^verbatim>\<open>runNode\<close> returns,
  whatever the body tried to register, the pending cleanup nodes are the old ones without
  the node, and none of them has its identity. While the current node is a cleanup node,
  \<^verbatim>\<open>pushCleanupNode\<close> returns an error and leaves the suite, the pending cleanup nodes
  with it, unchanged.
\<close>

theorem cleanup_node_removed_first:
  "(NodeType node = NodeTypeCleanupAfterEach \<or> NodeType node = NodeTypeCleanupAfterAll
      \<or> NodeType node = NodeTypeCleanupAfterSuite \<longrightarrow>
      (runNode_skipped e (Status_runNode e node) node \<longrightarrow>
         runNode e node specDeadline text s =
           Some ((SpecStateSkipped, Failure_zero),
                 s\<lparr>cleanupNodes := WithoutNode (cleanupNodes s) node\<rparr>)) \<and>
      (runNode e node specDeadline text s = Some (r, s') \<longrightarrow>
         cleanupNodes s' = WithoutNode (cleanupNodes s) node \<and>
         (\<forall>n \<in> set (cleanupNodes s'). ID n \<noteq> ID node))) \<and>
   (isCleanupType (NodeType (currentNode s)) \<longrightarrow>
      (\<exists>err. pushCleanupNode newNode s = (Some err, s)))"
proof -
  have a: "NodeType node = NodeTypeCleanupAfterEach \<or> NodeType node = NodeTypeCleanupAfterAll
      \<or> NodeType node = NodeTypeCleanupAfterSuite \<Longrightarrow>
      runNode_skipped e (Status_runNode e node) node \<Longrightarrow>
         runNode e node specDeadline text s =
           Some ((SpecStateSkipped, Failure_zero),
                 s\<lparr>cleanupNodes := WithoutNode (cleanupNodes s) node\<rparr>)"
    by (auto simp: runNode_def Let_def runNode_removeCleanup_def NodeType_Is_def)
  have b: "NodeType node = NodeTypeCleanupAfterEach \<or> NodeType node = NodeTypeCleanupAfterAll
      \<or> NodeType node = NodeTypeCleanupAfterSuite \<Longrightarrow>
      runNode e node specDeadline text s = Some (r, s') \<Longrightarrow>
         cleanupNodes s' = WithoutNode (cleanupNodes s) node \<and>
         (\<forall>n \<in> set (cleanupNodes s'). ID n \<noteq> ID node)"
    using runNode_cleanup_removed [where node = node and e = e and sd = specDeadline
        and s = s and r = r and s' = s']
    by (auto simp: WithoutNode_def)
  from a b pushCleanupNode_rejected [of s newNode] show ?thesis by blast
qed

text \<open>
  A cleanup node whose body tries to register another cleanup node: after \<^verbatim>\<open>runNode\<close>
  only the other pending node is left.
\<close>

theorem cleanup_node_removed_first_witness:
  "NodeType example_cleanup = NodeTypeCleanupAfterEach \<and>
   map_option (map ID \<circ> cleanupNodes \<circ> snd)
     (runNode cleanup_env example_cleanup 0 []
        (example_suite\<lparr>cleanupNodes := [example_cleanup, example_node 8 NodeTypeCleanupAfterEach []]\<rparr>))
     = Some [8]"
proof -
  let ?s = "example_suite\<lparr>cleanupNodes := [example_cleanup, example_node 8 NodeTypeCleanupAfterEach []]\<rparr>"
  have t: "NodeType example_cleanup = NodeTypeCleanupAfterEach"
    by (simp add: example_cleanup_def example_node_def)
  have "runNode cleanup_env example_cleanup 0 [] ?s \<noteq> None" by code_simp
  then obtain r s' where r: "runNode cleanup_env example_cleanup 0 [] ?s = Some (r, s')" by auto
  from cleanup_node_removed_first [of example_cleanup cleanup_env 0 "[]" ?s r s'] t r
  have "cleanupNodes s' = WithoutNode (cleanupNodes ?s) example_cleanup" by simp
  then have "map ID (cleanupNodes s') = [8]"
    by (simp add: WithoutNode_def example_cleanup_def example_node_def)
  with t r show ?thesis by simp
qed

subsection \<open>C6: the success of the suite\<close>

text \<open>
  Claim C6, as the code has it. When \<^verbatim>\<open>runSpecs\<close> returns, its result is true exactly
  when no finished spec report is in a failure state, the interrupt handler reports no
  interrupt after the after-suite cleanup, the end time is not after a deadline that is
  set, and no special failure was recorded for a failed fetch of the next index or for
  pending specs under \<^verbatim>\<open>--fail-on-pending\<close>.
\<close>

theorem suite_success:
  assumes "runSpecs e d l p h specs s = Some (b, s')"
  shows "b \<longleftrightarrow>
          (\<forall>r \<in> set (SpecReports (report s')). \<not> isSpecFailure r) \<and>
          \<not> Interrupted (Status_runSpecs e) \<and>
          \<not> (\<not> Time_IsZero (deadline s) \<and> Time_After (Report.EndTime (report s')) (deadline s)) \<and>
          (\<forall>x \<in> set (SpecialSuiteFailureReasons (report s')). \<not> isIterationOrPendingFailure x)"
proof -
  from assms obtain s0 s1 s2 s3 s4 where ph:
    "runBeforeSuite e (CountWithoutSkip specs) (runSpecs_begin e d l p h specs s) = Some s0"
    "(if SuiteSucceeded (report s0) then runSpecs_main e specs s0 else Some s0) = Some s1"
    "runAfterSuiteCleanup_afterSuite e (CountWithoutSkip specs) s1 = Some s2"
    "runAfterSuiteCleanup_loop e (Reverse (WithType (cleanupNodes s2) [NodeTypeCleanupAfterSuite])) s2 = Some s3"
    "(if SuiteConfig.ParallelProcess (config s3) = 1
      then runReportAfterSuite e (runSpecs_finish e s3) else Some (runSpecs_finish e s3)) = Some s4"
    "runSpecs_end s4 = (b, s')"
    by (rule runSpecs_phases)
  from runBeforeSuite_inv [OF ph(1) begin_facts(1)]
  have i0: "suite_inv s0" and g0: "grows (runSpecs_begin e d l p h specs s) s0" by auto
  have i1: "suite_inv s1 \<and> grows s0 s1"
    using ph(2) i0 by (auto split: if_splits dest: main_inv)
  from afterSuite_inv [OF ph(3)] i1 have i2: "suite_inv s2 \<and> grows s1 s2" by auto
  from cleanup_loop_inv [OF ph(4)] i2 have i3: "suite_inv s3 \<and> grows s2 s3" by auto
  from reportAfterSuite_final [OF ph(5)] i3 have i4: "final_inv e s4" "deadline s4 = deadline s3" by auto
  have "deadline s3 = deadline s"
    using g0 i1 i2 i3 by (simp add: grows_def begin_facts)
  with i4 end_facts [OF ph(6)] show ?thesis by (simp add: final_inv_def)
qed

text \<open>
  A suite with a before-suite and an after-suite node that pass.
\<close>

theorem suite_success_witness:
  "runSpecs example_env ''suite'' [] ''/path'' False [example_spec]
     (example_suite\<lparr>suiteNodes := [example_beforeSuite, example_afterSuite]\<rparr>) \<noteq> None \<and>
   map_option fst (runSpecs example_env ''suite'' [] ''/path'' False [example_spec]
     (example_suite\<lparr>suiteNodes := [example_beforeSuite, example_afterSuite]\<rparr>)) = Some True"
proof -
  let ?s = "example_suite\<lparr>suiteNodes := [example_beforeSuite, example_afterSuite]\<rparr>"
  let ?R = "runSpecs example_env ''suite'' [] ''/path'' False [example_spec] ?s"
  have ne: "?R \<noteq> None" by code_simp
  then obtain b s' where r: "?R = Some (b, s')" by auto
  have "map_option (map State \<circ> SpecReports \<circ> report \<circ> snd) ?R = Some [SpecStatePassed, SpecStatePassed]"
    by code_simp
  with r have st: "map State (SpecReports (report s')) = [SpecStatePassed, SpecStatePassed]" by simp
  have nf: "\<forall>r \<in> set (SpecReports (report s')). \<not> isSpecFailure r"
  proof
    fix x assume "x \<in> set (SpecReports (report s'))"
    then have "State x \<in> set (map State (SpecReports (report s')))" by simp
    with st show "\<not> isSpecFailure x"
      by (auto simp: isSpecFailure_def SpecState_Is_def SpecStateFailureStates_def)
  qed
  have "map_option (SpecialSuiteFailureReasons \<circ> report \<circ> snd) ?R = Some []" by code_simp
  with r have rs: "SpecialSuiteFailureReasons (report s') = []" by simp
  have i: "\<not> Interrupted (Status_runSpecs example_env)" by code_simp
  have d: "Time_IsZero (deadline ?s)" by code_simp
  from suite_success [OF r] nf rs i d have "b" by simp
  with ne r show ?thesis by simp
qed

text \<open>
  The claim as stated counts three conditions. With pending specs and
  \<^verbatim>\<open>--fail-on-pending\<close> all three hold (the only spec report is \<^verbatim>\<open>Pending\<close>, no interrupt,
  no deadline), and \<^verbatim>\<open>runSpecs\<close> returns false.
\<close>

theorem pending_specs_fail_suite:
  "map_option fst (runSpecs pending_env ''suite'' [] ''/path'' False [example_spec] pending_suite)
     = Some False \<and>
   map_option (map State \<circ> SpecReports \<circ> report \<circ> snd)
     (runSpecs pending_env ''suite'' [] ''/path'' False [example_spec] pending_suite)
     = Some [SpecStatePending] \<and>
   \<not> SpecState_Is SpecStatePending SpecStateFailureStates \<and>
   \<not> Interrupted (Status_runSpecs pending_env) \<and>
   Time_IsZero (deadline pending_suite)"
  by code_simp

subsection \<open>C7: the after-suite cleanup is always reached\<close>

text \<open>
  Claim C7. Whenever \<^verbatim>\<open>runSpecs\<close> returns, \<^verbatim>\<open>runAfterSuiteCleanup\<close> was reached from the
  state in which the before-suite node and the loop left the suite, whether the suite was
  still succeeding (\<open>s1\<close> comes from the loop) or not (\<open>s1\<close> is \<open>s0\<close>). The after-suite
  node, when there is one and at least one spec will run, has a spec report, and its body
  (for a synchronized after-suite node the body of all processes) was started after that
  state unless the suite is in dry-run mode or the interrupt level forbids the node.
  Every after-suite cleanup node that is pending once the after-suite node has run (in the
  state \<open>s2\<close>) has a spec report, and its body was started after \<open>s2\<close> unless the suite is
  in dry-run mode, the interrupt level forbids the node, or, on process 1 of a parallel
  run, the wait for the other processes fails. That the nodes are always run does not
  hold without these conditions.
\<close>

theorem after_suite_cleanup_reached:
  assumes "runSpecs e d l p h specs s = Some (b, s')"
  shows "\<exists>s0 s1 s2 s3.
           runBeforeSuite e (CountWithoutSkip specs) (runSpecs_begin e d l p h specs s) = Some s0 \<and>
           (if SuiteSucceeded (report s0) then runSpecs_main e specs s0 else Some s0) = Some s1 \<and>
           runAfterSuiteCleanup_afterSuite e (CountWithoutSkip specs) s1 = Some s2 \<and>
           runAfterSuiteCleanup_loop e
             (Reverse (WithType (cleanupNodes s2) [NodeTypeCleanupAfterSuite])) s2 = Some s3 \<and>
           (\<not> Node_IsZero (FirstNodeWithType (suiteNodes s)
                  [NodeTypeAfterSuite, NodeTypeSynchronizedAfterSuite])
              \<and> CountWithoutSkip specs > 0 \<longrightarrow>
            reported (FirstNodeWithType (suiteNodes s)
                  [NodeTypeAfterSuite, NodeTypeSynchronizedAfterSuite]) s' \<and>
            (\<not> DryRun (config s) \<and>
             \<not> runNode_skipped e
                 (Status_runNode e (firstBody (FirstNodeWithType (suiteNodes s)
                    [NodeTypeAfterSuite, NodeTypeSynchronizedAfterSuite])))
                 (firstBody (FirstNodeWithType (suiteNodes s)
                    [NodeTypeAfterSuite, NodeTypeSynchronizedAfterSuite])) \<longrightarrow>
             started_after s1 (firstBody (FirstNodeWithType (suiteNodes s)
                    [NodeTypeAfterSuite, NodeTypeSynchronizedAfterSuite])) s')) \<and>
           (\<forall>c \<in> set (WithType (cleanupNodes s2) [NodeTypeCleanupAfterSuite]).
              reported c s' \<and>
              (\<not> DryRun (config s) \<and>
               (ParallelTotal (config s) > 1 \<and> SuiteConfig.ParallelProcess (config s) = 1 \<longrightarrow>
                  BlockUntilNonprimaryProcsHaveFinished e = Some None) \<and>
               \<not> runNode_skipped e (Status_runNode e c) c \<longrightarrow>
               started_after s2 c s'))"
proof -
  let ?a = "FirstNodeWithType (suiteNodes s) [NodeTypeAfterSuite, NodeTypeSynchronizedAfterSuite]"
  from assms obtain s0 s1 s2 s3 s4 where ph:
    "runBeforeSuite e (CountWithoutSkip specs) (runSpecs_begin e d l p h specs s) = Some s0"
    "(if SuiteSucceeded (report s0) then runSpecs_main e specs s0 else Some s0) = Some s1"
    "runAfterSuiteCleanup_afterSuite e (CountWithoutSkip specs) s1 = Some s2"
    "runAfterSuiteCleanup_loop e (Reverse (WithType (cleanupNodes s2) [NodeTypeCleanupAfterSuite])) s2 = Some s3"
    "(if SuiteConfig.ParallelProcess (config s3) = 1
      then runReportAfterSuite e (runSpecs_finish e s3) else Some (runSpecs_finish e s3)) = Some s4"
    "runSpecs_end s4 = (b, s')"
    by (rule runSpecs_phases)
  from runBeforeSuite_inv [OF ph(1) begin_facts(1)]
  have i0: "suite_inv s0" and g0: "grows (runSpecs_begin e d l p h specs s) s0" by auto
  have g1: "grows s0 s1"
    using ph(2) i0 by (auto split: if_splits dest: main_inv)
  have sn: "suiteNodes s1 = suiteNodes s" and cf1: "config s1 = config s"
    using g0 g1 by (simp_all add: grows_def begin_facts)
  from afterSuite_inv [OF ph(3)] have a2:
    "\<not> Node_IsZero ?a \<and> CountWithoutSkip specs > 0 \<longrightarrow> reported ?a s2"
    and g2: "grows s1 s2"
    by (simp_all add: sn)
  from g2 cf1 have cf2: "config s2 = config s" by (simp add: grows_def)
  from cleanup_loop_inv [OF ph(4)] have g3: "grows s2 s3"
    and c3: "\<forall>c \<in> set (Reverse (WithType (cleanupNodes s2) [NodeTypeCleanupAfterSuite])). reported c s3"
    by auto
  from reportAfterSuite_final [OF ph(5)] end_facts [OF ph(6)]
  have "\<exists>rs. SpecReports (report s') = SpecReports (report s3) @ rs" by auto
  then have up: "reported n s3 \<Longrightarrow> reported n s'" for n
    by (auto simp: reported_def)
  have e3: "extends s3 s'" by (rule tail_extends [OF ph(5,6)])
  have e2: "extends s2 s3" by (rule cleanup_loop_extends [OF ph(4)])
  have A: "\<not> Node_IsZero ?a \<and> CountWithoutSkip specs > 0 \<longrightarrow>
            reported ?a s' \<and>
            (\<not> DryRun (config s) \<and>
             \<not> runNode_skipped e (Status_runNode e (firstBody ?a)) (firstBody ?a) \<longrightarrow>
             started_after s1 (firstBody ?a) s')"
  proof (intro impI conjI)
    assume h: "\<not> Node_IsZero ?a \<and> CountWithoutSkip specs > 0"
    with a2 reported_grows [OF g3] up show "reported ?a s'" by blast
    assume k: "\<not> DryRun (config s) \<and>
             \<not> runNode_skipped e (Status_runNode e (firstBody ?a)) (firstBody ?a)"
    from afterSuite_started [OF ph(3)] h k have "started_after s1 (firstBody ?a) s2"
      by (simp add: sn cf1)
    with e2 e3 show "started_after s1 (firstBody ?a) s'" by (blast intro: started_after_later)
  qed
  have B: "\<forall>c \<in> set (WithType (cleanupNodes s2) [NodeTypeCleanupAfterSuite]).
              reported c s' \<and>
              (\<not> DryRun (config s) \<and>
               (ParallelTotal (config s) > 1 \<and> SuiteConfig.ParallelProcess (config s) = 1 \<longrightarrow>
                  BlockUntilNonprimaryProcsHaveFinished e = Some None) \<and>
               \<not> runNode_skipped e (Status_runNode e c) c \<longrightarrow>
               started_after s2 c s')"
  proof (intro ballI conjI impI)
    fix c assume c: "c \<in> set (WithType (cleanupNodes s2) [NodeTypeCleanupAfterSuite])"
    with c3 up show "reported c s'" by (simp add: Reverse_def)
    assume k: "\<not> DryRun (config s) \<and>
               (ParallelTotal (config s) > 1 \<and> SuiteConfig.ParallelProcess (config s) = 1 \<longrightarrow>
                  BlockUntilNonprimaryProcsHaveFinished e = Some None) \<and>
               \<not> runNode_skipped e (Status_runNode e c) c"
    from c have cr: "c \<in> set (Reverse (WithType (cleanupNodes s2) [NodeTypeCleanupAfterSuite]))"
      by (simp add: Reverse_def)
    from cleanup_loop_started [OF ph(4) _ _ cr withType_type [OF c]] k
    have "started_after s2 c s3" by (simp add: cf2)
    then show "started_after s2 c s'" using e3 by (rule started_after_later)
  qed
  from A B ph(1-4) show ?thesis by blast
qed

text \<open>
  The before-suite node fails, the suite has failed before the loop, and the body of the
  after-suite node is started all the same; and the body of the cleanup node that the
  before-suite node registered is started.
\<close>

theorem after_suite_cleanup_reached_witness:
  "map_option fst (runSpecs failing_env ''suite'' [] ''/path'' False [example_spec]
     (example_suite\<lparr>suiteNodes := [example_beforeSuite, example_afterSuite]\<rparr>)) = Some False \<and>
   (\<exists>b s'. runSpecs failing_env ''suite'' [] ''/path'' False [example_spec]
     (example_suite\<lparr>suiteNodes := [example_beforeSuite, example_afterSuite]\<rparr>) = Some (b, s') \<and>
     reported example_afterSuite s' \<and> started example_afterSuite s') \<and>
   (\<exists>b s'. runSpecs cleanup_env ''suite'' [] ''/path'' False [example_spec]
     (example_suite\<lparr>suiteNodes := [example_beforeSuite]\<rparr>) = Some (b, s') \<and>
     reported example_registered s' \<and> started example_registered s')"
proof -
  let ?s = "example_suite\<lparr>suiteNodes := [example_beforeSuite, example_afterSuite]\<rparr>"
  let ?R = "runSpecs failing_env ''suite'' [] ''/path'' False [example_spec] ?s"
  have ne: "?R \<noteq> None" by code_simp
  then obtain b s' where r: "?R = Some (b, s')" by auto
  have f: "map_option fst ?R = Some False" by code_simp
  have a: "FirstNodeWithType (suiteNodes ?s) [NodeTypeAfterSuite, NodeTypeSynchronizedAfterSuite]
           = example_afterSuite" by code_simp
  have z: "\<not> Node_IsZero example_afterSuite" by code_simp
  have c: "CountWithoutSkip [example_spec] > 0" by code_simp
  have fb: "firstBody example_afterSuite = example_afterSuite" by code_simp
  have dr: "\<not> DryRun (config ?s)" by code_simp
  have ns: "\<not> runNode_skipped failing_env (Status_runNode failing_env example_afterSuite) example_afterSuite"
    by code_simp
  from after_suite_cleanup_reached [OF r] a z c fb dr ns
  have A: "reported example_afterSuite s' \<and> started example_afterSuite s'"
    by (auto dest: started_after_started)
  let ?t = "example_suite\<lparr>suiteNodes := [example_beforeSuite]\<rparr>"
  let ?Q = "runSpecs cleanup_env ''suite'' [] ''/path'' False [example_spec] ?t"
  let ?S0 = "the (runBeforeSuite cleanup_env (CountWithoutSkip [example_spec])
               (runSpecs_begin cleanup_env ''suite'' [] ''/path'' False [example_spec] ?t))"
  let ?S1 = "the (if SuiteSucceeded (report ?S0) then runSpecs_main cleanup_env [example_spec] ?S0
                  else Some ?S0)"
  let ?S2 = "the (runAfterSuiteCleanup_afterSuite cleanup_env (CountWithoutSkip [example_spec]) ?S1)"
  have ne2: "?Q \<noteq> None" by code_simp
  then obtain b2 s2' where r2: "?Q = Some (b2, s2')" by auto
  have m: "example_registered \<in> set (WithType (cleanupNodes ?S2) [NodeTypeCleanupAfterSuite])"
    by code_simp
  have dr2: "\<not> DryRun (config ?t)" "\<not> (ParallelTotal (config ?t) > 1)" by code_simp+
  have ns2: "\<not> runNode_skipped cleanup_env (Status_runNode cleanup_env example_registered) example_registered"
    by code_simp
  from after_suite_cleanup_reached [OF r2] obtain s0 s1 s2 where
    e0: "runBeforeSuite cleanup_env (CountWithoutSkip [example_spec])
               (runSpecs_begin cleanup_env ''suite'' [] ''/path'' False [example_spec] ?t) = Some s0" and
    e1: "(if SuiteSucceeded (report s0) then runSpecs_main cleanup_env [example_spec] s0 else Some s0) = Some s1" and
    e2: "runAfterSuiteCleanup_afterSuite cleanup_env (CountWithoutSkip [example_spec]) s1 = Some s2" and
    q: "\<forall>c \<in> set (WithType (cleanupNodes s2) [NodeTypeCleanupAfterSuite]).
              reported c s2' \<and>
              (\<not> DryRun (config ?t) \<and>
               (ParallelTotal (config ?t) > 1 \<and> SuiteConfig.ParallelProcess (config ?t) = 1 \<longrightarrow>
                  BlockUntilNonprimaryProcsHaveFinished cleanup_env = Some None) \<and>
               \<not> runNode_skipped cleanup_env (Status_runNode cleanup_env c) c \<longrightarrow>
               started_after s2 c s2')"
    by blast
  have "?S2 = s2" by (simp only: e0 e1 e2 option.sel)
  with m q dr2 ns2 have B: "reported example_registered s2' \<and> started example_registered s2'"
    by (blast dest: started_after_started)
  from f r A r2 B show ?thesis by blast
qed

text \<open>
  The claim as stated fails: when no spec will run, a suite with an after-suite node
  returns without running or reporting that node; and in dry-run mode, with a spec to
  run, the node is reported but its body is never started.
\<close>

theorem after_suite_node_not_run:
  "FirstNodeWithType [example_afterSuite] [NodeTypeAfterSuite, NodeTypeSynchronizedAfterSuite]
     = example_afterSuite \<and>
   \<not> Node_IsZero example_afterSuite \<and>
   map_option (started example_afterSuite \<circ> snd)
     (runSpecs example_env ''suite'' [] ''/path'' False []
        (example_suite\<lparr>suiteNodes := [example_afterSuite]\<rparr>)) = Some False \<and>
   map_option (reported example_afterSuite \<circ> snd)
     (runSpecs example_env ''suite'' [] ''/path'' False []
        (example_suite\<lparr>suiteNodes := [example_afterSuite]\<rparr>)) = Some False \<and>
   map_option (started example_afterSuite \<circ> snd)
     (runSpecs example_env ''suite'' [] ''/path'' False [example_spec]
        (dry_suite\<lparr>suiteNodes := [example_afterSuite]\<rparr>)) = Some False \<and>
   map_option (reported example_afterSuite \<circ> snd)
     (runSpecs example_env ''suite'' [] ''/path'' False [example_spec]
        (dry_suite\<lparr>suiteNodes := [example_afterSuite]\<rparr>)) = Some True"
  by code_simp

subsection \<open>C8: a synchronized before-suite node on a secondary process\<close>

text \<open>
  Claim C8, as the code has it. For a synchronized before-suite node on a process other
  than the first, outside a dry run, called as \<^verbatim>\<open>runBeforeSuite\<close> calls it, and with the
  answer of the client to \<^verbatim>\<open>BlockUntilSynchronizedBeforeSuiteData\<close>: if the state of
  process 1 is \<^verbatim>\<open>Passed\<close>, then whenever \<^verbatim>\<open>runSuiteNode\<close> returns the process has asked
  the client, and the node with the all-procs body and the received data was handed to
  \<^verbatim>\<open>runNode\<close>, which started the body unless the interrupt level forbade the node; if it
  is \<^verbatim>\<open>Failed\<close>, \<^verbatim>\<open>Panicked\<close> or \<^verbatim>\<open>Timedout\<close>, no body runs and the node is recorded as
  \<^verbatim>\<open>Failed\<close> with the failure for the error "failed on proc 1"; if it is
  \<^verbatim>\<open>Interrupted\<close> or \<^verbatim>\<open>Aborted\<close>, or \<^verbatim>\<open>Skipped\<close> with no error of the client, no body
  runs and the state is recorded unchanged; if it is \<^verbatim>\<open>Skipped\<close> and the client returned
  an error with it, no body runs and the node is recorded as \<^verbatim>\<open>Failed\<close> with that
  error.
\<close>

theorem synchronized_before_suite_secondary:
  assumes sbs: "NodeType node = NodeTypeSynchronizedBeforeSuite"
      and proc: "SuiteConfig.ParallelProcess (config s) \<noteq> 1"
      and dry: "\<not> DryRun (config s)"
      and w: "writer s = Some written"
      and ans: "BlockUntilSynchronizedBeforeSuiteData e = Some (proc1State, data, err)"
  shows
   "(proc1State = SpecStatePassed \<longrightarrow>
       (\<forall>s'. runSuiteNode e node (willRunSuiteNode node [] s) = Some s' \<longrightarrow>
             Client_BlockUntilSynchronizedBeforeSuiteData \<in> set (trace s') \<and>
             (\<not> runNode_skipped e
                 (Status_runNode e (node\<lparr>Body := Body_SynchronizedBeforeSuiteAllProcs data,
                     HasContext := SynchronizedBeforeSuiteAllProcsBodyHasContext node\<rparr>))
                 (node\<lparr>Body := Body_SynchronizedBeforeSuiteAllProcs data,
                     HasContext := SynchronizedBeforeSuiteAllProcsBodyHasContext node\<rparr>) \<longrightarrow>
              Go_Body (node\<lparr>Body := Body_SynchronizedBeforeSuiteAllProcs data,
                     HasContext := SynchronizedBeforeSuiteAllProcsBodyHasContext node\<rparr>)
               \<in> set (trace s')))) \<and>
    (proc1State = SpecStateFailed \<or> proc1State = SpecStatePanicked \<or> proc1State = SpecStateTimedout \<longrightarrow>
       (\<exists>s'. runSuiteNode e node (willRunSuiteNode node [] s) = Some s' \<and>
             State (currentSpecReport s') = SpecStateFailed \<and>
             Failure (currentSpecReport s') =
               failureForLeafNodeWithMessage node (error_Error e SynchronizedBeforeSuiteFailedOnProc1) \<and>
             trace s' = trace (willRunSuiteNode node [] s) @
               [Interceptor_StartInterceptingOutput, Client_BlockUntilSynchronizedBeforeSuiteData,
                Interceptor_StopInterceptingAndReturnOutput])) \<and>
    (proc1State = SpecStateInterrupted \<or> proc1State = SpecStateAborted
       \<or> (proc1State = SpecStateSkipped \<and> err = None) \<longrightarrow>
       (\<exists>s'. runSuiteNode e node (willRunSuiteNode node [] s) = Some s' \<and>
             State (currentSpecReport s') = proc1State \<and>
             Failure (currentSpecReport s') = Failure_zero \<and>
             trace s' = trace (willRunSuiteNode node [] s) @
               [Interceptor_StartInterceptingOutput, Client_BlockUntilSynchronizedBeforeSuiteData,
                Interceptor_StopInterceptingAndReturnOutput])) \<and>
    (proc1State = SpecStateSkipped \<and> err \<noteq> None \<longrightarrow>
       (\<exists>s'. runSuiteNode e node (willRunSuiteNode node [] s) = Some s' \<and>
             State (currentSpecReport s') = SpecStateFailed \<and>
             Failure (currentSpecReport s') =
               failureForLeafNodeWithMessage node (error_Error e (the err)) \<and>
             trace s' = trace (willRunSuiteNode node [] s) @
               [Interceptor_StartInterceptingOutput, Client_BlockUntilSynchronizedBeforeSuiteData,
                Interceptor_StopInterceptingAndReturnOutput]))"
proof -
  let ?s0 = "willRunSuiteNode node [] s"
  let ?ap = "node\<lparr>Body := Body_SynchronizedBeforeSuiteAllProcs data,
                     HasContext := SynchronizedBeforeSuiteAllProcsBodyHasContext node\<rparr>"
  have c0: "config ?s0 = config s" "writer ?s0 = Some written" using w by (simp_all add: willRun_facts)
  let ?s1 = "?s0\<lparr>writer := Some [], trace := trace ?s0 @ [Interceptor_StartInterceptingOutput],
             currentSpecReport := (currentSpecReport ?s0)
               \<lparr>SpecReport.StartTime := Now e (Now_runSuiteNode_StartTime node)\<rparr>\<rparr>"
  have b: "runSuiteNode_begin e node ?s0 = Some ?s1" by (rule begin_Some [OF c0(2)])
  have p1: "SuiteConfig.ParallelProcess (config ?s1) \<noteq> 1" using proc c0 by simp
  note sw = sbs_switch_other [OF sbs p1 ans]
  have run: "runSuiteNode e node ?s0 =
       (case runSuiteNode_switch e node ?s1 of None \<Rightarrow> None
        | Some (err, s2) \<Rightarrow> runSuiteNode_finish e node err s2)"
    using dry c0 b by (simp add: runSuiteNode_def)
  have A: "proc1State = SpecStatePassed \<longrightarrow>
       (\<forall>s'. runSuiteNode e node ?s0 = Some s' \<longrightarrow>
             Client_BlockUntilSynchronizedBeforeSuiteData \<in> set (trace s') \<and>
             (\<not> runNode_skipped e (Status_runNode e ?ap) ?ap \<longrightarrow> Go_Body ?ap \<in> set (trace s')))"
  proof (intro impI allI)
    fix s'
    assume pa: "proc1State = SpecStatePassed" and r: "runSuiteNode e node ?s0 = Some s'"
    let ?s2 = "?s1\<lparr>trace := trace ?s1 @ [Client_BlockUntilSynchronizedBeforeSuiteData]\<rparr>"
    from r run sw pa obtain s2 where
      rec: "runNode_record e ?ap ?s2 = Some s2"
      and fin: "runSuiteNode_finish e node err s2 = Some s'"
      by (auto simp: Let_def split: option.splits)
    from rec obtain rr s3 where rn: "runNode e ?ap 0 [] ?s2 = Some (rr, s3)"
      and s2: "s2 = setStateAndFailure rr s3"
      by (auto simp: runNode_record_def split: option.splits)
    from runNode_trace [OF rn] have "Client_BlockUntilSynchronizedBeforeSuiteData \<in> set (trace s2)"
      by (auto simp: s2 setStateAndFailure_def)
    with finish_trace [OF fin]
    have 1: "Client_BlockUntilSynchronizedBeforeSuiteData \<in> set (trace s')" by simp
    have 2: "\<not> runNode_skipped e (Status_runNode e ?ap) ?ap \<longrightarrow> Go_Body ?ap \<in> set (trace s')"
    proof
      assume ns: "\<not> runNode_skipped e (Status_runNode e ?ap) ?ap"
      from runNode_body_started [OF rn ns] have "Go_Body ?ap \<in> set (trace s2)"
        by (simp add: s2 setStateAndFailure_def)
      with finish_trace [OF fin] show "Go_Body ?ap \<in> set (trace s')" by simp
    qed
    from 1 2 show "Client_BlockUntilSynchronizedBeforeSuiteData \<in> set (trace s') \<and>
             (\<not> runNode_skipped e (Status_runNode e ?ap) ?ap \<longrightarrow> Go_Body ?ap \<in> set (trace s'))"
      by blast
  qed
  have B: "proc1State = SpecStateFailed \<or> proc1State = SpecStatePanicked \<or> proc1State = SpecStateTimedout \<longrightarrow>
       (\<exists>s'. runSuiteNode e node ?s0 = Some s' \<and>
             State (currentSpecReport s') = SpecStateFailed \<and>
             Failure (currentSpecReport s') =
               failureForLeafNodeWithMessage node (error_Error e SynchronizedBeforeSuiteFailedOnProc1) \<and>
             trace s' = trace ?s0 @
               [Interceptor_StartInterceptingOutput, Client_BlockUntilSynchronizedBeforeSuiteData,
                Interceptor_StopInterceptingAndReturnOutput])"
    using run sw
    by (auto simp: Let_def runSuiteNode_finish_def willRun_facts SpecState_Is_def
          setStateAndFailure_def appendCapturedStdOutErr_def interceptor_Stop_def)
  have C: "proc1State = SpecStateInterrupted \<or> proc1State = SpecStateAborted
       \<or> (proc1State = SpecStateSkipped \<and> err = None) \<longrightarrow>
       (\<exists>s'. runSuiteNode e node ?s0 = Some s' \<and>
             State (currentSpecReport s') = proc1State \<and>
             Failure (currentSpecReport s') = Failure_zero \<and>
             trace s' = trace ?s0 @
               [Interceptor_StartInterceptingOutput, Client_BlockUntilSynchronizedBeforeSuiteData,
                Interceptor_StopInterceptingAndReturnOutput])"
    using run sw
    by (auto simp: Let_def runSuiteNode_finish_def willRun_facts SpecState_Is_def
          SpecStateFailureStates_def
          setStateAndFailure_def appendCapturedStdOutErr_def interceptor_Stop_def split: option.splits)
  have D: "proc1State = SpecStateSkipped \<and> err \<noteq> None \<longrightarrow>
       (\<exists>s'. runSuiteNode e node ?s0 = Some s' \<and>
             State (currentSpecReport s') = SpecStateFailed \<and>
             Failure (currentSpecReport s') =
               failureForLeafNodeWithMessage node (error_Error e (the err)) \<and>
             trace s' = trace ?s0 @
               [Interceptor_StartInterceptingOutput, Client_BlockUntilSynchronizedBeforeSuiteData,
                Interceptor_StopInterceptingAndReturnOutput])"
    using run sw
    by (auto simp: Let_def runSuiteNode_finish_def willRun_facts SpecState_Is_def
          SpecStateFailureStates_def
          setStateAndFailure_def appendCapturedStdOutErr_def interceptor_Stop_def)
  from A B C D show ?thesis by blast
qed

text \<open>
  Process 1 failed: the node is recorded as failed on process 2.
\<close>

theorem synchronized_before_suite_secondary_witness:
  "NodeType example_sbs = NodeTypeSynchronizedBeforeSuite \<and>
   SuiteConfig.ParallelProcess (config secondary_suite) \<noteq> 1 \<and>
   \<not> DryRun (config secondary_suite) \<and>
   writer secondary_suite = Some [] \<and>
   BlockUntilSynchronizedBeforeSuiteData proc1_failed_env = Some (SpecStateFailed, [], None) \<and>
   map_option (State \<circ> currentSpecReport)
     (runSuiteNode proc1_failed_env example_sbs
        (willRunSuiteNode example_sbs [] secondary_suite)) = Some SpecStateFailed"
proof -
  have h: "NodeType example_sbs = NodeTypeSynchronizedBeforeSuite"
    "SuiteConfig.ParallelProcess (config secondary_suite) \<noteq> 1"
    "\<not> DryRun (config secondary_suite)"
    "writer secondary_suite = Some []"
    "BlockUntilSynchronizedBeforeSuiteData proc1_failed_env = Some (SpecStateFailed, [], None)"
    by code_simp+
  from synchronized_before_suite_secondary [OF h] have
    "\<exists>s'. runSuiteNode proc1_failed_env example_sbs (willRunSuiteNode example_sbs [] secondary_suite) = Some s' \<and>
          State (currentSpecReport s') = SpecStateFailed" by auto
  then have "map_option (State \<circ> currentSpecReport)
     (runSuiteNode proc1_failed_env example_sbs
        (willRunSuiteNode example_sbs [] secondary_suite)) = Some SpecStateFailed" by auto
  with h show ?thesis by blast
qed

text \<open>
  The claim as stated fails in two places. When the client returns \<^verbatim>\<open>Skipped\<close> together
  with an error, the node is recorded as \<^verbatim>\<open>Failed\<close>, not \<^verbatim>\<open>Skipped\<close>. And in a dry run
  \<^verbatim>\<open>runSuiteNode\<close> returns before it asks the client: the trace is as it was and the node
  is recorded as \<^verbatim>\<open>Passed\<close>, though process 1 failed.
\<close>

theorem skipped_with_error_and_dry_run:
  "BlockUntilSynchronizedBeforeSuiteData proc1_skipped_error_env =
     Some (SpecStateSkipped, [], Some (ClientError ''connection reset'')) \<and>
   map_option (State \<circ> currentSpecReport)
     (runSuiteNode proc1_skipped_error_env example_sbs
        (willRunSuiteNode example_sbs [] secondary_suite)) = Some SpecStateFailed \<and>
   map_option trace
     (runSuiteNode proc1_failed_env example_sbs
        (willRunSuiteNode example_sbs []
           (secondary_suite\<lparr>config := (config secondary_suite)\<lparr>DryRun := True\<rparr>\<rparr>)))
   = Some (trace (willRunSuiteNode example_sbs []
           (secondary_suite\<lparr>config := (config secondary_suite)\<lparr>DryRun := True\<rparr>\<rparr>))) \<and>
   map_option (State \<circ> currentSpecReport)
     (runSuiteNode proc1_failed_env example_sbs
        (willRunSuiteNode example_sbs []
           (secondary_suite\<lparr>config := (config secondary_suite)\<lparr>DryRun := True\<rparr>\<rparr>)))
   = Some SpecStatePassed"
  by code_simp

subsection \<open>C9: the current spec report is a copy\<close>

text \<open>
  Claim C9. With the entries of the current spec report in an allocated array, a call of
  \<^verbatim>\<open>CurrentSpecReport\<close> returns the suite as it was, leaves the entries of the suite as
  they were, and returns a report whose entries are those of the suite, in an array of
  their own; and after the caller has mutated the entries of the report it got, by any
  assignments and appends, the entries of the suite are still as they were and the next
  call returns the same entries and the same report.
\<close>

theorem current_spec_report_copy:
  assumes ok: "ptr (ReportEntries (currentSpecReport s)) < fresh h"
  shows "fst (snd (CurrentSpecReport s h)) = s \<and>
         slice_entries (snd (snd (CurrentSpecReport s h))) (ReportEntries (currentSpecReport s)) =
           slice_entries h (ReportEntries (currentSpecReport s)) \<and>
         returned_entries s h = slice_entries h (ReportEntries (currentSpecReport s)) \<and>
         ptr (ReportEntries (fst (CurrentSpecReport s h)))
           \<noteq> ptr (ReportEntries (currentSpecReport s)) \<and>
         (\<forall>ms sl h2.
            mutate_returned ms s h = Some (sl, h2) \<longrightarrow>
            fst (snd (CurrentSpecReport s h2)) = s \<and>
            slice_entries h2 (ReportEntries (currentSpecReport s)) =
              slice_entries h (ReportEntries (currentSpecReport s)) \<and>
            returned_entries s h2 = returned_entries s h \<and>
            (fst (CurrentSpecReport s h2))\<lparr>ReportEntries := slice_nil\<rparr> =
              (fst (CurrentSpecReport s h))\<lparr>ReportEntries := slice_nil\<rparr>)"
proof -
  let ?c = "CurrentSpecReport s h"
  have a: "fst (snd ?c) = s" by (simp add: current_facts)
  have u1: "untouched (fresh h) h (snd (snd ?c))" by (simp add: current_facts)
  have b: "slice_entries (snd (snd ?c)) (ReportEntries (currentSpecReport s)) =
           slice_entries h (ReportEntries (currentSpecReport s))"
    by (rule untouched_entries [OF u1 ok])
  have c: "returned_entries s h = slice_entries h (ReportEntries (currentSpecReport s))"
    unfolding returned_entries_def by (rule current_entries [OF ok])
  have d: "ptr (ReportEntries (fst ?c)) \<noteq> ptr (ReportEntries (currentSpecReport s))"
    using ok by (simp add: current_facts)
  {
    fix ms sl h2
    assume m: "mutate_returned ms s h = Some (sl, h2)"
    then have m': "mutate_all ms (ReportEntries (fst ?c), snd (snd ?c)) = Some (sl, h2)"
      by (simp add: mutate_returned_def)
    have "fresh h \<le> ptr (ReportEntries (fst ?c))" "ptr (ReportEntries (fst ?c)) < fresh (snd (snd ?c))"
      by (simp_all add: current_facts)
    from mutate_all_keeps [OF m' this] have u2: "untouched (fresh h) (snd (snd ?c)) h2" by simp
    have e2: "slice_entries h2 (ReportEntries (currentSpecReport s)) =
              slice_entries h (ReportEntries (currentSpecReport s))"
      using untouched_entries [OF u2 ok] b by simp
    have ok2: "ptr (ReportEntries (currentSpecReport s)) < fresh h2"
      using ok u1 u2 by (simp add: untouched_def)
    have "returned_entries s h2 = slice_entries h2 (ReportEntries (currentSpecReport s))"
      unfolding returned_entries_def by (rule current_entries [OF ok2])
    with e2 c have r2: "returned_entries s h2 = returned_entries s h" by simp
    have "fst (snd (CurrentSpecReport s h2)) = s \<and>
            slice_entries h2 (ReportEntries (currentSpecReport s)) =
              slice_entries h (ReportEntries (currentSpecReport s)) \<and>
            returned_entries s h2 = returned_entries s h \<and>
            (fst (CurrentSpecReport s h2))\<lparr>ReportEntries := slice_nil\<rparr> =
              (fst (CurrentSpecReport s h))\<lparr>ReportEntries := slice_nil\<rparr>"
      using e2 r2 by (simp add: current_facts)
  }
  with a b c d show ?thesis by blast
qed

text \<open>
  The report that the caller got is changed and extended; the next call returns the one
  entry of the suite.
\<close>

theorem current_spec_report_copy_witness:
  "ptr (ReportEntries (currentSpecReport entries_suite)) < fresh example_heap \<and>
   returned_entries entries_suite example_heap = [example_entry ''first''] \<and>
   map_option (\<lambda>r. slice_entries (snd r) (fst r))
     (mutate_returned [SetEntry 0 (example_entry ''changed''), AppendEntry (example_entry ''added'')]
        entries_suite example_heap)
     = Some [example_entry ''changed'', example_entry ''added''] \<and>
   map_option (returned_entries entries_suite \<circ> snd)
     (mutate_returned [SetEntry 0 (example_entry ''changed''), AppendEntry (example_entry ''added'')]
        entries_suite example_heap)
     = Some [example_entry ''first'']"
  (is "?ok \<and> ?ret \<and> ?mut \<and> ?again")
proof -
  let ?ms = "[SetEntry 0 (example_entry ''changed''), AppendEntry (example_entry ''added'')]"
  have ok: ?ok by (simp add: entries_suite_def example_heap_def)
  have first: "slice_entries example_heap (ReportEntries (currentSpecReport entries_suite))
               = [example_entry ''first'']"
    by (simp add: slice_entries_def entries_suite_def example_heap_def)
  have mut: ?mut
    by (simp add: mutate_returned_def CurrentSpecReport_def Let_def slice_make_def slice_copy_def
          slice_append_def slice_entries_def entries_suite_def example_heap_def growslice_cap_def
          example_suite_def NewSuite_def)
  then obtain sl h2 where m: "mutate_returned ?ms entries_suite example_heap = Some (sl, h2)"
    by auto
  from current_spec_report_copy [OF ok] first m
  have "returned_entries entries_suite example_heap = [example_entry ''first'']"
       "returned_entries entries_suite h2 = [example_entry ''first'']"
    by auto
  with ok mut m show ?thesis by simp
qed

subsection \<open>C10: adding a report entry\<close>

text \<open>
  Claim C10. When the phase is not \<^verbatim>\<open>PhaseRun\<close>, \<^verbatim>\<open>AddReportEntry\<close> returns an error and
  leaves the suite and the store of the entries as they were; when the phase is
  \<^verbatim>\<open>PhaseRun\<close> it returns no error, the entries of the current spec report are the old
  entries followed by the new one, and nothing else in the suite has changed.
\<close>

theorem add_report_entry:
  "(phase s \<noteq> PhaseRun \<longrightarrow>
      AddReportEntry entry s h =
        (Some (AddReportEntryNotDuringRunPhase (ReportEntry.Location entry)), s, h)) \<and>
   (phase s = PhaseRun \<longrightarrow>
      fst (AddReportEntry entry s h) = None \<and>
      slice_entries (snd (snd (AddReportEntry entry s h)))
        (ReportEntries (currentSpecReport (fst (snd (AddReportEntry entry s h))))) =
      slice_entries h (ReportEntries (currentSpecReport s)) @ [entry] \<and>
      fst (snd (AddReportEntry entry s h)) =
        s\<lparr>currentSpecReport := (currentSpecReport s)
            \<lparr>ReportEntries :=
               ReportEntries (currentSpecReport (fst (snd (AddReportEntry entry s h))))\<rparr>\<rparr>)"
  by (simp add: AddReportEntry_def Let_def entries_append)

text \<open>
  A second entry in the run phase, and an entry before the run phase.
\<close>

theorem add_report_entry_witness:
  "phase entries_suite = PhaseRun \<and> phase NewSuite \<noteq> PhaseRun \<and>
   fst (AddReportEntry (example_entry ''second'') entries_suite example_heap) = None \<and>
   slice_entries (snd (snd (AddReportEntry (example_entry ''second'') entries_suite example_heap)))
     (ReportEntries (currentSpecReport
        (fst (snd (AddReportEntry (example_entry ''second'') entries_suite example_heap)))))
   = [example_entry ''first'', example_entry ''second''] \<and>
   AddReportEntry (example_entry ''second'') NewSuite example_heap =
     (Some (AddReportEntryNotDuringRunPhase ''a_test.go:11''), NewSuite, example_heap)"
proof -
  have p: "phase entries_suite = PhaseRun" "phase NewSuite \<noteq> PhaseRun"
    by (simp_all add: entries_suite_def example_suite_def NewSuite_def)
  have first: "slice_entries example_heap (ReportEntries (currentSpecReport entries_suite))
               = [example_entry ''first'']"
    by (simp add: slice_entries_def entries_suite_def example_heap_def)
  have loc: "ReportEntry.Location (example_entry ''second'') = ''a_test.go:11''"
    by (simp add: example_entry_def)
  from add_report_entry [of entries_suite "example_entry ''second''" example_heap]
       add_report_entry [of NewSuite "example_entry ''second''" example_heap] p first loc
  show ?thesis by simp
qed

end
